theory Spec2Isabelle
  imports Complex_Main "HOL-Library.Sublist"
begin

section \<open>JavaScript values used by the ingestion code\<close>

text \<open>
  The ingestion and analysis core lives in \<^verbatim>\<open>server/routes.ts\<close>. Strings are modelled
  as \<^typ>\<open>string\<close>; a \<^typ>\<open>char\<close> stands for one code unit below 256, which covers
  every literal the source tests for. A number is a binary64 value: a finite one is
  the rational it stands for, and the arithmetic of the ingestion code rounds every
  exact result to the nearest binary64 value. The sign of zero is not represented. The
  counters and sums of the analyzers are integers; they are exact below \<open>2^53\<close>.
\<close>

datatype jsnum = Fin rat | NaN | PosInf | NegInf

text \<open>A spreadsheet cell as \<^verbatim>\<open>xlsx.utils.sheet_to_json\<close> delivers it: text, a finite
  number, or a boolean. A cell that is empty in the sheet is an absent key of the row.\<close>

datatype cell = CStr string | CNum rat | CBool bool

text \<open>A row object: its own keys in enumeration order, each with its cell.\<close>

type_synonym row = "(string \<times> cell) list"

definition getCell :: "row \<Rightarrow> string \<Rightarrow> cell option" where
  "getCell r k = map_of r k"

text \<open>JavaScript truthiness of a cell read with \<^verbatim>\<open>row[k]\<close> (\<^verbatim>\<open>undefined\<close> is \<open>None\<close>).\<close>

fun truthy :: "cell option \<Rightarrow> bool" where
  "truthy None = False"
| "truthy (Some (CStr s)) = (s \<noteq> [])"
| "truthy (Some (CNum n)) = (n \<noteq> 0)"
| "truthy (Some (CBool b)) = b"

text \<open>\<^verbatim>\<open>row[k] || d\<close> with a string default.\<close>

definition orElse :: "cell option \<Rightarrow> string \<Rightarrow> cell" where
  "orElse c d = (if truthy c then the c else CStr d)"

subsection \<open>String primitives\<close>

text \<open>White space and line terminators that \<^verbatim>\<open>String.prototype.trim\<close> removes, among
  the code units below 256: TAB, LF, VT, FF, CR, SPACE and NBSP.\<close>

definition isWhiteSpace :: "char \<Rightarrow> bool" where
  "isWhiteSpace c = (of_char c \<in> {9, 10, 11, 12, 13, 32, 160 :: nat})"

definition trim :: "string \<Rightarrow> string" where
  "trim s = rev (dropWhile isWhiteSpace (rev (dropWhile isWhiteSpace s)))"

text \<open>\<^verbatim>\<open>toLowerCase\<close> on code units below 256: A-Z and the Latin-1 capitals
  (0xC0-0xDE without the multiplication sign 0xD7) move up by 32.\<close>

definition lowerChar :: "char \<Rightarrow> char" where
  "lowerChar c =
     (let n = (of_char c :: nat) in
      if (65 \<le> n \<and> n \<le> 90) \<or> (192 \<le> n \<and> n \<le> 222 \<and> n \<noteq> 215)
      then char_of (n + 32) else c)"

definition toLowerCase :: "string \<Rightarrow> string" where
  "toLowerCase s = map lowerChar s"

fun startsWith :: "string \<Rightarrow> string \<Rightarrow> bool" where
  "startsWith s [] = True"
| "startsWith [] (p # ps) = False"
| "startsWith (c # cs) (p # ps) = (c = p \<and> startsWith cs ps)"

text \<open>\<^verbatim>\<open>s.includes(t)\<close>: \<open>t\<close> occurs in \<open>s\<close> as a contiguous substring.\<close>

fun includesStr :: "string \<Rightarrow> string \<Rightarrow> bool" where
  "includesStr [] t = (t = [])"
| "includesStr (c # cs) t = (startsWith (c # cs) t \<or> includesStr cs t)"

subsection \<open>Call-type classification (routes.ts, lines 324-373)\<close>

text \<open>The chain of tests on \<^verbatim>\<open>normalizedCallType\<close>, in the order of the source. The
  argument is the text after \<^verbatim>\<open>toLowerCase().trim()\<close>.\<close>

definition classifyNormalized :: "string \<Rightarrow> string" where
  "classifyNormalized t =
    (if includesStr t ''sms'' \<or> includesStr t ''message'' then
       (if includesStr t ''outgoing'' \<or> includesStr t ''sent'' \<or> includesStr t ''out'' then ''sms_sent''
        else if includesStr t ''incoming'' \<or> includesStr t ''received'' \<or> includesStr t ''in''
          then ''sms_received''
        else ''sms_received'')
     else if includesStr t ''outgoing'' \<or> includesStr t ''sent'' then ''call_outgoing''
     else if includesStr t ''incoming'' \<or> includesStr t ''received'' then ''call_incoming''
     else if t = ''incoming'' \<or> t = ''inc'' then ''call_incoming''
     else if t = ''outgoing'' \<or> t = ''out'' then ''call_outgoing''
     else if includesStr t ''out'' \<and> \<not> includesStr t ''outgoing'' then ''call_outgoing''
     else if includesStr t ''in'' \<and> \<not> includesStr t ''incoming'' then ''call_incoming''
     else if includesStr t ''voice'' \<or> includesStr t ''call'' \<or> t = ''mo'' \<or> t = ''mt'' then
       (if t = ''mt'' \<or> includesStr t ''terminated'' then ''call_incoming''
        else if t = ''mo'' \<or> includesStr t ''originated'' then ''call_outgoing''
        else ''call_outgoing'')
     else ''call_outgoing'')"

text \<open>\<^verbatim>\<open>String(callType).toLowerCase().trim()\<close> followed by the chain, for a call type
  that is already text.\<close>

definition classifyCallType :: "string \<Rightarrow> string" where
  "classifyCallType s = classifyNormalized (trim (toLowerCase s))"

subsection \<open>Binary64 arithmetic\<close>

text \<open>The number of binary digits of a natural number.\<close>

fun bitLength :: "nat \<Rightarrow> nat" where
  "bitLength n = (if n = 0 then 0 else Suc (bitLength (n div 2)))"

declare bitLength.simps [simp del]

definition pow2 :: "int \<Rightarrow> rat" where
  "pow2 e = (if 0 \<le> e then 2 ^ nat e else 1 / 2 ^ nat (- e))"

text \<open>For a positive \<open>q\<close>, the exponent \<open>e\<close> with \<open>2^e \<le> q < 2^(e+1)\<close>.\<close>

definition binaryExponent :: "rat \<Rightarrow> int" where
  "binaryExponent q =
     (if 1 \<le> q then int (bitLength (nat \<lfloor>q\<rfloor>)) - 1
      else - int (bitLength (nat (\<lceil>1 / q\<rceil> - 1))))"

text \<open>The nearest integer, a tie going to the even one.\<close>

definition roundHalfEven :: "rat \<Rightarrow> int" where
  "roundHalfEven x =
     (let f = \<lfloor>x\<rfloor>; d = x - of_int f
      in if d < 1 / 2 then f else if 1 / 2 < d then f + 1 else if even f then f else f + 1)"

text \<open>The nearest rational with a significand of 53 bits and an exponent of at least
  -1022 (the subnormal numbers have the spacing \<open>2^-1074\<close>): the result of a binary64
  operation that does not overflow.\<close>

definition roundFinite :: "rat \<Rightarrow> rat" where
  "roundFinite q =
     (if q = 0 then 0
      else (let u = pow2 (max (binaryExponent \<bar>q\<bar>) (- 1022) - 52)
            in of_int (roundHalfEven (q / u)) * u))"

text \<open>Rounding to binary64: a result that reaches \<open>2^1024\<close> is an infinity.\<close>

definition roundDouble :: "rat \<Rightarrow> jsnum" where
  "roundDouble q =
     (let r = roundFinite q
      in if pow2 1024 \<le> \<bar>r\<bar> then (if 0 < q then PosInf else NegInf) else Fin r)"

text \<open>The operators \<^verbatim>\<open>-\<close> and \<^verbatim>\<open>*\<close> on numbers.\<close>

definition jsSub :: "jsnum \<Rightarrow> jsnum \<Rightarrow> jsnum" where
  "jsSub a b =
     (case a of
        NaN \<Rightarrow> NaN
      | Fin x \<Rightarrow>
          (case b of Fin y \<Rightarrow> roundDouble (x - y) | NaN \<Rightarrow> NaN
           | PosInf \<Rightarrow> NegInf | NegInf \<Rightarrow> PosInf)
      | PosInf \<Rightarrow> (case b of NaN \<Rightarrow> NaN | PosInf \<Rightarrow> NaN | _ \<Rightarrow> PosInf)
      | NegInf \<Rightarrow> (case b of NaN \<Rightarrow> NaN | NegInf \<Rightarrow> NaN | _ \<Rightarrow> NegInf))"

fun signOf :: "jsnum \<Rightarrow> int" where
  "signOf (Fin x) = (if x = 0 then 0 else if 0 < x then 1 else - 1)"
| "signOf PosInf = 1"
| "signOf NegInf = - 1"
| "signOf NaN = 0"

definition jsMul :: "jsnum \<Rightarrow> jsnum \<Rightarrow> jsnum" where
  "jsMul a b =
     (case (a, b) of
        (Fin x, Fin y) \<Rightarrow> roundDouble (x * y)
      | _ \<Rightarrow>
          if a = NaN \<or> b = NaN \<or> signOf a * signOf b = 0 then NaN
          else if 0 < signOf a * signOf b then PosInf else NegInf)"

subsection \<open>Numeric parsing\<close>

definition isDigit :: "char \<Rightarrow> bool" where
  "isDigit c = (48 \<le> (of_char c :: nat) \<and> (of_char c :: nat) \<le> 57)"

definition digitsVal :: "string \<Rightarrow> nat" where
  "digitsVal ds = foldl (\<lambda>a c. 10 * a + (of_char c - 48)) 0 ds"

text \<open>An optional sign in front of a numeral: whether it is negative, and the rest.\<close>

definition takeSign :: "string \<Rightarrow> bool \<times> string" where
  "takeSign t =
     (case t of
        [] \<Rightarrow> (False, [])
      | c # r \<Rightarrow> if c = CHR ''-'' then (True, r) else if c = CHR ''+'' then (False, r)
                 else (False, t))"

text \<open>\<^verbatim>\<open>parseInt(s, 10)\<close>: leading white space, a sign, then the longest run of decimal
  digits, read as the nearest binary64 value; \<open>None\<close> is NaN. The result is kept as an
  integer, so a run of digits beyond the binary64 range (more than 308 digits, which
  \<^verbatim>\<open>parseInt\<close> reads as an infinity) is outside the model.\<close>

definition parseInt10 :: "string \<Rightarrow> int option" where
  "parseInt10 s =
     (let (neg, u) = takeSign (dropWhile isWhiteSpace s);
          ds = takeWhile isDigit u
      in if ds = [] then None
         else Some \<lfloor>roundFinite (of_int (if neg then - int (digitsVal ds)
                                           else int (digitsVal ds)))\<rfloor>)"

text \<open>The exponent part at the head of a text: its value and what follows it; without
  one, 0 and the text itself.\<close>

definition exponentPart :: "string \<Rightarrow> int \<times> string" where
  "exponentPart r =
     (case r of
        [] \<Rightarrow> (0, r)
      | c # r' \<Rightarrow>
          if c = CHR ''e'' \<or> c = CHR ''E'' then
            (let (neg, u) = takeSign r'; ds = takeWhile isDigit u
             in if ds = [] then (0, r)
                else (if neg then - int (digitsVal ds) else int (digitsVal ds),
                      dropWhile isDigit u))
          else (0, r))"

definition scale10 :: "rat \<Rightarrow> int \<Rightarrow> rat" where
  "scale10 m e = (if 0 \<le> e then m * 10 ^ nat e else m / 10 ^ nat (- e))"

text \<open>The longest prefix of a text that is a signed decimal literal or \<^verbatim>\<open>Infinity\<close>: its
  value (the binary64 value nearest to the decimal) and the rest of the text; NaN when
  there is none.\<close>

definition decimalLiteral :: "string \<Rightarrow> jsnum \<times> string" where
  "decimalLiteral t =
     (let (neg, u) = takeSign t in
      if startsWith u ''Infinity'' then (if neg then NegInf else PosInf, drop 8 u)
      else
        (let ip = takeWhile isDigit u;
             r1 = dropWhile isDigit u;
             hasDot = (r1 \<noteq> [] \<and> hd r1 = CHR ''.'');
             fp = (if hasDot then takeWhile isDigit (tl r1) else []);
             r2 = (if hasDot then dropWhile isDigit (tl r1) else r1);
             m = of_nat (digitsVal (ip @ fp)) / 10 ^ length fp;
             (e, r3) = exponentPart r2
         in if ip = [] \<and> fp = [] then (NaN, t)
            else (roundDouble (scale10 (if neg then - m else m) e), r3)))"

text \<open>\<^verbatim>\<open>parseFloat(s)\<close>: leading white space is skipped, trailing text is ignored.\<close>

definition parseFloat :: "string \<Rightarrow> jsnum" where
  "parseFloat s = fst (decimalLiteral (dropWhile isWhiteSpace s))"

text \<open>Digits in a radix up to sixteen, for the literals \<^verbatim>\<open>0x\<close>, \<^verbatim>\<open>0o\<close> and \<^verbatim>\<open>0b\<close>.\<close>

definition radixDigit :: "char \<Rightarrow> nat option" where
  "radixDigit c =
     (let n = (of_char c :: nat) in
      if 48 \<le> n \<and> n \<le> 57 then Some (n - 48)
      else if 97 \<le> n \<and> n \<le> 102 then Some (n - 87)
      else if 65 \<le> n \<and> n \<le> 70 then Some (n - 55)
      else None)"

definition radixLiteral :: "nat \<Rightarrow> string \<Rightarrow> jsnum" where
  "radixLiteral b ds =
     (if ds \<noteq> [] \<and> list_all (\<lambda>c. case radixDigit c of Some d \<Rightarrow> d < b | None \<Rightarrow> False) ds
      then roundDouble (of_nat (foldl (\<lambda>a c. b * a + the (radixDigit c)) 0 ds))
      else NaN)"

text \<open>\<^verbatim>\<open>Number(s)\<close> for a text: white space around it is dropped, the empty text is 0,
  and the whole of what remains must be one numeric literal.\<close>

definition stringToNumber :: "string \<Rightarrow> jsnum" where
  "stringToNumber s =
     (let t = trim s in
      if t = [] then Fin 0
      else if startsWith t ''0x'' \<or> startsWith t ''0X'' then radixLiteral 16 (drop 2 t)
      else if startsWith t ''0o'' \<or> startsWith t ''0O'' then radixLiteral 8 (drop 2 t)
      else if startsWith t ''0b'' \<or> startsWith t ''0B'' then radixLiteral 2 (drop 2 t)
      else (case decimalLiteral t of (v, rest) \<Rightarrow> if rest = [] then v else NaN))"

definition isNaN :: "jsnum \<Rightarrow> bool" where
  "isNaN x = (x = NaN)"

text \<open>\<^verbatim>\<open>s.split(sep)\<close> for a one-character separator.\<close>

fun splitOn :: "char \<Rightarrow> string \<Rightarrow> string list" where
  "splitOn sep [] = [[]]"
| "splitOn sep (c # cs) =
     (if c = sep then [] # splitOn sep cs
      else (case splitOn sep cs of [] \<Rightarrow> [[c]] | p # ps \<Rightarrow> (c # p) # ps))"

text \<open>Decimal text of an integer, as \<^verbatim>\<open>n.toString()\<close> gives it below 1e21.\<close>

function showNat :: "nat \<Rightarrow> string" where
  "showNat n = (if n < 10 then [char_of (48 + n)] else showNat (n div 10) @ [char_of (48 + n mod 10)])"
  by pat_completeness auto
termination
  by (relation "measure id") auto

definition showInt :: "int \<Rightarrow> string" where
  "showInt i = (if i < 0 then CHR ''-'' # showNat (nat (- i)) else showNat (nat i))"

section \<open>The runtime and the outside world\<close>

text \<open>
  Library functions of the JavaScript runtime whose results depend on the engine, the
  locale or the time zone are parameters of the model. A time value is the number of
  milliseconds since the epoch; \<open>None\<close> stands for an invalid Date.
  \<^item> \<open>numToString\<close>: \<^verbatim>\<open>String(n)\<close> for a number;
  \<^item> \<open>dateParse\<close>: the time value of \<^verbatim>\<open>new Date(s)\<close>, which is \<^verbatim>\<open>Date.parse(s)\<close>;
  \<^item> \<open>getFullYear\<close>, \<open>getHours\<close>, \<open>getDay\<close>: the local calendar fields of a valid date;
  \<^item> \<open>setHours\<close>: the time value that \<^verbatim>\<open>d.setHours(h, m, s, 0)\<close> computes for a valid
    date, before the range check that may leave the date invalid;
  \<^item> \<open>toISOString\<close>: the ISO text of a valid date;
  \<^item> \<open>toLocaleDateString\<close>: the \<^verbatim>\<open>en-US\<close> text with long weekday, long month and day;
  \<^item> \<open>localeCompare\<close>: the sign of \<^verbatim>\<open>a.localeCompare(b)\<close>;
  \<^item> \<open>protoMember\<close>: for the name of a member that every object inherits from
    \<^verbatim>\<open>Object.prototype\<close>, the text that member turns into when it is used as a
    property key;
  \<^item> \<open>roundPercent\<close>, \<open>roundQuotient\<close>, \<open>toFixed1\<close>: \<^verbatim>\<open>Math.round((a / b) * 100)\<close>,
    \<^verbatim>\<open>Math.round(a / b)\<close> and \<^verbatim>\<open>(a / 1000).toFixed(1)\<close> for integers, whose results
    depend on binary64 rounding.
\<close>

record jsenv =
  numToString :: "rat \<Rightarrow> string"
  dateParse :: "string \<Rightarrow> int option"
  getFullYear :: "int \<Rightarrow> int"
  getHours :: "int \<Rightarrow> nat"
  getDay :: "int \<Rightarrow> nat"
  setHours :: "int \<Rightarrow> int \<Rightarrow> int \<Rightarrow> int \<Rightarrow> int"
  toISOString :: "int \<Rightarrow> string"
  toLocaleDateString :: "int \<Rightarrow> string"
  localeCompare :: "string \<Rightarrow> string \<Rightarrow> int"
  protoMember :: "string \<Rightarrow> string option"
  roundPercent :: "int \<Rightarrow> int \<Rightarrow> int"
  roundQuotient :: "int \<Rightarrow> int \<Rightarrow> int"
  toFixed1 :: "int \<Rightarrow> string"

text \<open>\<^verbatim>\<open>String(v)\<close> for a cell.\<close>

definition toStr :: "jsenv \<Rightarrow> cell \<Rightarrow> string" where
  "toStr env c =
     (case c of CStr s \<Rightarrow> s | CNum n \<Rightarrow> numToString env n
      | CBool b \<Rightarrow> if b then ''true'' else ''false'')"

text \<open>The system clock and \<^verbatim>\<open>Math.random\<close> are streams of readings; each read takes
  the next one. A reading of the clock is the present time, far from the ends of the
  range of a Date; a draw is a binary64 value from 0 up to but not including 1.\<close>

record world =
  clockReadings :: "nat \<Rightarrow> int"
  randomDraws :: "nat \<Rightarrow> rat"

definition readClock :: "world \<Rightarrow> int \<times> world" where
  "readClock w = (clockReadings w 0, w\<lparr>clockReadings := \<lambda>k. clockReadings w (Suc k)\<rparr>)"

definition mathRandom :: "world \<Rightarrow> rat \<times> world" where
  "mathRandom w = (randomDraws w 0, w\<lparr>randomDraws := \<lambda>k. randomDraws w (Suc k)\<rparr>)"

datatype error = RangeError

text \<open>\<^verbatim>\<open>new Date(x)\<close> for a number: beyond 8.64e15 ms, and for a number that is not
  finite, the date is invalid, otherwise the fraction is dropped.\<close>

definition truncRat :: "rat \<Rightarrow> int" where
  "truncRat x = (if 0 \<le> x then \<lfloor>x\<rfloor> else \<lceil>x\<rceil>)"

definition timeClip :: "rat \<Rightarrow> int option" where
  "timeClip x = (if \<bar>x\<bar> > 8640000000000000 then None else Some (truncRat x))"

definition newDate :: "jsnum \<Rightarrow> int option" where
  "newDate x = (case x of Fin v \<Rightarrow> timeClip v | _ \<Rightarrow> None)"

section \<open>Schema normalizer (routes.ts lines 52-191)\<close>

subsection \<open>Objects used as dictionaries\<close>

text \<open>\<^verbatim>\<open>obj[k] = v\<close> on a plain object: an existing key keeps its place.\<close>

fun setProp :: "string \<Rightarrow> 'v \<Rightarrow> (string \<times> 'v) list \<Rightarrow> (string \<times> 'v) list" where
  "setProp k v [] = [(k, v)]"
| "setProp k v ((k', v') # rest) =
     (if k = k' then (k, v) # rest else (k', v') # setProp k v rest)"

text \<open>\<^verbatim>\<open>obj[k]\<close> on an object literal whose values are names: an own property first,
  then what the object inherits from \<^verbatim>\<open>Object.prototype\<close>. An inherited member is
  truthy, and the only use the normalizer makes of it is as a property key, so it is
  represented by its key text.\<close>

definition lookupProp :: "jsenv \<Rightarrow> (string \<times> string) list \<Rightarrow> string \<Rightarrow> string option" where
  "lookupProp env obj k = (case map_of obj k of Some v \<Rightarrow> Some v | None \<Rightarrow> protoMember env k)"

subsection \<open>detectColumnType (lines 53-135)\<close>

definition inClass :: "(char \<Rightarrow> bool) \<Rightarrow> nat \<Rightarrow> nat \<Rightarrow> string \<Rightarrow> bool" where
  "inClass P lo hi s = (lo \<le> length s \<and> length s \<le> hi \<and> list_all P s)"

text \<open>\<^verbatim>\<open>/^[0-9+\-\s()]{8,20}$/\<close>\<close>

definition phonePattern :: "string \<Rightarrow> bool" where
  "phonePattern s =
     inClass (\<lambda>c. isDigit c \<or> c = CHR ''+'' \<or> c = CHR ''-'' \<or> isWhiteSpace c
                   \<or> c = CHR ''('' \<or> c = CHR '')'') 8 20 s"

text \<open>\<^verbatim>\<open>/^[0-9E\+\-\.]{12,20}$/\<close>\<close>

definition imeiPattern :: "string \<Rightarrow> bool" where
  "imeiPattern s =
     inClass (\<lambda>c. isDigit c \<or> c = CHR ''E'' \<or> c = CHR ''+'' \<or> c = CHR ''-''
                   \<or> c = CHR ''.'') 12 20 s"

text \<open>\<^verbatim>\<open>Number(v)\<close> for a cell.\<close>

definition toNumber :: "cell \<Rightarrow> jsnum" where
  "toNumber c =
     (case c of CStr s \<Rightarrow> stringToNumber s | CNum n \<Rightarrow> Fin n
      | CBool b \<Rightarrow> Fin (if b then 1 else 0))"

fun nonNegative :: "jsnum \<Rightarrow> bool" where
  "nonNegative (Fin r) = (r \<ge> 0)"
| "nonNegative PosInf = True"
| "nonNegative NegInf = False"
| "nonNegative NaN = False"

definition detectColumnType :: "jsenv \<Rightarrow> string \<Rightarrow> cell option list \<Rightarrow> string option" where
  "detectColumnType env columnName sampleValues =
    (let name = toLowerCase columnName;
         nonEmptyValues =
           take 5 (map the (filter (\<lambda>v. v \<noteq> None \<and> v \<noteq> Some (CStr [])) sampleValues));
         hasPhoneNumbers = list_ex (\<lambda>v. phonePattern (toStr env v)) nonEmptyValues;
         isDateLike =
           list_ex (\<lambda>v. (case v of CNum n \<Rightarrow> n > 40000 \<and> n < 50000 | _ \<Rightarrow> False)
                        \<or> dateParse env (toStr env v) \<noteq> None) nonEmptyValues;
         hasIMEI =
           list_ex (\<lambda>v. let str = toStr env v
                        in length str \<ge> 12 \<and> list_ex isDigit str
                           \<and> (includesStr str ''E+'' \<or> imeiPattern str)) nonEmptyValues;
         hasCallTypes =
           list_ex (\<lambda>v. let str = toLowerCase (toStr env v)
                        in includesStr str ''call'' \<or> includesStr str ''sms''
                           \<or> includesStr str ''incoming'' \<or> includesStr str ''outgoing'')
                   nonEmptyValues;
         hasDuration =
           list_all (\<lambda>v. \<not> isNaN (toNumber v) \<and> nonNegative (toNumber v)) nonEmptyValues;
         hasLocation =
           list_ex (\<lambda>v. let str = toStr env v in includesStr str ''|'' \<or> length str > 10)
                   nonEmptyValues;
         isPhoneColumn = phonePattern name;
         isMsisdnColumn = (includesStr name ''msisdn'' \<or> includesStr name ''customer''
                           \<or> includesStr name ''subscriber'');
         phoneKind =
           (if hasPhoneNumbers \<or> isPhoneColumn \<or> isMsisdnColumn then
              (if includesStr name ''a'' \<or> includesStr name ''caller'' \<or> includesStr name ''source''
                  \<or> includesStr name ''from'' then Some ''A-Party''
               else if includesStr name ''b'' \<or> includesStr name ''called''
                  \<or> includesStr name ''dest'' \<or> includesStr name ''to''
                  \<or> includesStr name ''customer'' \<or> includesStr name ''msisdn''
                  \<or> includesStr name ''subscriber'' then Some ''B-Party''
               else if isPhoneColumn then Some ''A-Party''
               else if isMsisdnColumn then Some ''B-Party''
               else None)
            else None)
     in
     if phoneKind \<noteq> None then phoneKind
     else if isDateLike \<and> (includesStr name ''date'' \<or> includesStr name ''time'')
       then Some ''Date And Time''
     else if hasIMEI \<and> (includesStr name ''imei'' \<or> includesStr name ''device'')
       then Some ''IMEI''
     else if hasCallTypes \<and> (includesStr name ''type'' \<or> includesStr name ''call'')
       then Some ''Call Type''
     else if hasDuration \<and> (includesStr name ''duration'' \<or> includesStr name ''time'')
       then Some ''Duration''
     else if hasLocation \<and> (includesStr name ''location'' \<or> includesStr name ''site''
                             \<or> includesStr name ''cell'')
       then Some ''SiteLocation''
     else None)"

subsection \<open>normalizeColumnNames (lines 138-191)\<close>

definition exactMapping :: "(string \<times> string) list" where
  "exactMapping =
    [(''A-Party'', ''A-Party''), (''B-Party'', ''B-Party''),
     (''Call Type'', ''Call Type''), (''Date And Time'', ''Date And Time''),
     (''IMEI'', ''IMEI''), (''IMSI'', ''IMSI''), (''Duration'', ''Duration''),
     (''Cell ID'', ''Cell ID''), (''SiteLocation'', ''SiteLocation''),
     (''Aparty'', ''A-Party''), (''aparty'', ''A-Party''), (''A_Party'', ''A-Party''),
     (''AParty'', ''A-Party''),
     (''BParty'', ''B-Party''), (''bparty'', ''B-Party''), (''B_Party'', ''B-Party''),
     (''Customer Msisdn'', ''B-Party''), (''customer msisdn'', ''B-Party''),
     (''Customer MSISDN'', ''B-Party''),
     (''Msisdn'', ''B-Party''), (''msisdn'', ''B-Party''), (''MSISDN'', ''B-Party''),
     (''Customer Number'', ''B-Party''), (''customer number'', ''B-Party''),
     (''Datetime'', ''Date And Time''), (''datetime'', ''Date And Time''),
     (''DateTime'', ''Date And Time''),
     (''CallType'', ''Call Type''), (''calltype'', ''Call Type''), (''call_type'', ''Call Type''),
     (''Imei'', ''IMEI''), (''imei'', ''IMEI''), (''Imsi'', ''IMSI''), (''imsi'', ''IMSI''),
     (''cellid'', ''Cell ID''), (''CellID'', ''Cell ID''), (''cell_id'', ''Cell ID''),
     (''duration'', ''Duration''), (''Location'', ''SiteLocation''),
     (''location'', ''SiteLocation'')]"

text \<open>First pass (lines 164-169) over the keys of the first row.\<close>

definition exactPass :: "jsenv \<Rightarrow> string list \<Rightarrow> (string \<times> string) list" where
  "exactPass env keys =
     fold (\<lambda>originalKey columnTypes.
             case lookupProp env exactMapping originalKey of
               Some v \<Rightarrow> setProp originalKey v columnTypes
             | None \<Rightarrow> columnTypes) keys []"

text \<open>Second pass (lines 172-181): only keys for which \<^verbatim>\<open>columnTypes\<close> has nothing.
  The sample values of a column are its cells in the first ten rows (lines 160, 174).\<close>

definition samplesOf :: "row list \<Rightarrow> string \<Rightarrow> cell option list" where
  "samplesOf data originalKey = map (\<lambda>r. getCell r originalKey) (take 10 data)"

definition detectPass ::
    "jsenv \<Rightarrow> row list \<Rightarrow> string list \<Rightarrow> (string \<times> string) list \<Rightarrow> (string \<times> string) list" where
  "detectPass env data keys ct0 =
     fold (\<lambda>originalKey columnTypes.
             if lookupProp env columnTypes originalKey = None then
               (case detectColumnType env originalKey (samplesOf data originalKey) of
                  Some detectedType \<Rightarrow> setProp originalKey detectedType columnTypes
                | None \<Rightarrow> columnTypes)
             else columnTypes) keys ct0"

definition columnTypesOf :: "jsenv \<Rightarrow> row list \<Rightarrow> (string \<times> string) list" where
  "columnTypesOf env data =
     (let keys = map fst (hd data) in detectPass env data keys (exactPass env keys))"

text \<open>\<^verbatim>\<open>columnTypes[originalKey] || originalKey\<close> (line 186).\<close>

definition normalizedKey :: "jsenv \<Rightarrow> (string \<times> string) list \<Rightarrow> string \<Rightarrow> string" where
  "normalizedKey env columnTypes originalKey =
     (case lookupProp env columnTypes originalKey of Some v \<Rightarrow> v | None \<Rightarrow> originalKey)"

definition normalizeRow :: "jsenv \<Rightarrow> (string \<times> string) list \<Rightarrow> row \<Rightarrow> row" where
  "normalizeRow env columnTypes r =
     fold (\<lambda>(originalKey, v) normalizedRow.
             setProp (normalizedKey env columnTypes originalKey) v normalizedRow) r []"

definition normalizeColumnNames :: "jsenv \<Rightarrow> row list \<Rightarrow> row list" where
  "normalizeColumnNames env data =
     (if data = [] then data else map (normalizeRow env (columnTypesOf env data)) data)"

section \<open>Records\<close>

text \<open>\<^verbatim>\<open>InsertCDRRecord\<close> of the shared schema. Columns that the schema leaves
  nullable are options, \<open>None\<close> being \<^verbatim>\<open>null\<close> or \<^verbatim>\<open>undefined\<close>; for \<open>duration\<close>
  it also stands for the NaN that \<^verbatim>\<open>parseInt\<close> may give, which the analyzers treat
  alike (\<^verbatim>\<open>record.duration || 0\<close>). The call type is free text in the schema. The
  timestamp is the time value of a valid Date.\<close>

record cdr =
  callerNumber :: string
  calledNumber :: "string option"
  imei :: "string option"
  callType :: string
  duration :: "int option"
  timestamp :: int
  location :: "string option"
  latitude :: "jsnum option"
  longitude :: "jsnum option"
  uploadId :: string

section \<open>Record parser (parseExcelToCDR, routes.ts lines 193-388)\<close>

subsection \<open>Timestamp resolution (lines 223-292)\<close>

text \<open>The rewrites of a date text that the source tries in turn (lines 237-242).\<close>

definition isDateSep :: "char \<Rightarrow> bool" where
  "isDateSep c = (c = CHR ''/'' \<or> c = CHR ''-'')"

definition replaceSeps :: "char \<Rightarrow> string \<Rightarrow> string" where
  "replaceSeps d s = map (\<lambda>c. if isDateSep c then d else c) s"

text \<open>\<^verbatim>\<open>/(\d{2})[-/](\d{2})[-/](\d{4})/\<close> at the head of a text: the replacement
  \<^verbatim>\<open>$3-$2-$1\<close> and what follows the match.\<close>

definition matchDMY4 :: "string \<Rightarrow> (string \<times> string) option" where
  "matchDMY4 s =
     (case s of
        d1 # d2 # s1 # m1 # m2 # s2 # y1 # y2 # y3 # y4 # rest \<Rightarrow>
          if isDigit d1 \<and> isDigit d2 \<and> isDateSep s1 \<and> isDigit m1 \<and> isDigit m2 \<and> isDateSep s2
             \<and> isDigit y1 \<and> isDigit y2 \<and> isDigit y3 \<and> isDigit y4
          then Some ([y1, y2, y3, y4, CHR ''-'', m1, m2, CHR ''-'', d1, d2], rest)
          else None
      | _ \<Rightarrow> None)"

text \<open>\<^verbatim>\<open>/(\d{2})[-/](\d{2})[-/](\d{2})/\<close> with the replacement \<^verbatim>\<open>20$3-$2-$1\<close>.\<close>

definition matchDMY2 :: "string \<Rightarrow> (string \<times> string) option" where
  "matchDMY2 s =
     (case s of
        d1 # d2 # s1 # m1 # m2 # s2 # y1 # y2 # rest \<Rightarrow>
          if isDigit d1 \<and> isDigit d2 \<and> isDateSep s1 \<and> isDigit m1 \<and> isDigit m2 \<and> isDateSep s2
             \<and> isDigit y1 \<and> isDigit y2
          then Some ([CHR ''2'', CHR ''0'', y1, y2, CHR ''-'', m1, m2, CHR ''-'', d1, d2], rest)
          else None
      | _ \<Rightarrow> None)"

text \<open>\<^verbatim>\<open>s.replace(re, ...)\<close> without the global flag: the leftmost match is replaced.\<close>

fun replaceFirst :: "(string \<Rightarrow> (string \<times> string) option) \<Rightarrow> string \<Rightarrow> string" where
  "replaceFirst m [] = (case m [] of Some (r, rest) \<Rightarrow> r @ rest | None \<Rightarrow> [])"
| "replaceFirst m (c # cs) =
     (case m (c # cs) of Some (r, rest) \<Rightarrow> r @ rest | None \<Rightarrow> c # replaceFirst m cs)"

definition dateFormats :: "string \<Rightarrow> string list" where
  "dateFormats s =
     [replaceSeps (CHR ''-'') s, replaceSeps (CHR ''/'') s,
      replaceFirst matchDMY4 s, replaceFirst matchDMY2 s]"

text \<open>The loop of lines 244-250: the first rewrite that parses to a year in 2011..2024.\<close>

fun firstPlausible :: "jsenv \<Rightarrow> string list \<Rightarrow> int option" where
  "firstPlausible env [] = None"
| "firstPlausible env (f # fs) =
     (case dateParse env f of
        Some t \<Rightarrow>
          if getFullYear env t > 2010 \<and> getFullYear env t \<le> 2024 then Some t
          else firstPlausible env fs
      | None \<Rightarrow> firstPlausible env fs)"

text \<open>Lines 230-251: a text in the combined field. \<open>now\<close> is the value that
  \<^verbatim>\<open>timestamp\<close> was initialised with and keeps when nothing parses.\<close>

definition textTimestamp :: "jsenv \<Rightarrow> int \<Rightarrow> string \<Rightarrow> int" where
  "textTimestamp env now s =
     (let retry = (case firstPlausible env (dateFormats s) of Some t \<Rightarrow> t | None \<Rightarrow> now)
      in case dateParse env s of
           Some p \<Rightarrow> if getFullYear env p > 2010 then p else retry
         | None \<Rightarrow> retry)"

text \<open>\<^verbatim>\<open>(n - 25569) * 86400 * 1000\<close>: a difference and two products, each rounded.\<close>

definition serialMillis :: "rat \<Rightarrow> jsnum" where
  "serialMillis n = jsMul (jsMul (jsSub (Fin n) (Fin 25569)) (Fin 86400)) (Fin 1000)"

text \<open>\<^verbatim>\<open>new Date((n - 25569) * 86400 * 1000)\<close>.\<close>

definition serialDate :: "rat \<Rightarrow> int option" where
  "serialDate n = newDate (serialMillis n)"

text \<open>Lines 252-260: a number in the combined field. The time value of a valid Date
  and the five hours are integers below \<open>2^53\<close>, so their difference is exact.\<close>

definition serialTimestamp :: "rat \<Rightarrow> int option" where
  "serialTimestamp n =
     (case serialDate n of
        None \<Rightarrow> None
      | Some utcDate \<Rightarrow> timeClip (of_int (utcDate - 5 * 60 * 60 * 1000)))"

text \<open>Three draws for a random time of day (lines 276-278 and 288-290). The products
  of a draw are rounded; they are far from overflow.\<close>

definition drawTimeOfDay :: "world \<Rightarrow> (int \<times> int \<times> int) \<times> world" where
  "drawTimeOfDay w =
     (let (r1, w1) = mathRandom w; (r2, w2) = mathRandom w1; (r3, w3) = mathRandom w2
      in ((\<lfloor>roundFinite (r1 * 24)\<rfloor>, \<lfloor>roundFinite (r2 * 60)\<rfloor>,
           \<lfloor>roundFinite (r3 * 60)\<rfloor>), w3))"

text \<open>\<^verbatim>\<open>new Date(dateField)\<close> for a cell that is not a number (line 273).\<close>

definition dateOfCell :: "jsenv \<Rightarrow> cell \<Rightarrow> int option" where
  "dateOfCell env c =
     (case c of CStr s \<Rightarrow> dateParse env s | CNum n \<Rightarrow> timeClip n
      | CBool b \<Rightarrow> Some (if b then 1 else 0))"

text \<open>Lines 229-283: the candidate timestamp, which may be an invalid Date, or the
  RangeError of \<^verbatim>\<open>toISOString\<close> on an invalid Date (line 264). \<^verbatim>\<open>setHours\<close> leaves
  an invalid Date invalid and may push a valid one out of range.\<close>

definition candidateTimestamp ::
    "jsenv \<Rightarrow> int \<Rightarrow> world \<Rightarrow> row \<Rightarrow> error + (int option \<times> world)" where
  "candidateTimestamp env now w r =
     (let dateTimeField = getCell r ''Date And Time'';
          dateField = getCell r ''Date'';
          timeField = getCell r ''Time''
      in
      if truthy dateTimeField then
        (case the dateTimeField of
           CStr s \<Rightarrow> Inr (Some (textTimestamp env now s), w)
         | CNum n \<Rightarrow> Inr (serialTimestamp n, w)
         | CBool b \<Rightarrow> Inr (Some now, w))
      else if truthy dateField \<and> truthy timeField then
        (let timeStr = toStr env (the timeField) in
         case the dateField of
           CNum n \<Rightarrow>
             (case serialDate n of
                None \<Rightarrow> Inl RangeError
              | Some d \<Rightarrow>
                  Inr (dateParse env
                         (hd (splitOn (CHR ''T'') (toISOString env d)) @ '' '' @ timeStr), w))
         | c \<Rightarrow>
             Inr (dateParse env (hd (splitOn (CHR ''T'') (toStr env c)) @ '' '' @ timeStr), w))
      else if truthy dateField then
        (let base = (case the dateField of CNum n \<Rightarrow> serialDate n | c \<Rightarrow> dateOfCell env c);
             ((h, m, s), w') = drawTimeOfDay w
         in Inr (Option.bind base (\<lambda>t. timeClip (of_int (setHours env t h m s))), w'))
      else
        (let (now2, w1) = readClock w; (x, w2) = mathRandom w1
         in Inr (timeClip (of_int (now2 - \<lfloor>roundFinite (roundFinite (x * 86400000) * 30)\<rfloor>)),
                 w2)))"

text \<open>Lines 224-292: the timestamp of the record. An invalid candidate is replaced by
  the current date with a random time of day, which is a valid Date for a reading of
  the clock.\<close>

definition resolveTimestamp :: "jsenv \<Rightarrow> world \<Rightarrow> row \<Rightarrow> error + (int \<times> world)" where
  "resolveTimestamp env w0 r =
     (let (now, w1) = readClock w0 in
      case candidateTimestamp env now w1 r of
        Inl e \<Rightarrow> Inl e
      | Inr (Some t, w2) \<Rightarrow> Inr (t, w2)
      | Inr (None, w2) \<Rightarrow>
          (let (now2, w3) = readClock w2; ((h, m, s), w4) = drawTimeOfDay w3
           in Inr (setHours env now2 h m s, w4)))"

subsection \<open>Location (lines 295-322)\<close>

text \<open>A parsed coordinate, \<open>None\<close> for \<^verbatim>\<open>null\<close> (lines 305-308).\<close>

definition coordinate :: "string \<Rightarrow> jsnum option" where
  "coordinate s = (if isNaN (parseFloat s) then None else Some (parseFloat s))"

definition extractLocation :: "jsenv \<Rightarrow> row \<Rightarrow> string \<times> jsnum option \<times> jsnum option" where
  "extractLocation env r =
     (let siteLocation = orElse (getCell r ''SiteLocation'') [];
          parts = splitOn (CHR ''|'') (toStr env siteLocation);
          (loc, latitude, longitude) =
            (if truthy (Some siteLocation) then
               (if length parts \<ge> 3
                then (trim (parts ! 0), coordinate (parts ! 1), coordinate (parts ! 2))
                else (trim (toStr env siteLocation), None, None))
             else ([], None, None))
      in
      if latitude = None \<or> longitude = None then
        (let lat = parseFloat (toStr env (orElse (getCell r ''Latitude'') ''0''));
             lng = parseFloat (toStr env (orElse (getCell r ''Longitude'') ''0''))
         in if \<not> isNaN lat \<and> \<not> isNaN lng then (loc, Some lat, Some lng)
            else (loc, latitude, longitude))
      else (loc, latitude, longitude))"

subsection \<open>One row (lines 215-386)\<close>

definition rowCallType :: "jsenv \<Rightarrow> row \<Rightarrow> string" where
  "rowCallType env r = classifyCallType (toStr env (orElse (getCell r ''Call Type'') ''call''))"

text \<open>\<^verbatim>\<open>String(row[k] || '').trim()\<close>, as for the caller, the called number and the
  IMEI.\<close>

definition trimmedField :: "jsenv \<Rightarrow> row \<Rightarrow> string \<Rightarrow> string" where
  "trimmedField env r k = trim (toStr env (orElse (getCell r k) []))"

definition cdrOfRow :: "jsenv \<Rightarrow> string \<Rightarrow> world \<Rightarrow> row \<Rightarrow> error + (cdr \<times> world)" where
  "cdrOfRow env uid w r =
     (case resolveTimestamp env w r of
        Inl e \<Rightarrow> Inl e
      | Inr (t, w') \<Rightarrow>
          (let (loc, lat, lng) = extractLocation env r in
           Inr (\<lparr> callerNumber = trimmedField env r ''A-Party'',
                  calledNumber = Some (trimmedField env r ''B-Party''),
                  imei = Some (trimmedField env r ''IMEI''),
                  callType = rowCallType env r,
                  duration = parseInt10 (toStr env (orElse (getCell r ''Duration'') ''0'')),
                  timestamp = t,
                  location = Some loc,
                  latitude = lat,
                  longitude = lng,
                  uploadId = uid \<rparr>, w')))"

text \<open>\<^verbatim>\<open>data.map(...)\<close>: the rows in order; an exception in one row ends the call.\<close>

fun mapRows :: "jsenv \<Rightarrow> string \<Rightarrow> world \<Rightarrow> row list \<Rightarrow> error + (cdr list \<times> world)" where
  "mapRows env uid w [] = Inr ([], w)"
| "mapRows env uid w (r # rs) =
     (case cdrOfRow env uid w r of
        Inl e \<Rightarrow> Inl e
      | Inr (x, w') \<Rightarrow>
          (case mapRows env uid w' rs of
             Inl e \<Rightarrow> Inl e
           | Inr (xs, w'') \<Rightarrow> Inr (x # xs, w'')))"

subsection \<open>The whole sheet (lines 193-213 and 387)\<close>

text \<open>The function from the rows that \<^verbatim>\<open>sheet_to_json\<close> returns; reading the workbook
  is outside the model. The result is the record list, or the exception that ends the
  call.\<close>

definition parseExcelToCDR :: "jsenv \<Rightarrow> world \<Rightarrow> row list \<Rightarrow> string \<Rightarrow> error + cdr list" where
  "parseExcelToCDR env w data0 uid =
     (let data = (if length data0 > 0 then normalizeColumnNames env data0 else data0) in
      case mapRows env uid w data of
        Inl e \<Rightarrow> Inl e
      | Inr (records, w') \<Rightarrow> Inr (filter (\<lambda>record. callerNumber record \<noteq> []) records))"

section \<open>Analyzers (routes.ts lines 390-1148)\<close>

subsection \<open>Shared JavaScript idioms\<close>

text \<open>Truthiness of a nullable text, and \<^verbatim>\<open>record.duration || 0\<close>.\<close>

definition strTruthy :: "string option \<Rightarrow> bool" where
  "strTruthy s = (case s of Some t \<Rightarrow> t \<noteq> [] | None \<Rightarrow> False)"

definition durationOr0 :: "cdr \<Rightarrow> int" where
  "durationOr0 record = (case duration record of Some d \<Rightarrow> d | None \<Rightarrow> 0)"

text \<open>\<^verbatim>\<open>record.calledNumber || record.callerNumber\<close>\<close>

definition calledOrCaller :: "cdr \<Rightarrow> string" where
  "calledOrCaller record =
     (if strTruthy (calledNumber record) then the (calledNumber record) else callerNumber record)"

text \<open>A \<^verbatim>\<open>Map\<close> with text keys is the list of its entries in insertion order.
  \<open>ensureKey\<close> is \<^verbatim>\<open>if (!m.has(k)) m.set(k, init)\<close>; \<open>modifyAt\<close> is a change made through
  the object that \<^verbatim>\<open>m.get(k)\<close> returns.\<close>

definition ensureKey :: "string \<Rightarrow> 'v \<Rightarrow> (string \<times> 'v) list \<Rightarrow> (string \<times> 'v) list" where
  "ensureKey k init m = (if map_of m k = None then m @ [(k, init)] else m)"

fun modifyAt :: "string \<Rightarrow> ('v \<Rightarrow> 'v) \<Rightarrow> (string \<times> 'v) list \<Rightarrow> (string \<times> 'v) list" where
  "modifyAt k f [] = []"
| "modifyAt k f ((k', v) # rest) =
     (if k = k' then (k', f v) # rest else (k', v) # modifyAt k f rest)"

text \<open>A \<^verbatim>\<open>Set\<close> of texts in insertion order: \<^verbatim>\<open>s.add(x)\<close>.\<close>

definition setAdd :: "string \<Rightarrow> string list \<Rightarrow> string list" where
  "setAdd x s = (if x \<in> set s then s else s @ [x])"

text \<open>\<^verbatim>\<open>xs.sort(cmp)\<close>: the sort is stable. Each element goes in front of the first
  later element that the comparator does not put before it.\<close>

fun insertBy :: "('a \<Rightarrow> 'a \<Rightarrow> int) \<Rightarrow> 'a \<Rightarrow> 'a list \<Rightarrow> 'a list" where
  "insertBy cmp x [] = [x]"
| "insertBy cmp x (y # ys) = (if cmp x y \<le> 0 then x # y # ys else y # insertBy cmp x ys)"

definition sortBy :: "('a \<Rightarrow> 'a \<Rightarrow> int) \<Rightarrow> 'a list \<Rightarrow> 'a list" where
  "sortBy cmp xs = foldr (insertBy cmp) xs []"

text \<open>The remainder operator \<^verbatim>\<open>%\<close> on integers takes the sign of the dividend.\<close>

definition jsRem :: "int \<Rightarrow> int \<Rightarrow> int" where
  "jsRem a b = (if a \<ge> 0 then a mod \<bar>b\<bar> else - ((- a) mod \<bar>b\<bar>))"

subsection \<open>formatDuration (lines 1093-1100)\<close>

definition formatDuration :: "int \<Rightarrow> string" where
  "formatDuration seconds =
     (let hours = seconds div 3600;
          minutes = jsRem seconds 3600 div 60
      in if hours > 0 then showInt hours @ ''h '' @ showInt minutes @ ''m''
         else showInt minutes @ ''m'')"

subsection \<open>Rankings (lines 390-560)\<close>

record scored =
  number :: string
  "value" :: int
  displayValue :: string

record topNumbersResult = scored +
  rank :: int

text \<open>\<^verbatim>\<open>.map((item, index) => ({ ...item, rank: index + 1 }))\<close>\<close>

definition withRank :: "scored list \<Rightarrow> topNumbersResult list" where
  "withRank items =
     map (\<lambda>(index, item). scored.extend item \<lparr> rank = int index + 1 \<rparr>) (enumerate 0 items)"

text \<open>\<^verbatim>\<open>(a, b) => b.value - a.value\<close>\<close>

definition byValueDesc :: "scored \<Rightarrow> scored \<Rightarrow> int" where
  "byValueDesc a b = scored.value b - scored.value a"

record callStats =
  calls :: int
  duration :: int

record smsStats =
  sms :: int

definition analyzeOutgoingCalls :: "cdr list \<Rightarrow> topNumbersResult list" where
  "analyzeOutgoingCalls records =
     (let numberStats =
            fold (\<lambda>record numberStats.
                    if callType record \<noteq> ''call_outgoing'' \<or> \<not> strTruthy (calledNumber record)
                    then numberStats
                    else
                      (let bPartyNumber = the (calledNumber record) in
                       modifyAt bPartyNumber
                         (\<lambda>stats. stats\<lparr> callStats.calls := callStats.calls stats + 1,
                                          callStats.duration :=
                                            callStats.duration stats + durationOr0 record \<rparr>)
                         (ensureKey bPartyNumber \<lparr> callStats.calls = 0, callStats.duration = 0 \<rparr>
                            numberStats)))
                 records [];
          sortedNumbers =
            map (\<lambda>(num, stats).
                   \<lparr> number = num, value = callStats.calls stats,
                     displayValue = showInt (callStats.calls stats) \<rparr>) numberStats
      in withRank (sortBy byValueDesc sortedNumbers))"

definition analyzeIncomingCalls :: "cdr list \<Rightarrow> topNumbersResult list" where
  "analyzeIncomingCalls records =
     (let numberStats =
            fold (\<lambda>record numberStats.
                    if callType record \<noteq> ''call_incoming'' \<or> \<not> strTruthy (calledNumber record)
                    then numberStats
                    else
                      (let bPartyNumber = the (calledNumber record) in
                       modifyAt bPartyNumber
                         (\<lambda>stats. stats\<lparr> callStats.calls := callStats.calls stats + 1,
                                          callStats.duration :=
                                            callStats.duration stats + durationOr0 record \<rparr>)
                         (ensureKey bPartyNumber \<lparr> callStats.calls = 0, callStats.duration = 0 \<rparr>
                            numberStats)))
                 records [];
          sortedNumbers =
            map (\<lambda>(num, stats).
                   \<lparr> number = num, value = callStats.calls stats,
                     displayValue = showInt (callStats.calls stats) \<rparr>) numberStats
      in withRank (sortBy byValueDesc sortedNumbers))"

definition analyzeOutgoingSMS :: "cdr list \<Rightarrow> topNumbersResult list" where
  "analyzeOutgoingSMS records =
     (let numberStats =
            fold (\<lambda>record numberStats.
                    if callType record \<noteq> ''sms_sent'' \<or> \<not> strTruthy (calledNumber record)
                    then numberStats
                    else
                      (let bPartyNumber = the (calledNumber record) in
                       modifyAt bPartyNumber (\<lambda>stats. stats\<lparr> sms := sms stats + 1 \<rparr>)
                         (ensureKey bPartyNumber \<lparr> sms = 0 \<rparr> numberStats)))
                 records [];
          sortedNumbers =
            map (\<lambda>(num, stats).
                   \<lparr> number = num, value = sms stats, displayValue = showInt (sms stats) \<rparr>)
                numberStats
      in withRank (sortBy byValueDesc sortedNumbers))"

definition analyzeIncomingSMS :: "cdr list \<Rightarrow> topNumbersResult list" where
  "analyzeIncomingSMS records =
     (let numberStats =
            fold (\<lambda>record numberStats.
                    if callType record \<noteq> ''sms_received'' \<or> \<not> strTruthy (calledNumber record)
                    then numberStats
                    else
                      (let bPartyNumber = the (calledNumber record) in
                       modifyAt bPartyNumber (\<lambda>stats. stats\<lparr> sms := sms stats + 1 \<rparr>)
                         (ensureKey bPartyNumber \<lparr> sms = 0 \<rparr> numberStats)))
                 records [];
          sortedNumbers =
            map (\<lambda>(num, stats).
                   \<lparr> number = num, value = sms stats, displayValue = showInt (sms stats) \<rparr>)
                numberStats
      in withRank (sortBy byValueDesc sortedNumbers))"

datatype rankingType = Calls | Duration | SmsSent | SmsReceived

record topStats =
  calls :: int
  duration :: int
  smsSent :: int
  smsReceived :: int

text \<open>Lines 520-527: one record counted in the tallies of a number. An SMS that the
  record says was sent counts as received by the number, and the other way round.\<close>

definition countTop :: "cdr \<Rightarrow> topStats \<Rightarrow> topStats" where
  "countTop record = (\<lambda>stats.
      if callType record = ''call_incoming'' \<or> callType record = ''call_outgoing'' then
        stats\<lparr> topStats.calls := topStats.calls stats + 1,
               topStats.duration := topStats.duration stats + durationOr0 record \<rparr>
      else if callType record = ''sms_sent'' then
        stats\<lparr> smsReceived := smsReceived stats + 1 \<rparr>
      else if callType record = ''sms_received'' then
        stats\<lparr> smsSent := smsSent stats + 1 \<rparr>
      else stats)"

definition zeroTop :: topStats where
  "zeroTop = \<lparr> topStats.calls = 0, topStats.duration = 0, smsSent = 0, smsReceived = 0 \<rparr>"

text \<open>Lines 509-528: one record added to the tallies of its target number.\<close>

definition tallyTop :: "cdr \<Rightarrow> (string \<times> topStats) list \<Rightarrow> (string \<times> topStats) list" where
  "tallyTop record numberStats =
     (let targetNumber = calledOrCaller record in
      if targetNumber = [] then numberStats
      else modifyAt targetNumber (countTop record) (ensureKey targetNumber zeroTop numberStats))"

text \<open>Lines 530-554: the value and its text for the requested ranking.\<close>

definition scoreTop :: "rankingType \<Rightarrow> string \<times> topStats \<Rightarrow> scored" where
  "scoreTop type entry =
     (case entry of (num, stats) \<Rightarrow>
        (case type of
           Calls \<Rightarrow> \<lparr> number = num, value = topStats.calls stats,
                       displayValue = showInt (topStats.calls stats) \<rparr>
         | Duration \<Rightarrow> \<lparr> number = num, value = topStats.duration stats,
                          displayValue = formatDuration (topStats.duration stats) \<rparr>
         | SmsSent \<Rightarrow> \<lparr> number = num, value = smsSent stats,
                         displayValue = showInt (smsSent stats) \<rparr>
         | SmsReceived \<Rightarrow> \<lparr> number = num, value = smsReceived stats,
                             displayValue = showInt (smsReceived stats) \<rparr>))"

definition analyzeTopNumbers :: "cdr list \<Rightarrow> rankingType \<Rightarrow> topNumbersResult list" where
  "analyzeTopNumbers records type =
     (let numberStats = fold tallyTop records [];
          sortedNumbers = map (scoreTop type) numberStats
      in withRank (take 200 (sortBy byValueDesc sortedNumbers)))"

subsection \<open>analyzeMovementPatterns (lines 959-1022)\<close>

record movement =
  location :: string
  timestamp :: int
  calls :: int
  duration :: int

record locationChange =
  fromLocation :: string
  toLocation :: string
  timestamp :: string
  callsAfter :: int
  durationAfter :: int

datatype mobility = Low | Medium | High

record locationMovementResult =
  number :: string
  changes :: "locationChange list"
  totalChanges :: int
  mobilityLevel :: mobility

text \<open>\<^verbatim>\<open>(a, b) => a.timestamp.getTime() - b.timestamp.getTime()\<close>\<close>

definition byMovementTime :: "movement \<Rightarrow> movement \<Rightarrow> int" where
  "byMovementTime a b = movement.timestamp a - movement.timestamp b"

text \<open>Lines 963-978: the movements of every target number, in the order of the records.\<close>

definition groupMovements :: "cdr list \<Rightarrow> (string \<times> movement list) list" where
  "groupMovements records =
     fold (\<lambda>record numberMovements.
             let targetNumber = calledOrCaller record in
             if targetNumber = [] then numberMovements
             else
               modifyAt targetNumber
                 (\<lambda>ms. ms @ [\<lparr> movement.location = the (cdr.location record),
                                  movement.timestamp = cdr.timestamp record,
                                  movement.calls = 1,
                                  movement.duration = durationOr0 record \<rparr>])
                 (ensureKey targetNumber [] numberMovements))
          (filter (\<lambda>record. strTruthy (cdr.location record) \<and> callType record = ''call'') records)
          []"

text \<open>Lines 990-1006: one step of the walk along the sorted movements. The state is the
  changes so far, the previous location and the two counters.\<close>

definition walkMovement ::
    "jsenv \<Rightarrow> movement \<Rightarrow> locationChange list \<times> string \<times> int \<times> int
       \<Rightarrow> locationChange list \<times> string \<times> int \<times> int" where
  "walkMovement env m st =
     (case st of (chs, previousLocation, callsAfterMove, durationAfterMove) \<Rightarrow>
        if previousLocation \<noteq> [] \<and> previousLocation \<noteq> movement.location m then
          (chs @ [\<lparr> fromLocation = previousLocation,
                     toLocation = movement.location m,
                     locationChange.timestamp = toISOString env (movement.timestamp m),
                     callsAfter = callsAfterMove,
                     durationAfter = durationAfterMove \<rparr>],
           movement.location m, 0 + movement.calls m, 0 + movement.duration m)
        else
          (chs, movement.location m, callsAfterMove + movement.calls m,
           durationAfterMove + movement.duration m))"

definition changesOf :: "jsenv \<Rightarrow> movement list \<Rightarrow> locationChange list" where
  "changesOf env movements =
     fst (fold (walkMovement env) (sortBy byMovementTime movements) ([], [], 0, 0))"

text \<open>Lines 1008-1016: the entry of a number, when it has a change.\<close>

definition movementResult :: "jsenv \<Rightarrow> string \<times> movement list \<Rightarrow> locationMovementResult list" where
  "movementResult env entry =
     (case entry of (num, movements) \<Rightarrow>
        (let chs = changesOf env movements in
         if length chs > 0 then
           [\<lparr> locationMovementResult.number = num,
              changes = chs,
              totalChanges = int (length chs),
              mobilityLevel = (if length chs > 15 then High
                               else if length chs > 8 then Medium else Low) \<rparr>]
         else []))"

definition analyzeMovementPatterns :: "jsenv \<Rightarrow> cdr list \<Rightarrow> locationMovementResult list" where
  "analyzeMovementPatterns env records =
     (let movementResults = concat (map (movementResult env) (groupMovements records))
      in take 50 (sortBy (\<lambda>a b. totalChanges b - totalChanges a) movementResults))"

subsection \<open>analyzeIMEIChanges (lines 1024-1091)\<close>

record imeiUse =
  imei :: string
  timestamp :: int
  calls :: int
  duration :: int
  smsSent :: int
  smsReceived :: int

record smsAfter =
  sent :: int
  received :: int

record imeiChange =
  timestamp :: string
  oldIMEI :: string
  newIMEI :: string
  callsAfter :: int
  durationAfter :: int
  smsAfter :: smsAfter

record imeiChangeResult =
  number :: string
  changes :: "imeiChange list"
  totalChanges :: int

text \<open>Lines 1038-1046: a further record under an IMEI that the number has used before.\<close>

definition countUse :: "cdr \<Rightarrow> imeiUse \<Rightarrow> imeiUse" where
  "countUse record existing =
     (if callType record = ''call'' then
        existing\<lparr> imeiUse.calls := imeiUse.calls existing + 1,
                  imeiUse.duration := imeiUse.duration existing + durationOr0 record \<rparr>
      else if callType record = ''sms_sent'' then
        existing\<lparr> imeiUse.smsSent := imeiUse.smsSent existing + 1 \<rparr>
      else if callType record = ''sms_received'' then
        existing\<lparr> imeiUse.smsReceived := imeiUse.smsReceived existing + 1 \<rparr>
      else existing)"

text \<open>Lines 1048-1055: the first record under an IMEI.\<close>

definition firstUse :: "cdr \<Rightarrow> imeiUse" where
  "firstUse record =
     \<lparr> imeiUse.imei = the (cdr.imei record),
       imeiUse.timestamp = cdr.timestamp record,
       imeiUse.calls = (if callType record = ''call'' then 1 else 0),
       imeiUse.duration = (if callType record = ''call'' then durationOr0 record else 0),
       imeiUse.smsSent = (if callType record = ''sms_sent'' then 1 else 0),
       imeiUse.smsReceived = (if callType record = ''sms_received'' then 1 else 0) \<rparr>"

text \<open>The change through the object that \<^verbatim>\<open>find\<close> returns: the first use with that IMEI.\<close>

fun updateFirst :: "('a \<Rightarrow> bool) \<Rightarrow> ('a \<Rightarrow> 'a) \<Rightarrow> 'a list \<Rightarrow> 'a list" where
  "updateFirst P f [] = []"
| "updateFirst P f (x # xs) = (if P x then f x # xs else x # updateFirst P f xs)"

definition groupIMEIs :: "cdr list \<Rightarrow> (string \<times> imeiUse list) list" where
  "groupIMEIs records =
     fold (\<lambda>record numberIMEIs.
             if \<not> strTruthy (cdr.imei record) then numberIMEIs
             else
               (let targetNumber = calledOrCaller record in
                if targetNumber = [] then numberIMEIs
                else
                  modifyAt targetNumber
                    (\<lambda>uses.
                       if list_ex (\<lambda>item. imeiUse.imei item = the (cdr.imei record)) uses
                       then updateFirst (\<lambda>item. imeiUse.imei item = the (cdr.imei record))
                              (countUse record) uses
                       else uses @ [firstUse record])
                    (ensureKey targetNumber [] numberIMEIs)))
          records []"

definition byUseTime :: "imeiUse \<Rightarrow> imeiUse \<Rightarrow> int" where
  "byUseTime a b = imeiUse.timestamp a - imeiUse.timestamp b"

text \<open>Lines 1067-1079: one change for every pair of neighbours.\<close>

definition imeiChangesOf :: "jsenv \<Rightarrow> imeiUse list \<Rightarrow> imeiChange list" where
  "imeiChangesOf env sortedIMEIs =
     map (\<lambda>(previous, current).
            \<lparr> imeiChange.timestamp = toISOString env (imeiUse.timestamp current),
              oldIMEI = imeiUse.imei previous,
              newIMEI = imeiUse.imei current,
              imeiChange.callsAfter = imeiUse.calls current,
              imeiChange.durationAfter = imeiUse.duration current,
              smsAfter = \<lparr> sent = imeiUse.smsSent current,
                           received = imeiUse.smsReceived current \<rparr> \<rparr>)
         (zip sortedIMEIs (tl sortedIMEIs))"

definition imeiResult :: "jsenv \<Rightarrow> string \<times> imeiUse list \<Rightarrow> imeiChangeResult list" where
  "imeiResult env entry =
     (case entry of (num, imeiData) \<Rightarrow>
        if length imeiData \<le> 1 then []
        else
          (let chs = imeiChangesOf env (sortBy byUseTime imeiData) in
           [\<lparr> imeiChangeResult.number = num,
              imeiChangeResult.changes = chs,
              imeiChangeResult.totalChanges = int (length chs) \<rparr>]))"

definition analyzeIMEIChanges :: "jsenv \<Rightarrow> cdr list \<Rightarrow> imeiChangeResult list" where
  "analyzeIMEIChanges env records =
     (let imeiChangeResults = concat (map (imeiResult env) (groupIMEIs records))
      in take 50 (sortBy (\<lambda>a b. imeiChangeResult.totalChanges b - imeiChangeResult.totalChanges a)
                    imeiChangeResults))"

subsection \<open>generateDailyBreakdown and generateFileStats (lines 1102-1148)\<close>

record dayCounts =
  incomingCalls :: int
  outgoingCalls :: int
  incomingSms :: int
  outgoingSms :: int

record dailyStats = dayCounts +
  date :: string

text \<open>\<^verbatim>\<open>timestamp.toISOString().split('T')[0]\<close>\<close>

definition isoDate :: "jsenv \<Rightarrow> int \<Rightarrow> string" where
  "isoDate env t = hd (splitOn (CHR ''T'') (toISOString env t))"

definition countDay :: "cdr \<Rightarrow> dayCounts \<Rightarrow> dayCounts" where
  "countDay record stats =
     (if callType record = ''call_incoming'' then
        stats\<lparr> incomingCalls := incomingCalls stats + 1 \<rparr>
      else if callType record = ''call_outgoing'' then
        stats\<lparr> outgoingCalls := outgoingCalls stats + 1 \<rparr>
      else if callType record = ''sms_received'' then
        stats\<lparr> incomingSms := incomingSms stats + 1 \<rparr>
      else if callType record = ''sms_sent'' then
        stats\<lparr> outgoingSms := outgoingSms stats + 1 \<rparr>
      else stats)"

definition generateDailyBreakdown :: "jsenv \<Rightarrow> cdr list \<Rightarrow> dailyStats list" where
  "generateDailyBreakdown env records =
     (let dailyStats =
            fold (\<lambda>record dailyStats.
                    let d = isoDate env (cdr.timestamp record) in
                    modifyAt d (countDay record)
                      (ensureKey d \<lparr> incomingCalls = 0, outgoingCalls = 0, incomingSms = 0,
                                     outgoingSms = 0 \<rparr> dailyStats))
                 records []
      in sortBy (\<lambda>a b. localeCompare env (date a) (date b))
           (map (\<lambda>(d, stats). dayCounts.extend stats \<lparr> date = d \<rparr>) dailyStats))"

record fileStats =
  totalRecords :: int
  uniqueNumbers :: int
  dateRange :: string
  processingTime :: string
  dailyBreakdown :: "dailyStats list"

definition generateFileStats :: "jsenv \<Rightarrow> cdr list \<Rightarrow> int \<Rightarrow> fileStats" where
  "generateFileStats env records processingTimeMs =
     (let uniqueNumbers = int (length (remdups (map callerNumber records)));
          timestamps = map cdr.timestamp records;
          dateRange =
            (if length timestamps > 0
             then \<lceil>roundFinite (roundFinite (of_int (Max (set timestamps) - Min (set timestamps)))
                                  / (1000 * 60 * 60 * 24))\<rceil>
             else 0)
      in \<lparr> totalRecords = int (length records),
           uniqueNumbers = uniqueNumbers,
           dateRange = showInt dateRange @ '' Days'',
           processingTime = toFixed1 env processingTimeMs @ ''s'',
           dailyBreakdown = generateDailyBreakdown env records \<rparr>)"

subsection \<open>getTimeBasedActivity (lines 562-583)\<close>

record timeActivity =
  peakHour :: string
  peakDay :: string
  hourlyDistribution :: "int list"
  activityScore :: int

text \<open>\<^verbatim>\<open>xs.indexOf(v)\<close>\<close>

definition indexOf :: "int list \<Rightarrow> int \<Rightarrow> int" where
  "indexOf xs v = (if v \<in> set xs then int (length (takeWhile (\<lambda>x. x \<noteq> v) xs)) else - 1)"

text \<open>\<^verbatim>\<open>a[i]++\<close> on an array of counters; the runtime gives hours below 24 and days
  below 7, so the index is within the array.\<close>

definition bumpAt :: "nat \<Rightarrow> int list \<Rightarrow> int list" where
  "bumpAt i xs = xs[i := xs ! i + 1]"

definition dayNames :: "string list" where
  "dayNames = [''Sun'', ''Mon'', ''Tue'', ''Wed'', ''Thu'', ''Fri'', ''Sat'']"

definition getTimeBasedActivity :: "jsenv \<Rightarrow> int list \<Rightarrow> timeActivity" where
  "getTimeBasedActivity env timestamps =
     (let hourlyActivity = fold (\<lambda>t a. bumpAt (getHours env t) a) timestamps (replicate 24 0);
          dailyActivity = fold (\<lambda>t a. bumpAt (getDay env t) a) timestamps (replicate 7 0);
          peakHourIx = indexOf hourlyActivity (Max (set hourlyActivity));
          peakDayIx = indexOf dailyActivity (Max (set dailyActivity))
      in \<lparr> peakHour = showInt peakHourIx @ '':00'',
           peakDay = dayNames ! nat peakDayIx,
           hourlyDistribution = hourlyActivity,
           activityScore = Max (set hourlyActivity) + Max (set dailyActivity) \<rparr>)"

subsection \<open>analyzeLocationPatterns (lines 883-957)\<close>

record coords =
  lat :: jsnum
  lng :: jsnum

text \<open>Truthiness of a nullable number.\<close>

fun numTruthy :: "jsnum option \<Rightarrow> bool" where
  "numTruthy None = False"
| "numTruthy (Some (Fin r)) = (r \<noteq> 0)"
| "numTruthy (Some NaN) = False"
| "numTruthy (Some PosInf) = True"
| "numTruthy (Some NegInf) = True"

text \<open>\<^verbatim>\<open>record.latitude && record.longitude ? { lat, lng } : null\<close>\<close>

definition coordsOf :: "cdr \<Rightarrow> coords option" where
  "coordsOf record =
     (if numTruthy (latitude record) \<and> numTruthy (longitude record)
      then Some \<lparr> lat = the (latitude record), lng = the (longitude record) \<rparr>
      else None)"

record callTypes =
  voice :: int
  sms :: int

record locationStats =
  calls :: int
  duration :: int
  numbers :: "string list"
  timestamps :: "int list"
  coordinates :: "coords option"
  callTypes :: callTypes

record timeRange =
  rangeStart :: string
  rangeEnd :: string

record peakActivity =
  hour :: string
  day :: string
  score :: int

record communicationMix =
  voice :: int
  sms :: int
  voicePercent :: int
  smsPercent :: int

record locationAnalysisResult =
  location :: string
  coordinates :: coords
  calls :: int
  duration :: int
  numbers :: "string list"
  timeRange :: timeRange
  primaryNumber :: string
  peakActivity :: peakActivity
  communicationMix :: communicationMix
  avgDuration :: int
  uniqueContacts :: "int option"

text \<open>Lines 909-920: one record added to the statistics of its location.\<close>

definition countAtLocation :: "cdr \<Rightarrow> locationStats \<Rightarrow> locationStats" where
  "countAtLocation record stats =
     stats\<lparr> locationStats.calls := locationStats.calls stats + 1,
            locationStats.duration := locationStats.duration stats + durationOr0 record,
            locationStats.numbers := setAdd (calledOrCaller record) (locationStats.numbers stats),
            locationStats.timestamps := locationStats.timestamps stats @ [cdr.timestamp record],
            locationStats.callTypes :=
              (if includesStr (callType record) ''call'' then
                 (locationStats.callTypes stats)
                   \<lparr> callTypes.voice := callTypes.voice (locationStats.callTypes stats) + 1 \<rparr>
               else if includesStr (callType record) ''sms'' then
                 (locationStats.callTypes stats)
                   \<lparr> callTypes.sms := callTypes.sms (locationStats.callTypes stats) + 1 \<rparr>
               else locationStats.callTypes stats) \<rparr>"

text \<open>Lines 925-954: the result for one location. \<^verbatim>\<open>stats.numbers.length\<close> of a Set is
  \<^verbatim>\<open>undefined\<close>.\<close>

definition locationResult :: "jsenv \<Rightarrow> string \<times> locationStats \<Rightarrow> locationAnalysisResult" where
  "locationResult env entry =
     (case entry of (loc, stats) \<Rightarrow>
        (let timeActivity = getTimeBasedActivity env (locationStats.timestamps stats);
             v = callTypes.voice (locationStats.callTypes stats);
             s = callTypes.sms (locationStats.callTypes stats)
         in \<lparr> locationAnalysisResult.location = loc,
              locationAnalysisResult.coordinates =
                (case locationStats.coordinates stats of
                   Some c \<Rightarrow> c | None \<Rightarrow> \<lparr> lat = Fin 0, lng = Fin 0 \<rparr>),
              locationAnalysisResult.calls = locationStats.calls stats,
              locationAnalysisResult.duration = locationStats.duration stats,
              locationAnalysisResult.numbers = locationStats.numbers stats,
              timeRange =
                \<lparr> rangeStart = toISOString env (Min (set (locationStats.timestamps stats))),
                  rangeEnd = toISOString env (Max (set (locationStats.timestamps stats))) \<rparr>,
              primaryNumber =
                (case locationStats.numbers stats of [] \<Rightarrow> [] | n # _ \<Rightarrow> n),
              peakActivity =
                \<lparr> hour = peakHour timeActivity, day = peakDay timeActivity,
                  score = activityScore timeActivity \<rparr>,
              communicationMix =
                \<lparr> communicationMix.voice = v, communicationMix.sms = s,
                  voicePercent = roundPercent env v (locationStats.calls stats),
                  smsPercent = roundPercent env s (locationStats.calls stats) \<rparr>,
              avgDuration = roundQuotient env (locationStats.duration stats) (max v 1),
              uniqueContacts = None \<rparr>))"

definition analyzeLocationPatterns :: "jsenv \<Rightarrow> cdr list \<Rightarrow> locationAnalysisResult list" where
  "analyzeLocationPatterns env records =
     (let locationStats =
            fold (\<lambda>record locationStats.
                    modifyAt (the (cdr.location record)) (countAtLocation record)
                      (ensureKey (the (cdr.location record))
                         \<lparr> locationStats.calls = 0, locationStats.duration = 0,
                           locationStats.numbers = [], locationStats.timestamps = [],
                           locationStats.coordinates = coordsOf record,
                           locationStats.callTypes = \<lparr> callTypes.voice = 0, callTypes.sms = 0 \<rparr> \<rparr>
                         locationStats))
                 (filter (\<lambda>record. strTruthy (cdr.location record)
                            \<and> (includesStr (callType record) ''call''
                                \<or> includesStr (callType record) ''sms'')) records)
                 []
      in take 30
           (sortBy (\<lambda>a b. locationAnalysisResult.calls b - locationAnalysisResult.calls a)
              (map (locationResult env)
                 (filter (\<lambda>(loc, stats). locationStats.calls stats \<ge> 3) locationStats))))"

subsection \<open>analyzeDetailedLocationTimeline (lines 585-772)\<close>

record timelineEntry =
  timestamp :: int
  location :: string
  coordinates :: "coords option"
  callType :: string
  calledNumber :: string
  duration :: int

record detailedRecord =
  timestamp :: string
  callType :: string
  number :: string
  duration :: int

text \<open>The counters and collections of lines 670-683.\<close>

record activityStats =
  incomingCalls :: int
  outgoingCalls :: int
  incomingSms :: int
  outgoingSms :: int
  totalDuration :: int
  contactCounts :: "(string \<times> int) list"
  callNumbers :: "string list"
  smsNumbers :: "string list"
  incomingCallNumbers :: "string list"
  outgoingCallNumbers :: "string list"
  incomingSmsNumbers :: "string list"
  outgoingSmsNumbers :: "string list"

record activityInNewLocation =
  incomingCalls :: int
  outgoingCalls :: int
  incomingSms :: int
  outgoingSms :: int
  totalDuration :: int
  topContactedNumber :: string
  topContactCount :: int
  stayDuration :: string
  uniqueContacts :: int
  incomingCallNumbers :: "string list"
  outgoingCallNumbers :: "string list"
  incomingSmsNumbers :: "string list"
  outgoingSmsNumbers :: "string list"
  totalCallNumbers :: int
  totalSmsNumbers :: int
  detailedRecords :: "detailedRecord list"

record locationChangeResult =
  subscriber :: string
  changeTime :: string
  fromLocation :: string
  toLocation :: string
  coordinates :: "coords option"
  activityInNewLocation :: activityInNewLocation

text \<open>Lines 596-613: the timeline of every subscriber, in the order of the records.\<close>

definition groupTimelines :: "cdr list \<Rightarrow> (string \<times> timelineEntry list) list" where
  "groupTimelines records =
     fold (\<lambda>record subscriberTimelines.
             modifyAt (callerNumber record)
               (\<lambda>timeline. timeline @
                  [\<lparr> timelineEntry.timestamp = cdr.timestamp record,
                     timelineEntry.location = the (cdr.location record),
                     timelineEntry.coordinates = coordsOf record,
                     timelineEntry.callType = cdr.callType record,
                     timelineEntry.calledNumber =
                       (if strTruthy (cdr.calledNumber record) then the (cdr.calledNumber record)
                        else []),
                     timelineEntry.duration = durationOr0 record \<rparr>])
               (ensureKey (callerNumber record) [] subscriberTimelines))
          (filter (\<lambda>record. strTruthy (cdr.location record) \<and> callerNumber record \<noteq> []) records)
          []"

text \<open>Lines 685-717: one activity added to the statistics of the stay.\<close>

definition countActivity :: "timelineEntry \<Rightarrow> activityStats \<Rightarrow> activityStats" where
  "countActivity activity stats0 =
     (let targetNumber =
            (if timelineEntry.calledNumber activity \<noteq> [] then timelineEntry.calledNumber activity
             else ''Unknown'');
          s1 = (if timelineEntry.callType activity = ''call_incoming'' then
                  stats0\<lparr> activityStats.incomingCalls := activityStats.incomingCalls stats0 + 1,
                          activityStats.incomingCallNumbers :=
                            setAdd targetNumber (activityStats.incomingCallNumbers stats0) \<rparr>
                else stats0);
          s2 = (if timelineEntry.callType activity = ''call_outgoing'' then
                  s1\<lparr> activityStats.outgoingCalls := activityStats.outgoingCalls s1 + 1,
                      activityStats.outgoingCallNumbers :=
                        setAdd targetNumber (activityStats.outgoingCallNumbers s1) \<rparr>
                else s1);
          s3 = (if timelineEntry.callType activity = ''sms_received'' then
                  s2\<lparr> activityStats.incomingSms := activityStats.incomingSms s2 + 1,
                      activityStats.incomingSmsNumbers :=
                        setAdd targetNumber (activityStats.incomingSmsNumbers s2) \<rparr>
                else s2);
          s4 = (if timelineEntry.callType activity = ''sms_sent'' then
                  s3\<lparr> activityStats.outgoingSms := activityStats.outgoingSms s3 + 1,
                      activityStats.outgoingSmsNumbers :=
                        setAdd targetNumber (activityStats.outgoingSmsNumbers s3) \<rparr>
                else s3);
          s5 = s4\<lparr> activityStats.totalDuration :=
                      activityStats.totalDuration s4 + timelineEntry.duration activity \<rparr>
      in if targetNumber \<noteq> ''Unknown'' then
           (let count = (case map_of (contactCounts s5) targetNumber of Some c \<Rightarrow> c | None \<Rightarrow> 0);
                s6 = s5\<lparr> contactCounts := setProp targetNumber (count + 1) (contactCounts s5) \<rparr>
            in if includesStr (timelineEntry.callType activity) ''call''
               then s6\<lparr> callNumbers := setAdd targetNumber (callNumbers s6) \<rparr>
               else s6\<lparr> smsNumbers := setAdd targetNumber (smsNumbers s6) \<rparr>)
         else s5)"

definition emptyActivityStats :: activityStats where
  "emptyActivityStats =
     \<lparr> activityStats.incomingCalls = 0, activityStats.outgoingCalls = 0,
       activityStats.incomingSms = 0, activityStats.outgoingSms = 0,
       activityStats.totalDuration = 0, contactCounts = [], callNumbers = [], smsNumbers = [],
       activityStats.incomingCallNumbers = [], activityStats.outgoingCallNumbers = [],
       activityStats.incomingSmsNumbers = [], activityStats.outgoingSmsNumbers = [] \<rparr>"

text \<open>Lines 720-727: the first contact with the highest count.\<close>

definition topContact :: "(string \<times> int) list \<Rightarrow> string \<times> int" where
  "topContact counts =
     fold (\<lambda>(num, count) (topNumber, topCount).
             if count > topCount then (num, count) else (topNumber, topCount))
          counts ([], 0)"

text \<open>Lines 730-733.\<close>

definition stayText :: "int \<Rightarrow> string" where
  "stayText stayDurationMs =
     (let stayHours = stayDurationMs div (1000 * 60 * 60);
          stayMinutes = jsRem stayDurationMs (1000 * 60 * 60) div (1000 * 60)
      in if stayHours > 0 then showInt stayHours @ ''h '' @ showInt stayMinutes @ ''m''
         else showInt stayMinutes @ ''m'')"

text \<open>Lines 646-761: the change found at index \<open>i\<close> of a sorted timeline.\<close>

definition changeAt ::
    "jsenv \<Rightarrow> string \<Rightarrow> timelineEntry list \<Rightarrow> nat \<Rightarrow> string \<Rightarrow> locationChangeResult" where
  "changeAt env sub timeline i currentLocation =
     (let record = timeline ! i;
          newLocationStart = timelineEntry.timestamp record;
          nextLocationIndex =
            find (\<lambda>idx. timelineEntry.location (timeline ! idx) \<noteq> timelineEntry.location record)
                 [i + 1 ..< length timeline];
          newLocationEnd =
            (case nextLocationIndex of
               Some j \<Rightarrow> timelineEntry.timestamp (timeline ! j)
             | None \<Rightarrow> timelineEntry.timestamp (timeline ! (length timeline - 1)));
          newLocationActivity =
            map (\<lambda>idx. timeline ! idx)
              (filter (\<lambda>idx. timelineEntry.location (timeline ! idx) = timelineEntry.location record
                          \<and> timelineEntry.timestamp (timeline ! idx) \<le> newLocationEnd)
                 [i ..< length timeline]);
          detailed =
            map (\<lambda>activity.
                   \<lparr> detailedRecord.timestamp = toISOString env (timelineEntry.timestamp activity),
                     detailedRecord.callType = timelineEntry.callType activity,
                     detailedRecord.number = timelineEntry.calledNumber activity,
                     detailedRecord.duration = timelineEntry.duration activity \<rparr>)
                newLocationActivity;
          stats = fold countActivity newLocationActivity emptyActivityStats;
          (topNumber, topCount) = topContact (contactCounts stats)
      in \<lparr> subscriber = sub,
           changeTime = toISOString env (timelineEntry.timestamp record),
           locationChangeResult.fromLocation =
             (if currentLocation \<noteq> [] then currentLocation else ''Unknown''),
           locationChangeResult.toLocation = timelineEntry.location record,
           locationChangeResult.coordinates = timelineEntry.coordinates record,
           activityInNewLocation =
             \<lparr> activityInNewLocation.incomingCalls = activityStats.incomingCalls stats,
               activityInNewLocation.outgoingCalls = activityStats.outgoingCalls stats,
               activityInNewLocation.incomingSms = activityStats.incomingSms stats,
               activityInNewLocation.outgoingSms = activityStats.outgoingSms stats,
               activityInNewLocation.totalDuration = activityStats.totalDuration stats,
               topContactedNumber = topNumber,
               topContactCount = topCount,
               stayDuration = stayText (newLocationEnd - newLocationStart),
               activityInNewLocation.uniqueContacts = int (length (contactCounts stats)),
               activityInNewLocation.incomingCallNumbers =
                 take 5 (activityStats.incomingCallNumbers stats),
               activityInNewLocation.outgoingCallNumbers =
                 take 5 (activityStats.outgoingCallNumbers stats),
               activityInNewLocation.incomingSmsNumbers =
                 take 5 (activityStats.incomingSmsNumbers stats),
               activityInNewLocation.outgoingSmsNumbers =
                 take 5 (activityStats.outgoingSmsNumbers stats),
               totalCallNumbers = int (length (callNumbers stats)),
               totalSmsNumbers = int (length (smsNumbers stats)),
               detailedRecords = detailed \<rparr> \<rparr>)"

text \<open>Lines 635-767: the changes of one subscriber. An empty timeline has none.\<close>

definition timelineChanges ::
    "jsenv \<Rightarrow> string \<times> timelineEntry list \<Rightarrow> locationChangeResult list" where
  "timelineChanges env entry =
     (case entry of (sub, unsorted) \<Rightarrow>
        (let timeline =
               sortBy (\<lambda>a b. timelineEntry.timestamp a - timelineEntry.timestamp b) unsorted
         in case timeline of
              [] \<Rightarrow> []
            | first # _ \<Rightarrow>
                fst (fold (\<lambda>i (chs, currentLocation).
                             if timelineEntry.location (timeline ! i) \<noteq> currentLocation
                             then (chs @ [changeAt env sub timeline i currentLocation],
                                   timelineEntry.location (timeline ! i))
                             else (chs, currentLocation))
                          [1 ..< length timeline]
                          ([], timelineEntry.location first))))"

text \<open>The difference of two time values, 0 when one of them is NaN (a comparator that
  returns NaN counts as returning 0).\<close>

definition timeDiff :: "int option \<Rightarrow> int option \<Rightarrow> int" where
  "timeDiff x y = (case (x, y) of (Some a, Some b) \<Rightarrow> a - b | _ \<Rightarrow> 0)"

definition analyzeDetailedLocationTimeline :: "jsenv \<Rightarrow> cdr list \<Rightarrow> locationChangeResult list" where
  "analyzeDetailedLocationTimeline env records =
     (let locationChanges = concat (map (timelineChanges env) (groupTimelines records))
      in take 20
           (sortBy (\<lambda>a b. timeDiff (dateParse env (changeTime b)) (dateParse env (changeTime a)))
              locationChanges))"

subsection \<open>analyzeSpecificNumber (lines 774-881)\<close>

record dayData =
  date :: string
  calls :: int
  sms :: int
  duration :: int
  records :: "cdr list"

record recordView =
  timestamp :: string
  callType :: string
  duration :: int
  callerNumber :: string
  calledNumber :: "string option"
  location :: "string option"

record dayBreakdown =
  date :: string
  calls :: int
  sms :: int
  duration :: int
  total :: int
  records :: "recordView list"

record activeDay =
  date :: string
  calls :: int
  sms :: int
  duration :: int
  total :: int

record numberProfile =
  number :: string
  totalDays :: int
  totalCalls :: int
  totalSms :: int
  totalDuration :: int
  avgPerDay :: rat
  mostActiveDay :: "activeDay option"
  leastActiveDay :: "activeDay option"
  dailyBreakdown :: "dayBreakdown list"

text \<open>Lines 806-814: one record added to its day.\<close>

definition countInDay :: "cdr \<Rightarrow> dayData \<Rightarrow> dayData" where
  "countInDay record dayData0 =
     (let d1 = dayData0\<lparr> dayData.records := dayData.records dayData0 @ [record] \<rparr> in
      if includesStr (cdr.callType record) ''call'' then
        d1\<lparr> dayData.calls := dayData.calls d1 + 1,
            dayData.duration := dayData.duration d1 + durationOr0 record \<rparr>
      else if includesStr (cdr.callType record) ''sms'' then
        d1\<lparr> dayData.sms := dayData.sms d1 + 1 \<rparr>
      else d1)"

text \<open>Lines 818-834: the breakdown entry of a day, its records in time order.\<close>

definition breakdownOf :: "jsenv \<Rightarrow> dayData \<Rightarrow> dayBreakdown" where
  "breakdownOf env d =
     \<lparr> dayBreakdown.date = dayData.date d,
       dayBreakdown.calls = dayData.calls d,
       dayBreakdown.sms = dayData.sms d,
       dayBreakdown.duration = dayData.duration d,
       dayBreakdown.total = dayData.calls d + dayData.sms d,
       dayBreakdown.records =
         map (\<lambda>record.
                \<lparr> recordView.timestamp = toISOString env (cdr.timestamp record),
                  recordView.callType = cdr.callType record,
                  recordView.duration = durationOr0 record,
                  recordView.callerNumber = cdr.callerNumber record,
                  recordView.calledNumber = cdr.calledNumber record,
                  recordView.location = cdr.location record \<rparr>)
             (sortBy (\<lambda>a b. cdr.timestamp a - cdr.timestamp b) (dayData.records d)) \<rparr>"

text \<open>Lines 857-878: the day as the profile shows it.\<close>

definition shownDay :: "jsenv \<Rightarrow> dayBreakdown \<Rightarrow> activeDay" where
  "shownDay env d =
     \<lparr> activeDay.date =
         (case dateParse env (dayBreakdown.date d) of
            Some t \<Rightarrow> toLocaleDateString env t | None \<Rightarrow> ''Invalid Date''),
       activeDay.calls = dayBreakdown.calls d,
       activeDay.sms = dayBreakdown.sms d,
       activeDay.duration = dayBreakdown.duration d,
       activeDay.total = dayBreakdown.total d \<rparr>"

text \<open>\<^verbatim>\<open>xs.reduce(f)\<close> without an initial value, on a list that is not empty.\<close>

definition reduce1 :: "('a \<Rightarrow> 'a \<Rightarrow> 'a) \<Rightarrow> 'a list \<Rightarrow> 'a" where
  "reduce1 f xs = fold (\<lambda>x acc. f acc x) (tl xs) (hd xs)"

definition analyzeSpecificNumber :: "jsenv \<Rightarrow> cdr list \<Rightarrow> string \<Rightarrow> numberProfile option" where
  "analyzeSpecificNumber env records0 targetNumber =
     (let numberRecords =
            filter (\<lambda>record. cdr.callerNumber record = targetNumber
                       \<or> cdr.calledNumber record = Some targetNumber) records0
      in if length numberRecords = 0 then None
         else
           (let dailyData =
                  fold (\<lambda>record dailyData.
                          let dateStr = isoDate env (cdr.timestamp record) in
                          modifyAt dateStr (countInDay record)
                            (ensureKey dateStr
                               \<lparr> dayData.date = dateStr, dayData.calls = 0, dayData.sms = 0,
                                 dayData.duration = 0, dayData.records = [] \<rparr> dailyData))
                       numberRecords [];
                breakdown =
                  sortBy (\<lambda>a b. timeDiff (dateParse env (dayBreakdown.date b))
                                         (dateParse env (dayBreakdown.date a)))
                    (map (\<lambda>(k, d). breakdownOf env d) dailyData);
                totalCalls = fold (\<lambda>d sum. sum + dayBreakdown.calls d) breakdown 0;
                totalSms = fold (\<lambda>d sum. sum + dayBreakdown.sms d) breakdown 0;
                totalDuration = fold (\<lambda>d sum. sum + dayBreakdown.duration d) breakdown 0;
                activeDays = filter (\<lambda>d. dayBreakdown.total d > 0) breakdown;
                activeDaysWithData = filter (\<lambda>d. dayBreakdown.total d > 0) activeDays;
                mostActive =
                  (if length activeDaysWithData > 0
                   then Some (reduce1 (\<lambda>mx d. if dayBreakdown.total d > dayBreakdown.total mx
                                               then d else mx) activeDaysWithData)
                   else None);
                leastActive =
                  (if length activeDaysWithData > 0
                   then Some (reduce1 (\<lambda>mn d. if dayBreakdown.total d < dayBreakdown.total mn
                                               then d else mn) activeDaysWithData)
                   else None)
            in Some \<lparr> numberProfile.number = targetNumber,
                      totalDays = int (length activeDays),
                      totalCalls = totalCalls,
                      totalSms = totalSms,
                      numberProfile.totalDuration = totalDuration,
                      avgPerDay =
                        (if length activeDays > 0
                         then of_int (totalCalls + totalSms) / of_int (int (length activeDays))
                         else 0),
                      mostActiveDay = map_option (shownDay env) mostActive,
                      leastActiveDay = map_option (shownDay env) leastActive,
                      numberProfile.dailyBreakdown = take 90 breakdown \<rparr>))"

section \<open>Conditions used in the statements\<close>

text \<open>A serial date whose instant, as the code computes it, is a valid Date before and
  after the shift of five hours (finite and at most 8.64e15 ms from the epoch).\<close>

definition inDateRange :: "rat \<Rightarrow> bool" where
  "inDateRange n =
     (case serialMillis n of
        Fin v \<Rightarrow> \<bar>v\<bar> \<le> 8640000000000000
                 \<and> \<bar>truncRat v - 5 * 60 * 60 * 1000\<bar> \<le> 8640000000000000
      | _ \<Rightarrow> False)"

text \<open>What SiteLocation gives: the text of the field (empty for a falsy field), its
  parts between the bars, and the coordinate that is read from a part when the field
  is truthy and has at least three parts (\<open>None\<close> stands for \<^verbatim>\<open>null\<close>). What the
  standard fields give: the number read from the field, with "0" for a falsy field.\<close>

definition siteText :: "jsenv \<Rightarrow> row \<Rightarrow> string" where
  "siteText env r = toStr env (orElse (getCell r ''SiteLocation'') [])"

definition siteParts :: "jsenv \<Rightarrow> row \<Rightarrow> string list" where
  "siteParts env r = splitOn (CHR ''|'') (siteText env r)"

definition siteCoordinate :: "jsenv \<Rightarrow> row \<Rightarrow> nat \<Rightarrow> jsnum option" where
  "siteCoordinate env r i =
     (if truthy (getCell r ''SiteLocation'') \<and> 3 \<le> length (siteParts env r)
      then coordinate (siteParts env r ! i) else None)"

definition fieldCoordinate :: "jsenv \<Rightarrow> row \<Rightarrow> string \<Rightarrow> jsnum" where
  "fieldCoordinate env r k = parseFloat (toStr env (orElse (getCell r k) ''0''))"

text \<open>The location, latitude and longitude of a record.\<close>

definition placeOf :: "cdr \<Rightarrow> string option \<times> jsnum option \<times> jsnum option" where
  "placeOf x = (cdr.location x, cdr.latitude x, cdr.longitude x)"

text \<open>A row without one of its columns.\<close>

definition withoutColumn :: "string \<Rightarrow> row \<Rightarrow> row" where
  "withoutColumn k r = filter (\<lambda>p. fst p \<noteq> k) r"

text \<open>The one row shape on which the parser raises: no usable combined field, a Date
  and a Time, and the Date a number whose instant is not a valid Date, so that
  \<^verbatim>\<open>toISOString\<close> throws (line 264).\<close>

definition dateOverflow :: "row \<Rightarrow> bool" where
  "dateOverflow r =
     (\<not> truthy (getCell r ''Date And Time'') \<and> truthy (getCell r ''Date'')
      \<and> truthy (getCell r ''Time'')
      \<and> (case getCell r ''Date'' of Some (CNum n) \<Rightarrow> serialDate n = None | _ \<Rightarrow> False))"

text \<open>The position at which a key is first met in a sequence of keys.\<close>

definition firstIndex :: "string list \<Rightarrow> string \<Rightarrow> nat" where
  "firstIndex ks k = length (takeWhile (\<lambda>x. x \<noteq> k) ks)"

text \<open>The keys that a per-type ranking meets, in the order of the records: the called
  numbers of the records of that type that have one. For the combined view: the target
  numbers that are not empty.\<close>

definition calledKeys :: "string \<Rightarrow> cdr list \<Rightarrow> string list" where
  "calledKeys ty rs =
     map (\<lambda>r. the (cdr.calledNumber r))
       (filter (\<lambda>r. cdr.callType r = ty \<and> strTruthy (cdr.calledNumber r)) rs)"

definition targetKeys :: "cdr list \<Rightarrow> string list" where
  "targetKeys rs = filter (\<lambda>k. k \<noteq> []) (map calledOrCaller rs)"

text \<open>A ranking in order: values do not increase, equal values stand in the order in
  which their numbers were first met, and the rank is the position counted from 1.\<close>

definition rankedBy :: "string list \<Rightarrow> topNumbersResult list \<Rightarrow> bool" where
  "rankedBy ks res =
     ((\<forall>i j. i < j \<and> j < length res \<longrightarrow>
          scored.value (res ! i) \<ge> scored.value (res ! j)
          \<and> (scored.value (res ! i) = scored.value (res ! j) \<longrightarrow>
               firstIndex ks (scored.number (res ! i)) < firstIndex ks (scored.number (res ! j))))
      \<and> (\<forall>i < length res. rank (res ! i) = int i + 1))"

text \<open>One item stands before another in such a ranking.\<close>

definition ahead :: "string list \<Rightarrow> scored \<Rightarrow> scored \<Rightarrow> bool" where
  "ahead ks a b =
     (scored.value a \<ge> scored.value b
      \<and> (scored.value a = scored.value b \<longrightarrow>
           firstIndex ks (scored.number a) < firstIndex ks (scored.number b)))"

section \<open>A runtime instance for concrete inputs\<close>

text \<open>What the members of \<^verbatim>\<open>Object.prototype\<close> turn into as property keys under
  Node.js.\<close>

definition nodeProtoMember :: "string \<Rightarrow> string option" where
  "nodeProtoMember k =
     (if k = ''__proto__'' then Some ''[object Object]''
      else if k = ''constructor'' then Some ''function Object() { [native code] }''
      else if k \<in> set [''__defineGetter__'', ''__defineSetter__'', ''hasOwnProperty'',
                        ''__lookupGetter__'', ''__lookupSetter__'', ''isPrototypeOf'',
                        ''propertyIsEnumerable'', ''toString'', ''valueOf'', ''toLocaleString'']
        then Some (''function '' @ k @ ''() { [native code] }'')
      else None)"

text \<open>The instance used to run the model on concrete rows and records. Its
  \<open>numToString\<close> is right for whole numbers and \<open>protoMember\<close> is the table above. The
  date, locale and rounding components are simplistic (no text parses as a date, the
  zone is UTC midnight throughout, arithmetic is exact); no example below depends on
  them.\<close>

definition sampleRuntime :: jsenv where
  "sampleRuntime =
     \<lparr> numToString = (\<lambda>n. showInt \<lfloor>n\<rfloor>),
       dateParse = (\<lambda>s. None),
       getFullYear = (\<lambda>t. 1970),
       getHours = (\<lambda>t. 0),
       getDay = (\<lambda>t. 0),
       setHours = (\<lambda>t h m s. ((h * 60 + m) * 60 + s) * 1000),
       toISOString = (\<lambda>t. showInt t),
       toLocaleDateString = (\<lambda>t. showInt t),
       localeCompare = (\<lambda>a b. 0),
       protoMember = nodeProtoMember,
       roundPercent = (\<lambda>a b. \<lfloor>of_int a / of_int b * (100::rat) + 1 / 2\<rfloor>),
       roundQuotient = (\<lambda>a b. \<lfloor>of_int a / (of_int b :: rat) + 1 / 2\<rfloor>),
       toFixed1 = (\<lambda>a. showInt (a div 1000) @ ''.'' @ showInt (a mod 1000 div 100)) \<rparr>"

text \<open>A clock that stands at \<open>c\<close> and a random source that always draws \<open>x\<close>.\<close>

definition constWorld :: "int \<Rightarrow> rat \<Rightarrow> world" where
  "constWorld c x = \<lparr> clockReadings = (\<lambda>k. c), randomDraws = (\<lambda>k. x) \<rparr>"

text \<open>Sheets for the examples: a header of the exact-name table that first shows up in the
  second row; sites with and without coordinates; a blank caller; the number 0 as
  caller.\<close>

definition lateColumnSheet :: "row list" where
  "lateColumnSheet =
     [[(''Aparty'', CStr ''1''), (''Remark'', CStr ''x'')],
      [(''Aparty'', CStr ''2''), (''Msisdn'', CStr ''3'')]]"

definition towerSheet :: "row list" where
  "towerSheet =
     [[(''A-Party'', CStr ''1''), (''SiteLocation'', CStr ''Tower A|24.86|67.01'')],
      [(''A-Party'', CStr ''2''), (''SiteLocation'', CStr ''Tower B'')],
      [(''A-Party'', CStr ''3''), (''SiteLocation'', CStr ''A|abc|67.01'')],
      [(''A-Party'', CStr ''4''), (''SiteLocation'', CStr ''A|abc|67.01''),
       (''Latitude'', CStr ''x'')]]"

definition towerBSheet :: "row list" where
  "towerBSheet = [[(''A-Party'', CStr ''2''), (''SiteLocation'', CStr ''Tower B'')]]"

definition blankCallerSheet :: "row list" where
  "blankCallerSheet =
     [[(''A-Party'', CStr ''   ''), (''B-Party'', CStr ''5'')], [(''A-Party'', CStr '' 123 '')]]"

definition zeroCallerSheet :: "row list" where
  "zeroCallerSheet = [[(''A-Party'', CNum 0)]]"

text \<open>Records for the examples. \<open>sampleRecord\<close> is a record as the parser builds it, with
  the caller, the called number, the call type, the site and the time given.\<close>

definition sampleRecord :: "string \<Rightarrow> string \<Rightarrow> string \<Rightarrow> string \<Rightarrow> int \<Rightarrow> cdr" where
  "sampleRecord caller called ty site t =
     \<lparr> cdr.callerNumber = caller, cdr.calledNumber = Some called, cdr.imei = Some [],
       cdr.callType = ty, cdr.duration = Some 60, cdr.timestamp = t,
       cdr.location = Some site, cdr.latitude = Some (Fin 0), cdr.longitude = Some (Fin 0),
       cdr.uploadId = ''u'' \<rparr>"

text \<open>Four outgoing calls: to X, to Y twice, to Z.\<close>

definition sampleCalls :: "cdr list" where
  "sampleCalls =
     [sampleRecord ''S'' ''X'' ''call_outgoing'' ''A'' 1,
      sampleRecord ''S'' ''Y'' ''call_outgoing'' ''A'' 2,
      sampleRecord ''S'' ''Y'' ''call_outgoing'' ''A'' 3,
      sampleRecord ''S'' ''Z'' ''call_outgoing'' ''A'' 4]"

text \<open>An SMS sent to X, and an SMS received with no called number.\<close>

definition sampleSms :: "cdr list" where
  "sampleSms =
     [sampleRecord ''S'' ''X'' ''sms_sent'' ''A'' 1,
      sampleRecord ''S'' [] ''sms_received'' ''A'' 2]"

text \<open>Seventeen records of the number 0300 at sites that alternate between A and B, so
  with sixteen changes of location, under a given call type.\<close>

definition commuterRecords :: "string \<Rightarrow> cdr list" where
  "commuterRecords ty =
     map (\<lambda>(i, site). sampleRecord ''S'' ''0300'' ty site (int i))
       (enumerate 0 [''A'', ''B'', ''A'', ''B'', ''A'', ''B'', ''A'', ''B'', ''A'', ''B'', ''A'', ''B'',
                     ''A'', ''B'', ''A'', ''B'', ''A''])"

section \<open>Properties\<close>

subsection \<open>Call-type classification\<close>

lemma classify_six:
  "classifyCallType ''SMS Outgoing'' = ''sms_sent''"
  "classifyCallType ''Incoming SMS'' = ''sms_received''"
  "classifyCallType ''MT'' = ''call_incoming''"
  "classifyCallType ''MO'' = ''call_outgoing''"
  "classifyCallType ''Voice'' = ''call_outgoing''"
  "classifyCallType ''XYZ'' = ''call_outgoing''"
  by code_simp+

lemma rowCallType_text:
  "s \<noteq> [] \<Longrightarrow> rowCallType env ((''Call Type'', CStr s) # r) = classifyCallType s"
  by (simp add: rowCallType_def getCell_def orElse_def toStr_def)

lemma of_char_lowerChar:
  "of_char (lowerChar c) = (let n = (of_char c :: nat) in
      if (65 \<le> n \<and> n \<le> 90) \<or> (192 \<le> n \<and> n \<le> 222 \<and> n \<noteq> 215) then n + 32 else n)"
  by (auto simp: lowerChar_def Let_def)

lemma lowerChar_idem: "lowerChar (lowerChar c) = lowerChar c"
proof -
  have "(of_char (lowerChar (lowerChar c)) :: nat) = of_char (lowerChar c)"
    by (simp add: of_char_lowerChar Let_def)
  then show ?thesis by (metis char_of_char)
qed

lemma isWhiteSpace_lowerChar: "isWhiteSpace (lowerChar c) = isWhiteSpace c"
  by (auto simp: isWhiteSpace_def of_char_lowerChar Let_def)

lemma toLowerCase_idem: "toLowerCase (toLowerCase s) = toLowerCase s"
  by (simp add: toLowerCase_def lowerChar_idem)

lemma dropWhile_map_lower:
  "dropWhile isWhiteSpace (map lowerChar s) = map lowerChar (dropWhile isWhiteSpace s)"
  by (induction s) (auto simp: isWhiteSpace_lowerChar)

lemma toLowerCase_trim: "toLowerCase (trim s) = trim (toLowerCase s)"
  by (simp add: toLowerCase_def trim_def rev_map dropWhile_map_lower)

lemma dropWhile_snoc_keep:
  "\<not> P x \<Longrightarrow> dropWhile P (ys @ [x]) = dropWhile P ys @ [x]"
  by (induction ys) auto

lemma trim_idem: "trim (trim s) = trim s"
proof -
  define a where "a = dropWhile isWhiteSpace s"
  define b where "b = rev (dropWhile isWhiteSpace (rev a))"
  have tb: "trim s = b" by (simp add: trim_def a_def b_def)
  have hfront: "dropWhile isWhiteSpace b = b"
  proof (cases a)
    case Nil
    then show ?thesis by (simp add: b_def)
  next
    case (Cons x xs)
    then have "\<not> isWhiteSpace x"
      using hd_dropWhile[of isWhiteSpace s] by (simp add: a_def)
    then have "b = x # rev (dropWhile isWhiteSpace (rev xs))"
      by (simp add: b_def Cons dropWhile_snoc_keep)
    with \<open>\<not> isWhiteSpace x\<close> show ?thesis by simp
  qed
  have hback: "dropWhile isWhiteSpace (rev b) = rev b"
    by (simp add: b_def dropWhile_idem)
  have "trim b = b"
    by (simp add: trim_def hfront hback)
  then show ?thesis by (simp add: tb)
qed

lemma classify_normal_form: "classifyCallType (trim (toLowerCase s)) = classifyCallType s"
  by (simp add: classifyCallType_def toLowerCase_trim[symmetric] toLowerCase_idem trim_idem)

text \<open>
  Claim C2. For every row, whatever its other cells, a call-type text of
  "SMS Outgoing" is classified \<open>sms_sent\<close>, "Incoming SMS" \<open>sms_received\<close>, "MT"
  \<open>call_incoming\<close>, "MO" \<open>call_outgoing\<close>, bare "Voice" \<open>call_outgoing\<close> and the
  unrecognised "XYZ" \<open>call_outgoing\<close>. The classification only looks at the lowercased,
  trimmed text: a text and its lowercased, trimmed form are classified alike.
\<close>

theorem call_type_classification:
  "map (\<lambda>t. rowCallType env ((''Call Type'', CStr t) # r))
       [''SMS Outgoing'', ''Incoming SMS'', ''MT'', ''MO'', ''Voice'', ''XYZ'']
     = [''sms_sent'', ''sms_received'', ''call_incoming'', ''call_outgoing'',
        ''call_outgoing'', ''call_outgoing'']
   \<and> classifyCallType (trim (toLowerCase s)) = classifyCallType s"
  by (simp add: rowCallType_text classify_six classify_normal_form)

subsection \<open>Numbers\<close>

lemmas parseFloat_eval =
  parseFloat_def decimalLiteral_def takeSign_def isWhiteSpace_def isDigit_def digitsVal_def
  exponentPart_def scale10_def Let_def

lemma bitLength_0: "bitLength 0 = 0"
  by (simp add: bitLength.simps)

lemma bitLength_pos: "0 < n \<Longrightarrow> bitLength n = Suc (bitLength (n div 2))"
  by (subst bitLength.simps) simp

lemma bitLength_upper: "n < 2 ^ bitLength n"
proof (induction n rule: bitLength.induct)
  case (1 n)
  show ?case
  proof (cases "n = 0")
    case True
    then show ?thesis by (simp add: bitLength_0)
  next
    case False
    with 1 have "n div 2 < 2 ^ bitLength (n div 2)" by simp
    then have "n < 2 * 2 ^ bitLength (n div 2)" by linarith
    with False show ?thesis by (simp add: bitLength_pos)
  qed
qed

lemma bitLength_lower: "0 < n \<Longrightarrow> 2 ^ (bitLength n - 1) \<le> n"
proof (induction n rule: bitLength.induct)
  case (1 n)
  show ?case
  proof (cases "n div 2 = 0")
    case True
    with 1(2) have "n = 1" by linarith
    then show ?thesis by (simp add: bitLength_pos bitLength_0)
  next
    case False
    with 1 have "2 ^ (bitLength (n div 2) - 1) \<le> n div 2" by simp
    moreover have "0 < bitLength (n div 2)" using False by (simp add: bitLength_pos)
    ultimately have "2 ^ bitLength (n div 2) \<le> 2 * (n div 2)"
      by (cases "bitLength (n div 2)") simp_all
    then have "2 ^ bitLength (n div 2) \<le> n" by linarith
    with 1(2) show ?thesis by (simp add: bitLength_pos)
  qed
qed

lemma bitLength_le: "n < 2 ^ b \<Longrightarrow> bitLength n \<le> b"
proof (rule ccontr)
  assume a: "n < 2 ^ b" and c: "\<not> bitLength n \<le> b"
  then have p: "0 < n" by (cases "n = 0") (simp_all add: bitLength_0)
  from c have "b \<le> bitLength n - 1" by simp
  then have "(2::nat) ^ b \<le> 2 ^ (bitLength n - 1)" by (rule power_increasing) simp
  with bitLength_lower[OF p] a show False by linarith
qed

lemma pow2_nat: "pow2 (int k) = 2 ^ k"
  by (simp add: pow2_def)

lemma pow2_pos: "0 < pow2 e"
  by (simp add: pow2_def)

lemma pow2_neg_mult: "0 \<le> e \<Longrightarrow> pow2 (- e) * 2 ^ nat e = 1"
  by (simp add: pow2_def)

lemma roundHalfEven_of_int: "roundHalfEven (of_int j) = j"
  by (simp add: roundHalfEven_def)

text \<open>An integer of at most 53 bits is a binary64 value.\<close>

lemma roundFinite_of_int:
  assumes "\<bar>k\<bar> < 2 ^ 53"
  shows "roundFinite (of_int k) = of_int k"
proof (cases "k = 0")
  case True
  then show ?thesis by (simp add: roundFinite_def)
next
  case False
  define b where "b = bitLength (nat \<bar>k\<bar>)"
  have "nat \<bar>k\<bar> < 2 ^ 53" using assms by simp
  then have b53: "b \<le> 53" unfolding b_def by (rule bitLength_le)
  have bpos: "0 < b" using False by (simp add: b_def bitLength_pos)
  have one: "(1::rat) \<le> \<bar>of_int k\<bar>" using False by (simp flip: of_int_abs)
  have fl: "\<lfloor>\<bar>of_int k :: rat\<bar>\<rfloor> = \<bar>k\<bar>" by (simp flip: of_int_abs)
  have e: "binaryExponent \<bar>of_int k\<bar> = int b - 1"
    using one by (simp add: binaryExponent_def fl b_def)
  have m: "max (binaryExponent \<bar>of_int k\<bar>) (- 1022) - 52 = - int (53 - b)"
    using b53 bpos by (simp add: e)
  define u where "u = pow2 (- int (53 - b))"
  have u: "u * 2 ^ (53 - b) = 1" unfolding u_def using pow2_neg_mult[of "int (53 - b)"] by simp
  have upos: "0 < u" unfolding u_def by (rule pow2_pos)
  have "of_int k = of_int k * (u * 2 ^ (53 - b))" by (simp only: u mult_1_right)
  then have q: "of_int k / u = of_int (k * 2 ^ (53 - b))"
    using upos by (simp add: field_simps)
  have "roundFinite (of_int k) = of_int (roundHalfEven (of_int k / u)) * u"
    unfolding roundFinite_def Let_def m u_def using False by simp
  also have "\<dots> = of_int (k * 2 ^ (53 - b)) * u"
    by (simp only: q roundHalfEven_of_int)
  also have "\<dots> = of_int k * (u * 2 ^ (53 - b))" by simp
  also have "\<dots> = of_int k" by (simp only: u mult_1_right)
  finally show ?thesis .
qed

lemma roundDouble_of_int:
  assumes "\<bar>k\<bar> < 2 ^ 53"
  shows "roundDouble (of_int k) = Fin (of_int k)"
proof -
  have "\<bar>of_int k :: rat\<bar> = of_int \<bar>k\<bar>" by simp
  also have "\<dots> < of_int (2 ^ 53)" using assms by (simp only: of_int_less_iff)
  also have "\<dots> < pow2 1024" by (simp add: pow2_def)
  finally have "\<not> pow2 1024 \<le> \<bar>of_int k :: rat\<bar>" by simp
  then show ?thesis by (simp add: roundDouble_def roundFinite_of_int[OF assms])
qed

text \<open>The exponent is the right one, and a rounding moves a number by at most half a
  unit in the last place.\<close>

lemma pow2_add: "pow2 (a + b) = pow2 a * pow2 b"
proof -
  have "pow2 e = 2 powi e" for e
    by (simp add: pow2_def power_int_def field_simps)
  then show ?thesis by (simp add: power_int_add)
qed

lemma pow2_neg_nat: "pow2 (- int m) = 1 / 2 ^ m"
  by (cases m) (simp_all add: pow2_def nat_add_distrib)

lemma binaryExponent_lower:
  assumes "0 < q"
  shows "pow2 (binaryExponent q) \<le> q"
proof (cases "1 \<le> q")
  case True
  define n where "n = nat \<lfloor>q\<rfloor>"
  have n: "0 < n" using True by (simp add: n_def)
  have "(2::nat) ^ (bitLength n - 1) \<le> n" using n by (rule bitLength_lower)
  then have "(of_nat (2 ^ (bitLength n - 1)) :: rat) \<le> of_nat n" by (simp only: of_nat_le_iff)
  also have "(of_nat n :: rat) = of_int \<lfloor>q\<rfloor>" using True by (simp add: n_def)
  also have "\<dots> \<le> q" by simp
  finally have "(2::rat) ^ (bitLength n - 1) \<le> q" by simp
  moreover have "0 < bitLength n" using n by (simp add: bitLength_pos)
  ultimately show ?thesis
    using True by (simp add: binaryExponent_def pow2_def n_def[symmetric] nat_diff_distrib')
next
  case False
  define c where "c = \<lceil>1 / q\<rceil>"
  define k where "k = bitLength (nat (c - 1))"
  have "1 < 1 / q" using False assms by simp
  then have c2: "2 \<le> c" unfolding c_def by linarith
  have "nat (c - 1) < 2 ^ k" unfolding k_def by (rule bitLength_upper)
  then have "c - 1 < 2 ^ k" using c2 by (simp add: nat_less_iff)
  then have "c \<le> 2 ^ k" by simp
  then have "(of_int c :: rat) \<le> of_int (2 ^ k)" by (simp only: of_int_le_iff)
  moreover have "1 / q \<le> of_int c" unfolding c_def by simp
  ultimately have "1 / q \<le> of_int (2 ^ k)" by linarith
  then have "1 / q \<le> 2 ^ k" by simp
  then have "1 / 2 ^ k \<le> q" using assms by (simp add: field_simps)
  then have "pow2 (- int k) \<le> q" by (simp only: pow2_neg_nat)
  moreover have "binaryExponent q = - int k"
    using False by (simp add: binaryExponent_def c_def[symmetric] k_def[symmetric])
  ultimately show ?thesis by (simp only:)
qed

lemma binaryExponent_upper:
  assumes "0 < q"
  shows "q < pow2 (binaryExponent q + 1)"
proof (cases "1 \<le> q")
  case True
  define n where "n = nat \<lfloor>q\<rfloor>"
  have n: "0 < n" using True by (simp add: n_def)
  have "n < 2 ^ bitLength n" by (rule bitLength_upper)
  then have "n + 1 \<le> 2 ^ bitLength n" by simp
  then have "(of_nat (n + 1) :: rat) \<le> of_nat (2 ^ bitLength n)" by (simp only: of_nat_le_iff)
  moreover have "q < of_int \<lfloor>q\<rfloor> + 1" by linarith
  moreover have "(of_nat n :: rat) = of_int \<lfloor>q\<rfloor>" using True by (simp add: n_def)
  ultimately have "q < 2 ^ bitLength n" by simp
  then show ?thesis
    using True by (simp add: binaryExponent_def pow2_def n_def[symmetric])
next
  case False
  define c where "c = \<lceil>1 / q\<rceil>"
  define k where "k = bitLength (nat (c - 1))"
  have "1 < 1 / q" using False assms by simp
  then have c2: "2 \<le> c" unfolding c_def by linarith
  then have p: "0 < nat (c - 1)" by simp
  then have kpos: "0 < k" by (simp add: k_def bitLength_pos)
  have "(2::nat) ^ (k - 1) \<le> nat (c - 1)" unfolding k_def using p by (rule bitLength_lower)
  then have "(2::int) ^ (k - 1) \<le> c - 1" using c2 by (simp add: le_nat_iff)
  then have "(of_int (2 ^ (k - 1)) :: rat) \<le> of_int (c - 1)" by (simp only: of_int_le_iff)
  moreover have "of_int (c - 1) < 1 / q" unfolding c_def by linarith
  ultimately have "of_int (2 ^ (k - 1)) < 1 / q" by linarith
  then have "2 ^ (k - 1) < 1 / q" by simp
  then have "q < 1 / 2 ^ (k - 1)" using assms by (simp add: field_simps)
  then have "q < pow2 (- int (k - 1))" by (simp only: pow2_neg_nat)
  moreover have "binaryExponent q + 1 = - int (k - 1)"
    using False kpos by (simp add: binaryExponent_def c_def[symmetric] k_def[symmetric])
  ultimately show ?thesis by (simp only:)
qed


lemma pow2_mono: "a \<le> b \<Longrightarrow> pow2 a \<le> pow2 b"
proof -
  assume "a \<le> b"
  then obtain k where b: "b = a + int k" by (metis zle_iff_zadd)
  have "(1::rat) \<le> 2 ^ k" by simp
  then have "pow2 a * 1 \<le> pow2 a * pow2 (int k)"
    using pow2_pos[of a] by (simp only: pow2_nat mult_le_cancel_left_pos)
  then show ?thesis by (simp add: b pow2_add)
qed

lemma roundHalfEven_error: "\<bar>of_int (roundHalfEven x) - x\<bar> \<le> 1 / 2"
proof -
  define f where "f = \<lfloor>x\<rfloor>"
  have "of_int f \<le> x" "x < of_int f + 1" unfolding f_def by linarith+
  then show ?thesis
    unfolding roundHalfEven_def Let_def f_def[symmetric] by (auto simp: abs_if)
qed

text \<open>The error of one rounding: half a unit in the last place.\<close>

lemma roundFinite_ulp:
  assumes "q \<noteq> 0"
  shows "\<bar>roundFinite q - q\<bar> \<le> pow2 (max (binaryExponent \<bar>q\<bar>) (- 1022) - 53)"
proof -
  define u where "u = pow2 (max (binaryExponent \<bar>q\<bar>) (- 1022) - 52)"
  have upos: "0 < u" unfolding u_def by (rule pow2_pos)
  have r: "roundFinite q = of_int (roundHalfEven (q / u)) * u"
    using assms by (simp add: roundFinite_def Let_def u_def)
  have "roundFinite q - q = (of_int (roundHalfEven (q / u)) - q / u) * u"
    using upos by (simp add: r field_simps)
  then have "\<bar>roundFinite q - q\<bar> = \<bar>of_int (roundHalfEven (q / u)) - q / u\<bar> * u"
    using upos by (simp add: abs_mult)
  also have "\<dots> \<le> 1 / 2 * u"
    using roundHalfEven_error[of "q / u"] upos by (simp only: mult_le_cancel_right_pos)
  also have "1 / 2 * u = pow2 (max (binaryExponent \<bar>q\<bar>) (- 1022) - 53)"
  proof -
    have "pow2 (max (binaryExponent \<bar>q\<bar>) (- 1022) - 53 + 1) 
        = pow2 (max (binaryExponent \<bar>q\<bar>) (- 1022) - 53) * pow2 1"
      by (rule pow2_add)
    then show ?thesis by (simp add: u_def pow2_def)
  qed
  finally show ?thesis .
qed

lemma roundFinite_error:
  "\<bar>roundFinite q - q\<bar> \<le> \<bar>q\<bar> / 2 ^ 53 + pow2 (- 1075)"
proof (cases "q = 0")
  case True
  then show ?thesis using pow2_pos[of "- 1075"] by (simp add: roundFinite_def)
next
  case False
  then have qpos: "0 < \<bar>q\<bar>" by simp
  define e where "e = binaryExponent \<bar>q\<bar>"
  have lo: "pow2 e \<le> \<bar>q\<bar>" unfolding e_def using qpos by (rule binaryExponent_lower)
  have "pow2 (max e (- 1022) - 53) \<le> \<bar>q\<bar> / 2 ^ 53 + pow2 (- 1075)"
  proof (cases "- 1022 \<le> e")
    case True
    have "pow2 (e + - 53) = pow2 e * pow2 (- 53)" by (rule pow2_add)
    also have "\<dots> = pow2 e / 2 ^ 53" by (simp add: pow2_def)
    also have "\<dots> \<le> \<bar>q\<bar> / 2 ^ 53" using lo by (simp add: divide_right_mono)
    finally show ?thesis using True pow2_pos[of "- 1075"] by (simp add: max_def)
  next
    case False
    then have "max e (- 1022) - 53 = - 1075" by simp
    then show ?thesis using qpos by simp
  qed
  then show ?thesis using roundFinite_ulp[OF False] by (simp only: e_def)
qed

lemma roundDouble_finite:
  "\<bar>roundFinite q\<bar> < 2 ^ 1024 \<Longrightarrow> roundDouble q = Fin (roundFinite q)"
  by (simp add: roundDouble_def pow2_def Let_def)

lemma tiny: "pow2 (- 1075) \<le> 1 / 2 ^ 60"
proof -
  have "pow2 (- 1075) \<le> pow2 (- 60)" by (rule pow2_mono) simp
  moreover have "pow2 (- 60) = 1 / 2 ^ 60" using pow2_neg_nat[of 60] by simp
  ultimately show ?thesis by (simp only:)
qed

text \<open>Evaluation of the rounding on numerals.\<close>

lemma floor_rat_numeral:
  "\<lfloor>(numeral a :: rat) / numeral b\<rfloor> = numeral a div numeral b"
  "\<lfloor>- (numeral a :: rat) / numeral b\<rfloor> = - numeral a div numeral b"
  using floor_divide_of_int_eq[of "numeral a" "numeral b", where ?'a = rat]
    floor_divide_of_int_eq[of "- numeral a" "numeral b", where ?'a = rat]
  by simp_all

lemma ceiling_rat_numeral:
  "\<lceil>(numeral a :: rat) / numeral b\<rceil> = - (- numeral a div numeral b)"
  "\<lceil>- (numeral a :: rat) / numeral b\<rceil> = - (numeral a div numeral b)"
  using floor_rat_numeral[of a b] by (simp_all add: ceiling_def)

lemmas double_eval =
  roundDouble_def roundFinite_def binaryExponent_def roundHalfEven_def pow2_def bitLength.simps
  floor_rat_numeral ceiling_rat_numeral Let_def

lemma roundDouble_not_NaN: "roundDouble q \<noteq> NaN"
  by (simp add: roundDouble_def Let_def)

lemma roundFinite_0: "roundFinite 0 = 0"
  by (simp add: roundFinite_def)

lemma roundDouble_0: "roundDouble 0 = Fin 0"
  by (simp add: roundDouble_def roundFinite_0 pow2_def)

lemma parseFloat_zero: "parseFloat ''0'' = Fin 0"
  by (simp add: parseFloat_eval roundDouble_0)

lemma parseFloat_abc: "parseFloat ''abc'' = NaN"
  by (simp add: parseFloat_eval)

subsection \<open>Excel serial dates\<close>

lemma truncRat_of_int: "truncRat (of_int k) = k"
  by (simp add: truncRat_def)

lemma truncRat_bounds: "- \<bar>u\<bar> \<le> of_int (truncRat u) \<and> of_int (truncRat u) \<le> \<bar>u\<bar>"
proof (cases "0 \<le> u")
  case True
  then have t: "truncRat u = \<lfloor>u\<rfloor>" by (simp add: truncRat_def)
  have "of_int \<lfloor>u\<rfloor> \<le> u" by simp
  moreover have "(0::rat) \<le> of_int \<lfloor>u\<rfloor>" using True by simp
  ultimately show ?thesis unfolding t using True by linarith
next
  case False
  then have t: "truncRat u = \<lceil>u\<rceil>" by (simp add: truncRat_def)
  from False have "\<lceil>u\<rceil> \<le> 0" by (simp add: ceiling_le_iff)
  then have "(of_int \<lceil>u\<rceil> :: rat) \<le> 0" by simp
  moreover have "u \<le> of_int \<lceil>u\<rceil>" by simp
  ultimately show ?thesis unfolding t using False by linarith
qed

lemma timeClip_of_int: "\<bar>k\<bar> \<le> 8640000000000000 \<Longrightarrow> timeClip (of_int k) = Some k"
proof -
  assume a: "\<bar>k\<bar> \<le> 8640000000000000"
  have "\<bar>(of_int k :: rat)\<bar> = of_int \<bar>k\<bar>" by simp
  also have "\<dots> \<le> of_int 8640000000000000" using a by (simp only: of_int_le_iff)
  finally have "\<not> \<bar>(of_int k :: rat)\<bar> > 8640000000000000" by simp
  then show ?thesis by (simp add: timeClip_def truncRat_of_int)
qed

text \<open>For a whole number of days every step of the computation is exact.\<close>

lemma serialMillis_of_int:
  assumes "\<bar>(k - 25569) * 86400000\<bar> \<le> 8640000000000000"
  shows "serialMillis (of_int k) = Fin (of_int ((k - 25569) * 86400000))"
proof -
  have a: "\<bar>k - 25569\<bar> < 2 ^ 53" using assms by (simp add: abs_mult)
  have b: "\<bar>(k - 25569) * 86400\<bar> < 2 ^ 53" using assms by (simp add: abs_mult)
  have c: "\<bar>(k - 25569) * 86400000\<bar> < 2 ^ 53" using assms by simp
  have e1: "(of_int k :: rat) - 25569 = of_int (k - 25569)" by simp
  have e2: "(of_int (k - 25569) :: rat) * 86400 = of_int ((k - 25569) * 86400)" by simp
  have e3: "(of_int ((k - 25569) * 86400) :: rat) * 1000 = of_int ((k - 25569) * 86400000)"
    by simp
  show ?thesis
    by (simp only: serialMillis_def jsSub_def jsMul_def jsnum.case prod.case
        e1 roundDouble_of_int[OF a] e2 roundDouble_of_int[OF b] e3 roundDouble_of_int[OF c])
qed

text \<open>Within 2^43 ms of the epoch (some 278 years) the three roundings together move
  the instant by less than a hundredth of a millisecond.\<close>

lemma serialMillis_near:
  assumes "\<bar>(n - 25569) * 86400000\<bar> \<le> 2 ^ 43"
  shows "\<exists>v. serialMillis n = Fin v \<and> \<bar>v - (n - 25569) * 86400000\<bar> \<le> 1 / 128"
proof -
  define a where "a = n - 25569"
  define x1 where "x1 = roundFinite a"
  define x2 where "x2 = roundFinite (x1 * 86400)"
  define x3 where "x3 = roundFinite (x2 * 1000)"
  from assms have "\<bar>a * 86400000\<bar> \<le> 2 ^ 43" by (simp only: a_def)
  then have "\<bar>a\<bar> * 86400000 \<le> 8796093022208" by (simp add: abs_mult)
  then have A: "\<bar>a\<bar> \<le> 101807" by linarith
  have t: "pow2 (- 1075) \<le> 1 / 1152921504606846976" using tiny by simp
  have "\<bar>x1 - a\<bar> \<le> \<bar>a\<bar> / 9007199254740992 + pow2 (- 1075)"
    using roundFinite_error[of a] by (simp add: x1_def)
  with A t have e1: "\<bar>x1 - a\<bar> \<le> 1 / 68719476736" by linarith
  with A have b1: "\<bar>x1\<bar> \<le> 101808" by linarith
  have "\<bar>x2 - x1 * 86400\<bar> \<le> \<bar>x1 * 86400\<bar> / 9007199254740992 + pow2 (- 1075)"
    using roundFinite_error[of "x1 * 86400"] by (simp add: x2_def)
  moreover have "\<bar>x1 * 86400\<bar> = \<bar>x1\<bar> * 86400" by (simp add: abs_mult)
  ultimately have e2: "\<bar>x2 - x1 * 86400\<bar> \<le> 1 / 262144" using b1 t by linarith
  with b1 have b2: "\<bar>x2\<bar> \<le> 8796211201" by linarith
  have "\<bar>x3 - x2 * 1000\<bar> \<le> \<bar>x2 * 1000\<bar> / 9007199254740992 + pow2 (- 1075)"
    using roundFinite_error[of "x2 * 1000"] by (simp add: x3_def)
  moreover have "\<bar>x2 * 1000\<bar> = \<bar>x2\<bar> * 1000" by (simp add: abs_mult)
  ultimately have e3: "\<bar>x3 - x2 * 1000\<bar> \<le> 1 / 512" using b2 t by linarith
  with b2 have b3: "\<bar>x3\<bar> \<le> 8796211201001" by linarith
  have big: "(8796211201001::rat) < 2 ^ 1024" by simp
  have f1: "roundDouble (n - 25569) = Fin x1"
    unfolding a_def[symmetric] x1_def
    by (rule roundDouble_finite) (use b1 big in \<open>simp add: x1_def\<close>)
  have f2: "roundDouble (x1 * 86400) = Fin x2"
    unfolding x2_def
    by (rule roundDouble_finite) (use b2 big in \<open>simp add: x2_def\<close>)
  have f3: "roundDouble (x2 * 1000) = Fin x3"
    unfolding x3_def
    by (rule roundDouble_finite) (use b3 big in \<open>simp add: x3_def\<close>)
  have v: "serialMillis n = Fin x3"
    by (simp only: serialMillis_def jsSub_def jsMul_def jsnum.case prod.case f1 f2 f3)
  have "\<bar>x3 - a * 86400000\<bar> \<le> 1 / 128" using e1 e2 e3 by linarith
  with v show ?thesis by (auto simp: a_def)
qed

lemma serialTimestamp_in_range:
  assumes "serialMillis n = Fin v" and "inDateRange n"
  shows "serialTimestamp n = Some (truncRat v - 5 * 60 * 60 * 1000)"
proof -
  from assms have a: "\<bar>v\<bar> \<le> 8640000000000000"
    and b: "\<bar>truncRat v - 18000000\<bar> \<le> 8640000000000000"
    by (simp_all add: inDateRange_def)
  have "serialDate n = Some (truncRat v)"
    using assms(1) a by (simp add: serialDate_def newDate_def timeClip_def)
  then show ?thesis
    using timeClip_of_int[OF b] by (simp add: serialTimestamp_def)
qed

lemma serialTimestamp_out_of_range: "\<not> inDateRange n \<Longrightarrow> serialTimestamp n = None"
proof -
  assume a: "\<not> inDateRange n"
  show ?thesis
  proof (cases "serialMillis n")
    case (Fin v)
    show ?thesis
    proof (cases "\<bar>v\<bar> \<le> 8640000000000000")
      case True
      with a Fin have "\<not> \<bar>truncRat v - 18000000\<bar> \<le> 8640000000000000"
        by (simp add: inDateRange_def)
      then have "8640000000000000 < \<bar>truncRat v - 18000000\<bar>" by simp
      then have "(of_int 8640000000000000 :: rat) < of_int \<bar>truncRat v - 18000000\<bar>"
        by (simp only: of_int_less_iff)
      then have "timeClip (of_int (truncRat v - 18000000)) = None"
        by (simp add: timeClip_def)
      then show ?thesis
        using Fin True by (simp add: serialTimestamp_def serialDate_def newDate_def timeClip_def)
    next
      case False
      then show ?thesis
        using Fin by (simp add: serialTimestamp_def serialDate_def newDate_def timeClip_def)
    qed
  qed (simp_all add: serialTimestamp_def serialDate_def newDate_def)
qed

lemma getCell_withoutColumn:
  "getCell (withoutColumn k r) k' = (if k' = k then None else getCell r k')"
  by (induction r) (auto simp: getCell_def withoutColumn_def)

text \<open>The timestamp only looks at three cells of the row, and only at whether the
  combined field is truthy when it is not.\<close>

lemma resolveTimestamp_cong:
  assumes "\<not> truthy (getCell r ''Date And Time'')" and "\<not> truthy (getCell r' ''Date And Time'')"
    and "getCell r ''Date'' = getCell r' ''Date''" and "getCell r ''Time'' = getCell r' ''Time''"
  shows "resolveTimestamp env w r = resolveTimestamp env w r'"
  using assms by (simp add: resolveTimestamp_def candidateTimestamp_def)

text \<open>
  Claim C7, as the code has it. For every row whose combined Date-And-Time field is a
  number \<open>n\<close> other than 0, and whose instant is a valid Date before and after the
  shift, the resolved timestamp is the instant \<open>(n - 25569) * 86400 * 1000\<close> ms as
  binary64 arithmetic gives it (the difference and the two products each rounded to
  the nearest binary64 value), a fraction of a millisecond dropped, shifted back by
  exactly 5 hours. It is the same for every clock and every random source, and no
  random number is drawn. For a whole number of days the arithmetic is exact: the
  instant is the epoch plus \<open>n - 25569\<close> days. Within \<open>2^43\<close> ms of the epoch (some 278
  years) the roundings move the instant by less than a hundredth of a millisecond
  from the epoch plus \<open>n - 25569\<close> days, before the fraction is dropped. A field of 0
  counts as absent: the row gets the timestamp of the same row without the field. An
  instant that is not a valid Date is replaced by the current date with a random time
  of day.
\<close>

theorem serial_date_timestamp:
  "(getCell r ''Date And Time'' = Some (CNum n) \<and> n \<noteq> 0 \<and> serialMillis n = Fin v
      \<and> inDateRange n \<longrightarrow>
      (\<exists>w'. resolveTimestamp env w r = Inr (truncRat v - 5 * 60 * 60 * 1000, w')
            \<and> randomDraws w' = randomDraws w))
   \<and> (\<bar>(k - 25569) * 86400000\<bar> \<le> 8640000000000000 \<longrightarrow>
      serialMillis (of_int k) = Fin (of_int ((k - 25569) * 86400000)))
   \<and> (getCell r ''Date And Time'' = Some (CNum n) \<and> n \<noteq> 0
      \<and> \<bar>(n - 25569) * 86400000\<bar> \<le> 2 ^ 43 \<longrightarrow>
      (\<exists>u w'. serialMillis n = Fin u \<and> \<bar>u - (n - 25569) * 86400000\<bar> \<le> 1 / 128
            \<and> resolveTimestamp env w r = Inr (truncRat u - 5 * 60 * 60 * 1000, w')
            \<and> randomDraws w' = randomDraws w))
   \<and> (getCell r ''Date And Time'' = Some (CNum 0) \<longrightarrow>
      resolveTimestamp env w r = resolveTimestamp env w (withoutColumn ''Date And Time'' r))
   \<and> (getCell r ''Date And Time'' = Some (CNum n) \<and> n \<noteq> 0 \<and> \<not> inDateRange n \<longrightarrow>
      resolveTimestamp env w r =
        (let (now, w1) = readClock w; (now2, w2) = readClock w1;
             ((h, m, s), w3) = drawTimeOfDay w2
         in Inr (setHours env now2 h m s, w3)))"
proof (intro conjI impI)
  assume "getCell r ''Date And Time'' = Some (CNum n) \<and> n \<noteq> 0 \<and> serialMillis n = Fin v
      \<and> inDateRange n"
  then show "\<exists>w'. resolveTimestamp env w r = Inr (truncRat v - 5 * 60 * 60 * 1000, w')
            \<and> randomDraws w' = randomDraws w"
    by (simp add: resolveTimestamp_def candidateTimestamp_def readClock_def
        serialTimestamp_in_range)
next
  assume "\<bar>(k - 25569) * 86400000\<bar> \<le> 8640000000000000"
  then show "serialMillis (of_int k) = Fin (of_int ((k - 25569) * 86400000))"
    by (rule serialMillis_of_int)
next
  assume a: "getCell r ''Date And Time'' = Some (CNum n) \<and> n \<noteq> 0
      \<and> \<bar>(n - 25569) * 86400000\<bar> \<le> 2 ^ 43"
  then obtain u where u: "serialMillis n = Fin u"
    and near: "\<bar>u - (n - 25569) * 86400000\<bar> \<le> 1 / 128"
    using serialMillis_near[of n] by blast
  define x where "x = (n - 25569) * 86400000"
  from a have "\<bar>x\<bar> \<le> 2 ^ 43" by (simp only: x_def)
  then have "\<bar>x\<bar> \<le> 8796093022208" by simp
  moreover from near have "\<bar>u - x\<bar> \<le> 1 / 128" by (simp only: x_def)
  ultimately have b: "\<bar>u\<bar> \<le> 8796093022209" by linarith
  have t: "of_int (truncRat u) \<le> \<bar>u\<bar>" "- \<bar>u\<bar> \<le> of_int (truncRat u)"
    using truncRat_bounds[of u] by simp_all
  from b t have "(of_int (truncRat u) :: rat) \<le> of_int 8796093022209"
    "(of_int (- 8796093022209) :: rat) \<le> of_int (truncRat u)"
    by simp_all
  then have "truncRat u \<le> 8796093022209" "- 8796093022209 \<le> truncRat u"
    by (simp_all only: of_int_le_iff)
  with u b have "inDateRange n" by (simp add: inDateRange_def)
  with a u near
  show "\<exists>u w'. serialMillis n = Fin u \<and> \<bar>u - (n - 25569) * 86400000\<bar> \<le> 1 / 128
            \<and> resolveTimestamp env w r = Inr (truncRat u - 5 * 60 * 60 * 1000, w')
            \<and> randomDraws w' = randomDraws w"
    by (simp add: resolveTimestamp_def candidateTimestamp_def readClock_def
        serialTimestamp_in_range)
next
  assume "getCell r ''Date And Time'' = Some (CNum 0)"
  then show "resolveTimestamp env w r = resolveTimestamp env w (withoutColumn ''Date And Time'' r)"
    by (intro resolveTimestamp_cong) (simp_all add: getCell_withoutColumn)
next
  assume "getCell r ''Date And Time'' = Some (CNum n) \<and> n \<noteq> 0 \<and> \<not> inDateRange n"
  then show "resolveTimestamp env w r =
        (let (now, w1) = readClock w; (now2, w2) = readClock w1;
             ((h, m, s), w3) = drawTimeOfDay w2
         in Inr (setHours env now2 h m s, w3))"
    by (simp add: resolveTimestamp_def candidateTimestamp_def serialTimestamp_out_of_range
        split: prod.splits)
qed

text \<open>The binary64 value nearest to 44927 days and 5 seconds.\<close>

lemma serialMillis_fraction:
  "serialMillis (6174719870590187 / 137438953472) = Fin 1672531205000"
  by (simp add: serialMillis_def jsMul_def jsSub_def double_eval)

lemma inDateRange_fraction: "inDateRange (6174719870590187 / 137438953472)"
  by (simp add: inDateRange_def serialMillis_fraction truncRat_def)

lemma not_inDateRange_huge: "\<not> inDateRange (2 ^ 100)"
  by (simp add: inDateRange_def serialMillis_def jsMul_def jsSub_def double_eval)

theorem serial_date_timestamp_witness:
  "(\<exists>w'. resolveTimestamp sampleRuntime (constWorld 0 0)
            [(''Date And Time'', CNum (6174719870590187 / 137438953472))]
           = Inr (1672513205000, w')
         \<and> randomDraws w' = randomDraws (constWorld 0 0))
   \<and> serialMillis 45000 = Fin 1678838400000
   \<and> (\<exists>u w'. serialMillis (6174719870590187 / 137438953472) = Fin u
         \<and> \<bar>u - (6174719870590187 / 137438953472 - 25569) * 86400000\<bar> \<le> 1 / 128
         \<and> resolveTimestamp sampleRuntime (constWorld 0 0)
              [(''Date And Time'', CNum (6174719870590187 / 137438953472))]
             = Inr (truncRat u - 5 * 60 * 60 * 1000, w'))
   \<and> resolveTimestamp sampleRuntime (constWorld 0 0)
        [(''Date And Time'', CNum 0), (''Date'', CStr ''x'')]
      = resolveTimestamp sampleRuntime (constWorld 0 0) [(''Date'', CStr ''x'')]
   \<and> map_sum id fst (resolveTimestamp sampleRuntime (constWorld 1700000000000 (1 / 2))
        [(''Date And Time'', CNum (2 ^ 100))]) = Inr 45030000"
proof (intro conjI)
  show "\<exists>w'. resolveTimestamp sampleRuntime (constWorld 0 0)
            [(''Date And Time'', CNum (6174719870590187 / 137438953472))]
           = Inr (1672513205000, w')
         \<and> randomDraws w' = randomDraws (constWorld 0 0)"
    using serial_date_timestamp[where r = "[(''Date And Time'', CNum (6174719870590187 / 137438953472))]"
        and n = "6174719870590187 / 137438953472" and v = 1672531205000
        and env = sampleRuntime and w = "constWorld 0 0"]
    by (simp add: getCell_def serialMillis_fraction inDateRange_fraction truncRat_def)
next
  show "serialMillis 45000 = Fin 1678838400000"
    using serial_date_timestamp[where k = 45000] by simp
next
  have "\<exists>u w'. serialMillis (6174719870590187 / 137438953472) = Fin u
         \<and> \<bar>u - (6174719870590187 / 137438953472 - 25569) * 86400000\<bar> \<le> 1 / 128
         \<and> resolveTimestamp sampleRuntime (constWorld 0 0)
              [(''Date And Time'', CNum (6174719870590187 / 137438953472))]
             = Inr (truncRat u - 5 * 60 * 60 * 1000, w')
         \<and> randomDraws w' = randomDraws (constWorld 0 0)"
    using serial_date_timestamp[where r = "[(''Date And Time'', CNum (6174719870590187 / 137438953472))]"
        and n = "6174719870590187 / 137438953472"
        and env = sampleRuntime and w = "constWorld 0 0"]
    by (simp add: getCell_def)
  then show "\<exists>u w'. serialMillis (6174719870590187 / 137438953472) = Fin u
         \<and> \<bar>u - (6174719870590187 / 137438953472 - 25569) * 86400000\<bar> \<le> 1 / 128
         \<and> resolveTimestamp sampleRuntime (constWorld 0 0)
              [(''Date And Time'', CNum (6174719870590187 / 137438953472))]
             = Inr (truncRat u - 5 * 60 * 60 * 1000, w')"
    by blast
next
  show "resolveTimestamp sampleRuntime (constWorld 0 0)
        [(''Date And Time'', CNum 0), (''Date'', CStr ''x'')]
      = resolveTimestamp sampleRuntime (constWorld 0 0) [(''Date'', CStr ''x'')]"
    using serial_date_timestamp[where r = "[(''Date And Time'', CNum 0), (''Date'', CStr ''x'')]"
        and env = sampleRuntime and w = "constWorld 0 0"]
    by (simp add: getCell_def withoutColumn_def)
next
  have "resolveTimestamp sampleRuntime (constWorld 1700000000000 (1 / 2))
        [(''Date And Time'', CNum (2 ^ 100))]
      = (let (now, w1) = readClock (constWorld 1700000000000 (1 / 2));
             (now2, w2) = readClock w1;
             ((h, m, s), w3) = drawTimeOfDay w2
         in Inr (setHours sampleRuntime now2 h m s, w3))"
    using serial_date_timestamp[where r = "[(''Date And Time'', CNum (2 ^ 100))]"
        and n = "2 ^ 100" and env = sampleRuntime and w = "constWorld 1700000000000 (1 / 2)"]
      not_inDateRange_huge
    by (simp add: getCell_def)
  then show "map_sum id fst (resolveTimestamp sampleRuntime (constWorld 1700000000000 (1 / 2))
        [(''Date And Time'', CNum (2 ^ 100))]) = Inr 45030000"
    by (simp add: readClock_def drawTimeOfDay_def mathRandom_def constWorld_def sampleRuntime_def
        double_eval)
qed

lemma resolve_zero:
  "map_sum id fst (resolveTimestamp env (constWorld c x) [(''Date And Time'', CNum 0)])
    = (case timeClip (of_int (c - \<lfloor>roundFinite (roundFinite (x * 86400000) * 30)\<rfloor>)) of
         Some t \<Rightarrow> Inr t
       | None \<Rightarrow> Inr (setHours env c \<lfloor>roundFinite (x * 24)\<rfloor> \<lfloor>roundFinite (x * 60)\<rfloor>
                        \<lfloor>roundFinite (x * 60)\<rfloor>))"
  by (simp add: resolveTimestamp_def candidateTimestamp_def readClock_def mathRandom_def getCell_def
      constWorld_def drawTimeOfDay_def split: option.splits)

lemma resolve_fraction:
  "map_sum id fst (resolveTimestamp sampleRuntime (constWorld 0 0)
      [(''Date And Time'', CNum (6174719870590187 / 137438953472))]) = Inr 1672513205000"
  by (simp add: resolveTimestamp_def candidateTimestamp_def readClock_def getCell_def
      serialTimestamp_in_range[OF serialMillis_fraction inDateRange_fraction] truncRat_def)

text \<open>The serial number 0: with the clock at the same instant, two random sources give
  two timestamps, and neither is the epoch plus (0 - 25569) days less 5 hours. The
  binary64 value nearest to 44927 days and 5 seconds: the timestamp is one millisecond
  after the epoch plus that many days, the fraction of a millisecond dropped, less 5
  hours.\<close>

theorem serial_zero_counterexample:
  "map_sum id fst (resolveTimestamp sampleRuntime (constWorld 1700000000000 (1 / 2))
      [(''Date And Time'', CNum 0)]) = Inr 1698704000000
   \<and> map_sum id fst (resolveTimestamp sampleRuntime (constWorld 1700000000000 (1 / 4))
      [(''Date And Time'', CNum 0)]) = Inr 1699352000000
   \<and> truncRat ((0 - 25569) * 86400000) - 5 * 60 * 60 * 1000 = - 2209179600000
   \<and> map_sum id fst (resolveTimestamp sampleRuntime (constWorld 0 0)
      [(''Date And Time'', CNum (6174719870590187 / 137438953472))]) = Inr 1672513205000
   \<and> truncRat ((6174719870590187 / 137438953472 - 25569) * 86400000) - 5 * 60 * 60 * 1000
      = 1672513204999"
  by (simp add: resolve_zero resolve_fraction timeClip_def truncRat_def double_eval)

subsection \<open>Schema normalizer\<close>

lemma map_of_setProp: "map_of (setProp k v m) = (map_of m)(k \<mapsto> v)"
  by (induction m) (auto simp: fun_eq_iff)

lemma map_of_exactPass_aux:
  "map_of (fold (\<lambda>originalKey columnTypes.
             case lookupProp env exactMapping originalKey of
               Some v \<Rightarrow> setProp originalKey v columnTypes
             | None \<Rightarrow> columnTypes) keys ct) k
   = (if k \<in> set keys \<and> lookupProp env exactMapping k \<noteq> None
      then lookupProp env exactMapping k else map_of ct k)"
  by (induction keys arbitrary: ct) (auto simp: map_of_setProp split: option.splits)

lemma map_of_exactPass:
  "map_of (exactPass env keys) k
   = (if k \<in> set keys then lookupProp env exactMapping k else None)"
  by (auto simp: exactPass_def map_of_exactPass_aux)

lemma map_of_detectPass:
  "map_of (detectPass env data keys ct) k
   = (case map_of ct k of
        Some v \<Rightarrow> Some v
      | None \<Rightarrow> if k \<in> set keys \<and> protoMember env k = None
                then detectColumnType env k (samplesOf data k) else None)"
proof -
  define step where "step = (\<lambda>originalKey columnTypes.
             if lookupProp env columnTypes originalKey = None then
               (case detectColumnType env originalKey (samplesOf data originalKey) of
                  Some detectedType \<Rightarrow> setProp originalKey detectedType columnTypes
                | None \<Rightarrow> columnTypes)
             else columnTypes)"
  have one: "map_of (step x c) k
      = (case map_of c k of
           Some v \<Rightarrow> Some v
         | None \<Rightarrow> if k = x \<and> protoMember env k = None
                   then detectColumnType env k (samplesOf data k) else None)" for x c
    by (auto simp: step_def lookupProp_def map_of_setProp split: option.splits)
  have "map_of (fold step keys ct) k
      = (case map_of ct k of
           Some v \<Rightarrow> Some v
         | None \<Rightarrow> if k \<in> set keys \<and> protoMember env k = None
                   then detectColumnType env k (samplesOf data k) else None)"
  proof (induction keys arbitrary: ct)
    case Nil
    then show ?case by (simp split: option.splits)
  next
    case (Cons x keys)
    show ?case by (auto simp: Cons.IH one split: option.splits)
  qed
  then show ?thesis by (simp add: detectPass_def step_def)
qed

lemma lookup_columnTypes:
  "lookupProp env (columnTypesOf env data) k
   = (if k \<in> set (map fst (hd data)) then
        (case lookupProp env exactMapping k of
           Some v \<Rightarrow> Some v
         | None \<Rightarrow> detectColumnType env k (samplesOf data k))
      else protoMember env k)"
  by (auto simp: columnTypesOf_def Let_def lookupProp_def map_of_detectPass map_of_exactPass
      split: option.splits)

lemma normalizedKey_exact:
  "k \<in> set (map fst (hd data)) \<Longrightarrow> map_of exactMapping k = Some c
   \<Longrightarrow> normalizedKey env (columnTypesOf env data) k = c"
proof -
  assume a: "k \<in> set (map fst (hd data))" "map_of exactMapping k = Some c"
  have "lookupProp env exactMapping k = Some c" using a by (simp add: lookupProp_def)
  then show ?thesis using a(1) by (simp add: normalizedKey_def lookup_columnTypes)
qed

lemma normalizedKey_detect:
  "k \<in> set (map fst (hd data)) \<Longrightarrow> map_of exactMapping k = None \<Longrightarrow> protoMember env k = None
   \<Longrightarrow> normalizedKey env (columnTypesOf env data) k
       = (case detectColumnType env k (samplesOf data k) of Some t \<Rightarrow> t | None \<Rightarrow> k)"
proof -
  assume a: "k \<in> set (map fst (hd data))" "map_of exactMapping k = None" "protoMember env k = None"
  have "lookupProp env exactMapping k = None" using a by (simp add: lookupProp_def)
  then show ?thesis using a(1) by (simp add: normalizedKey_def lookup_columnTypes)
qed

lemma normalizedKey_absent:
  "k \<notin> set (map fst (hd data)) \<Longrightarrow> protoMember env k = None
   \<Longrightarrow> normalizedKey env (columnTypesOf env data) k = k"
  by (simp add: normalizedKey_def lookup_columnTypes)

lemma map_of_fold_setProp:
  "map_of (fold (\<lambda>(originalKey, v) normalizedRow.
             setProp (f originalKey) v normalizedRow) r acc)
   = map_of acc ++ map_of (rev (map (\<lambda>(k, v). (f k, v)) r))"
proof (induction r arbitrary: acc)
  case Nil
  then show ?case by simp
next
  case (Cons p r)
  obtain a b where p: "p = (a, b)" by (cases p)
  show ?case
    by (simp add: p Cons.IH map_of_setProp map_add_def fun_eq_iff split: option.splits)
qed

lemma map_of_normalizeRow:
  "map_of (normalizeRow env ct r) = map_of (rev (map (\<lambda>(k, v). (normalizedKey env ct k, v)) r))"
  by (simp add: normalizeRow_def map_of_fold_setProp)

lemma length_normalizeColumnNames: "length (normalizeColumnNames env data) = length data"
  by (simp add: normalizeColumnNames_def)

text \<open>
  What the two passes do. Both run over the keys of the first row only. A column of the
  first row whose header is in the exact-name table gets the table's canonical name,
  whatever pattern inference would say; pattern inference decides only for first-row
  columns that the exact pass left unmapped; a column that neither pass matched keeps
  its original name, and so does every column that the first row does not have (for a
  header that is not the name of a member of \<^verbatim>\<open>Object.prototype\<close>). Every row keeps its
  cells, each under the name of its column, a later column winning where two columns
  get the same name, and the number of rows is preserved.
\<close>

lemma normalizer_first_row:
  assumes "data \<noteq> []"
  shows "length (normalizeColumnNames env data) = length data
    \<and> (\<forall>i < length data.
          map_of (normalizeColumnNames env data ! i)
          = map_of (rev (map (\<lambda>(k, v). (normalizedKey env (columnTypesOf env data) k, v)) (data ! i))))
    \<and> (\<forall>k c. k \<in> fst ` set (hd data) \<and> map_of exactMapping k = Some c \<longrightarrow>
          normalizedKey env (columnTypesOf env data) k = c)
    \<and> (\<forall>k. k \<in> fst ` set (hd data) \<and> map_of exactMapping k = None \<and> protoMember env k = None \<longrightarrow>
          normalizedKey env (columnTypesOf env data) k
          = (case detectColumnType env k (samplesOf data k) of Some t \<Rightarrow> t | None \<Rightarrow> k))
    \<and> (\<forall>k. k \<notin> fst ` set (hd data) \<and> protoMember env k = None \<longrightarrow>
          normalizedKey env (columnTypesOf env data) k = k)"
proof (intro conjI allI impI)
  show "length (normalizeColumnNames env data) = length data"
    by (rule length_normalizeColumnNames)
next
  fix i assume "i < length data"
  then show "map_of (normalizeColumnNames env data ! i)
          = map_of (rev (map (\<lambda>(k, v). (normalizedKey env (columnTypesOf env data) k, v)) (data ! i)))"
    using assms by (simp add: normalizeColumnNames_def map_of_normalizeRow)
next
  fix k c assume "k \<in> fst ` set (hd data) \<and> map_of exactMapping k = Some c"
  then show "normalizedKey env (columnTypesOf env data) k = c"
    using normalizedKey_exact[of k data c env] by simp
next
  fix k assume "k \<in> fst ` set (hd data) \<and> map_of exactMapping k = None \<and> protoMember env k = None"
  then show "normalizedKey env (columnTypesOf env data) k
          = (case detectColumnType env k (samplesOf data k) of Some t \<Rightarrow> t | None \<Rightarrow> k)"
    using normalizedKey_detect[of k data env] by simp
next
  fix k assume "k \<notin> fst ` set (hd data) \<and> protoMember env k = None"
  then show "normalizedKey env (columnTypesOf env data) k = k"
    using normalizedKey_absent[of k data env] by simp
qed

lemma exactMapping_examples:
  "map_of exactMapping ''Aparty'' = Some ''A-Party''"
  "map_of exactMapping ''Msisdn'' = Some ''B-Party''"
  "map_of exactMapping ''Remark'' = None"
  by (simp_all add: exactMapping_def)

lemma protoMember_examples:
  "protoMember sampleRuntime ''Remark'' = None"
  "protoMember sampleRuntime ''Msisdn'' = None"
  "protoMember sampleRuntime ''Aparty'' = None"
  by (simp_all add: sampleRuntime_def nodeProtoMember_def)

lemma detect_Remark:
  "detectColumnType sampleRuntime ''Remark'' (samplesOf lateColumnSheet ''Remark'') = None"
  by (simp add: detectColumnType_def samplesOf_def lateColumnSheet_def getCell_def toStr_def
      toLowerCase_def lowerChar_def phonePattern_def imeiPattern_def inClass_def isDigit_def
      isWhiteSpace_def toNumber_def stringToNumber_def trim_def decimalLiteral_def takeSign_def
      digitsVal_def exponentPart_def isNaN_def sampleRuntime_def Let_def)

lemma normalizer_first_row_sample:
  "length (normalizeColumnNames sampleRuntime lateColumnSheet) = 2
   \<and> normalizedKey sampleRuntime (columnTypesOf sampleRuntime lateColumnSheet) ''Aparty'' = ''A-Party''
   \<and> normalizedKey sampleRuntime (columnTypesOf sampleRuntime lateColumnSheet) ''Remark'' = ''Remark''
   \<and> normalizedKey sampleRuntime (columnTypesOf sampleRuntime lateColumnSheet) ''Msisdn'' = ''Msisdn''"
proof -
  have ne: "lateColumnSheet \<noteq> []" by (simp add: lateColumnSheet_def)
  have keys: "fst ` set (hd lateColumnSheet) = {''Aparty'', ''Remark''}"
    by (simp add: lateColumnSheet_def)
  have late: "''Msisdn'' \<notin> fst ` set (hd lateColumnSheet)"
    by (simp add: keys)
  show ?thesis
    using normalizer_first_row[OF ne, of sampleRuntime] keys late
      exactMapping_examples protoMember_examples detect_Remark
    by (simp add: lateColumnSheet_def)
qed

subsection \<open>Drop rule\<close>

lemma candidate_throws:
  "(\<exists>e. candidateTimestamp env now w r = Inl e) = dateOverflow r"
  by (auto simp: candidateTimestamp_def dateOverflow_def Let_def
      split: cell.splits option.splits prod.splits)

lemma resolve_returns:
  "\<not> dateOverflow r \<Longrightarrow> \<exists>t w'. resolveTimestamp env w r = Inr (t, w')"
proof -
  assume a: "\<not> dateOverflow r"
  obtain now w1 where rc: "readClock w = (now, w1)" by (cases "readClock w")
  from a candidate_throws[of env now w1 r]
  obtain c w2 where "candidateTimestamp env now w1 r = Inr (c, w2)"
    by (cases "candidateTimestamp env now w1 r") auto
  then show ?thesis
    by (cases c) (auto simp: resolveTimestamp_def rc split: prod.splits)
qed

lemma cdrOfRow_returns:
  "\<not> dateOverflow r \<Longrightarrow> \<exists>x w'. cdrOfRow env uid w r = Inr (x, w')"
  using resolve_returns[of r env w]
  by (auto simp: cdrOfRow_def split: prod.splits)

lemma cdrOfRow_caller:
  "cdrOfRow env uid w r = Inr (x, w') \<Longrightarrow> cdr.callerNumber x = trimmedField env r ''A-Party''"
  by (auto simp: cdrOfRow_def split: sum.splits prod.splits)

lemma mapRows_callers:
  "mapRows env uid w rows = Inr (recs, w')
   \<Longrightarrow> map cdr.callerNumber recs = map (\<lambda>r. trimmedField env r ''A-Party'') rows"
proof (induction rows arbitrary: w recs)
  case Nil
  then show ?case by simp
next
  case (Cons r rows)
  then show ?case
    by (auto simp: cdrOfRow_caller split: sum.splits prod.splits)
qed

lemma mapRows_returns:
  "\<forall>r \<in> set rows. \<not> dateOverflow r \<Longrightarrow> \<exists>recs w'. mapRows env uid w rows = Inr (recs, w')"
proof (induction rows arbitrary: w)
  case Nil
  then show ?case by simp
next
  case (Cons r rows)
  from Cons.prems obtain x w1 where x: "cdrOfRow env uid w r = Inr (x, w1)"
    using cdrOfRow_returns[of r env uid w] by auto
  from Cons.IH[of w1] Cons.prems obtain xs w2 where "mapRows env uid w1 rows = Inr (xs, w2)"
    by auto
  with x show ?case by simp
qed

lemma parse_normalized:
  "parseExcelToCDR env w data uid =
     (case mapRows env uid w (normalizeColumnNames env data) of
        Inl e \<Rightarrow> Inl e
      | Inr (recs, w') \<Rightarrow> Inr (filter (\<lambda>record. cdr.callerNumber record \<noteq> []) recs))"
  by (simp add: parseExcelToCDR_def normalizeColumnNames_def)

lemma trim_true: "trim ''true'' = ''true''"
  by (simp add: trim_def isWhiteSpace_def)

lemma trim_Nil: "trim [] = []"
  by (simp add: trim_def)

lemma trimmedField_cases:
  "trimmedField env r k =
     (case getCell r k of
        None \<Rightarrow> []
      | Some (CStr s) \<Rightarrow> trim s
      | Some (CNum n) \<Rightarrow> if n = 0 then [] else trim (numToString env n)
      | Some (CBool b) \<Rightarrow> if b then ''true'' else [])"
  by (auto simp: trimmedField_def orElse_def toStr_def trim_true trim_Nil
      split: option.splits cell.splits)

lemma drop_rule_core:
  assumes "\<forall>r \<in> set (normalizeColumnNames env data). \<not> dateOverflow r"
  shows "\<exists>recs. length recs = length data
      \<and> (\<forall>i < length data.
            cdr.callerNumber (recs ! i) = trimmedField env (normalizeColumnNames env data ! i) ''A-Party'')
      \<and> parseExcelToCDR env w data uid = Inr (filter (\<lambda>x. cdr.callerNumber x \<noteq> []) recs)"
proof -
  from mapRows_returns[OF assms, of env uid w]
  obtain recs w' where m: "mapRows env uid w (normalizeColumnNames env data) = Inr (recs, w')"
    by auto
  have c: "map cdr.callerNumber recs
      = map (\<lambda>r. trimmedField env r ''A-Party'') (normalizeColumnNames env data)"
    by (rule mapRows_callers[OF m])
  then have l: "length recs = length data"
    using length_normalizeColumnNames[of env data] by (metis length_map)
  have "\<forall>i < length data.
      cdr.callerNumber (recs ! i) = trimmedField env (normalizeColumnNames env data ! i) ''A-Party''"
  proof (intro allI impI)
    fix i assume i: "i < length data"
    have "map cdr.callerNumber recs ! i
        = map (\<lambda>r. trimmedField env r ''A-Party'') (normalizeColumnNames env data) ! i"
      by (simp only: c)
    then show "cdr.callerNumber (recs ! i)
        = trimmedField env (normalizeColumnNames env data ! i) ''A-Party''"
      using i l by (simp add: length_normalizeColumnNames)
  qed
  with l m show ?thesis by (auto simp: parse_normalized)
qed

text \<open>
  Claim C3, as the code has it. The caller text of a row is its A-Party cell as text,
  trimmed, where an absent cell, the empty text, the number 0 and the boolean false all
  give the empty text (\<^verbatim>\<open>row['A-Party'] || ''\<close>). When no row has the one shape that
  makes the parser raise, the parser returns, it builds one record per row, in order,
  and the output is exactly the records whose caller text is not empty: such a row is
  never dropped, whatever its other fields, and a row with an empty caller text is never
  emitted.
\<close>

theorem drop_rule:
  assumes "\<forall>r \<in> set (normalizeColumnNames env data). \<not> dateOverflow r"
  shows "(\<exists>recs. length recs = length data
      \<and> (\<forall>i < length data.
            cdr.callerNumber (recs ! i) = trimmedField env (normalizeColumnNames env data ! i) ''A-Party'')
      \<and> parseExcelToCDR env w data uid = Inr (filter (\<lambda>x. cdr.callerNumber x \<noteq> []) recs))
    \<and> (\<forall>r. trimmedField env r ''A-Party'' =
          (case getCell r ''A-Party'' of
             None \<Rightarrow> []
           | Some (CStr s) \<Rightarrow> trim s
           | Some (CNum n) \<Rightarrow> if n = 0 then [] else trim (numToString env n)
           | Some (CBool b) \<Rightarrow> if b then ''true'' else []))"
  using drop_rule_core[OF assms] trimmedField_cases by blast

lemma no_overflow_without_date: "getCell r ''Date'' = None \<Longrightarrow> \<not> dateOverflow r"
  by (simp add: dateOverflow_def)

lemma normalize_blankCallerSheet:
  "normalizeColumnNames sampleRuntime blankCallerSheet = blankCallerSheet"
proof -
  have keys: "fst ` set (hd blankCallerSheet) = {''A-Party'', ''B-Party''}"
    by (auto simp: blankCallerSheet_def)
  have a: "normalizedKey sampleRuntime (columnTypesOf sampleRuntime blankCallerSheet) ''A-Party''
      = ''A-Party''"
    using normalizedKey_exact[of "''A-Party''" blankCallerSheet "''A-Party''" sampleRuntime]
    by (simp add: keys exactMapping_def)
  have b: "normalizedKey sampleRuntime (columnTypesOf sampleRuntime blankCallerSheet) ''B-Party''
      = ''B-Party''"
    using normalizedKey_exact[of "''B-Party''" blankCallerSheet "''B-Party''" sampleRuntime]
    by (simp add: keys exactMapping_def)
  have "normalizeColumnNames sampleRuntime blankCallerSheet
      = map (normalizeRow sampleRuntime (columnTypesOf sampleRuntime blankCallerSheet))
          [[(''A-Party'', CStr ''   ''), (''B-Party'', CStr ''5'')], [(''A-Party'', CStr '' 123 '')]]"
    by (simp add: normalizeColumnNames_def blankCallerSheet_def)
  then show ?thesis
    by (simp add: normalizeRow_def a b) (simp add: blankCallerSheet_def)
qed

lemma normalize_zeroCallerSheet:
  "normalizeColumnNames sampleRuntime zeroCallerSheet = zeroCallerSheet"
proof -
  have keys: "fst ` set (hd zeroCallerSheet) = {''A-Party''}"
    by (auto simp: zeroCallerSheet_def)
  have a: "normalizedKey sampleRuntime (columnTypesOf sampleRuntime zeroCallerSheet) ''A-Party''
      = ''A-Party''"
    using normalizedKey_exact[of "''A-Party''" zeroCallerSheet "''A-Party''" sampleRuntime]
    by (simp add: keys exactMapping_def)
  have "normalizeColumnNames sampleRuntime zeroCallerSheet
      = map (normalizeRow sampleRuntime (columnTypesOf sampleRuntime zeroCallerSheet))
          [[(''A-Party'', CNum 0)]]"
    by (simp add: normalizeColumnNames_def zeroCallerSheet_def)
  then show ?thesis
    by (simp add: normalizeRow_def a) (simp add: zeroCallerSheet_def)
qed

lemma char_of_48: "char_of (48::nat) = CHR ''0''"
  by code_simp

lemma trim_examples: "trim ''   '' = []" "trim '' 123 '' = ''123''"
  by (simp_all add: trim_def isWhiteSpace_def)

theorem drop_rule_witness:
  "\<exists>out. parseExcelToCDR sampleRuntime (constWorld 0 0) blankCallerSheet ''u'' = Inr out
         \<and> map cdr.callerNumber out = [''123'']"
proof -
  have h: "\<forall>r \<in> set (normalizeColumnNames sampleRuntime blankCallerSheet). \<not> dateOverflow r"
    by (simp only: normalize_blankCallerSheet) (simp add: blankCallerSheet_def dateOverflow_def getCell_def)
  from drop_rule[OF h, of "constWorld 0 0" "''u''"]
  obtain recs where l: "length recs = length blankCallerSheet"
    and c: "\<forall>i < length blankCallerSheet.
        cdr.callerNumber (recs ! i) = trimmedField sampleRuntime (blankCallerSheet ! i) ''A-Party''"
    and p: "parseExcelToCDR sampleRuntime (constWorld 0 0) blankCallerSheet ''u''
        = Inr (filter (\<lambda>x. cdr.callerNumber x \<noteq> []) recs)"
    by (auto simp: normalize_blankCallerSheet)
  from l obtain a b where ab: "recs = [a, b]"
    by (cases recs; cases "tl recs") (auto simp: blankCallerSheet_def)
  from c have "cdr.callerNumber a = []" "cdr.callerNumber b = ''123''"
    by (auto simp: ab blankCallerSheet_def trimmedField_def getCell_def orElse_def toStr_def
        trim_examples nth_Cons')
  with p show ?thesis by (simp add: ab)
qed

text \<open>The number 0 in the caller column is a field whose text, "0", is not empty after
  trimming; the row is dropped all the same.\<close>

theorem zero_caller_counterexample:
  "trim (toStr sampleRuntime (CNum 0)) = ''0''
   \<and> parseExcelToCDR sampleRuntime (constWorld 1700000000000 (1 / 2)) zeroCallerSheet ''u'' = Inr []"
proof -
  have z: "trim (toStr sampleRuntime (CNum 0)) = ''0''"
    by (simp add: toStr_def sampleRuntime_def showInt_def showNat.simps[of 0] char_of_48 trim_def
        isWhiteSpace_def)
  have h: "\<forall>r \<in> set (normalizeColumnNames sampleRuntime zeroCallerSheet). \<not> dateOverflow r"
    by (simp only: normalize_zeroCallerSheet) (simp add: zeroCallerSheet_def dateOverflow_def getCell_def)
  from drop_rule_core[OF h, of "constWorld 1700000000000 (1 / 2)" "''u''"]
  obtain recs where l: "length recs = length zeroCallerSheet"
    and c: "\<forall>i < length zeroCallerSheet.
        cdr.callerNumber (recs ! i) = trimmedField sampleRuntime (zeroCallerSheet ! i) ''A-Party''"
    and p: "parseExcelToCDR sampleRuntime (constWorld 1700000000000 (1 / 2)) zeroCallerSheet ''u''
        = Inr (filter (\<lambda>x. cdr.callerNumber x \<noteq> []) recs)"
    by (auto simp: normalize_zeroCallerSheet)
  from l obtain a where a: "recs = [a]"
    by (cases recs) (auto simp: zeroCallerSheet_def)
  from c have "cdr.callerNumber a = []"
    by (auto simp: a zeroCallerSheet_def trimmedField_def getCell_def orElse_def trim_Nil toStr_def)
  with p z show ?thesis by (simp add: a)
qed

subsection \<open>Location decomposition\<close>

lemma truthy_orElse: "truthy (Some (orElse c d)) = (truthy c \<or> d \<noteq> [])"
  by (cases c rule: truthy.cases) (simp_all add: orElse_def)

lemma extractLocation_name:
  "fst (extractLocation env r)
   = (if truthy (getCell r ''SiteLocation'') then
        (if 3 \<le> length (siteParts env r) then trim (siteParts env r ! 0)
         else trim (siteText env r))
      else [])"
  by (simp add: extractLocation_def siteParts_def siteText_def truthy_orElse Let_def
      split: prod.splits)

lemma extractLocation_site:
  assumes "siteCoordinate env r 1 \<noteq> None" and "siteCoordinate env r 2 \<noteq> None"
  shows "snd (extractLocation env r) = (siteCoordinate env r 1, siteCoordinate env r 2)"
  using assms
  by (auto simp: extractLocation_def siteCoordinate_def siteParts_def siteText_def truthy_orElse
      Let_def split: if_splits)

lemma extractLocation_fields:
  assumes "siteCoordinate env r 1 = None \<or> siteCoordinate env r 2 = None"
    and "fieldCoordinate env r ''Latitude'' \<noteq> NaN" and "fieldCoordinate env r ''Longitude'' \<noteq> NaN"
  shows "snd (extractLocation env r)
     = (Some (fieldCoordinate env r ''Latitude''), Some (fieldCoordinate env r ''Longitude''))"
  using assms
  by (auto simp: extractLocation_def siteCoordinate_def siteParts_def siteText_def truthy_orElse
      fieldCoordinate_def isNaN_def Let_def split: if_splits)

lemma extractLocation_neither:
  assumes "siteCoordinate env r 1 = None \<or> siteCoordinate env r 2 = None"
    and "fieldCoordinate env r ''Latitude'' = NaN \<or> fieldCoordinate env r ''Longitude'' = NaN"
  shows "snd (extractLocation env r) = (siteCoordinate env r 1, siteCoordinate env r 2)"
  using assms
  by (auto simp: extractLocation_def siteCoordinate_def siteParts_def siteText_def truthy_orElse
      fieldCoordinate_def isNaN_def Let_def split: if_splits)

lemma fieldCoordinate_falsy: "\<not> truthy (getCell r k) \<Longrightarrow> fieldCoordinate env r k = Fin 0"
  by (simp add: fieldCoordinate_def orElse_def toStr_def parseFloat_zero)

lemma split_TowerA: "splitOn (CHR ''|'') ''Tower A|24.86|67.01'' = [''Tower A'', ''24.86'', ''67.01'']"
  by simp

lemma split_TowerB: "splitOn (CHR ''|'') ''Tower B'' = [''Tower B'']"
  by simp

lemma split_abc: "splitOn (CHR ''|'') ''A|abc|67.01'' = [''A'', ''abc'', ''67.01'']"
  by simp

lemma trim_Towers: "trim ''Tower A'' = ''Tower A''" "trim ''Tower B'' = ''Tower B''" "trim ''A'' = ''A''"
  by (simp_all add: trim_def isWhiteSpace_def)

lemma coordinate_examples:
  "coordinate ''24.86'' = Some (roundDouble (2486 / 100))"
  "coordinate ''67.01'' = Some (roundDouble (6701 / 100))"
  "coordinate ''abc'' = None"
  by (simp_all add: coordinate_def isNaN_def parseFloat_eval roundDouble_not_NaN)

lemma extractLocation_TowerA:
  assumes "getCell r ''SiteLocation'' = Some (CStr ''Tower A|24.86|67.01'')"
  shows "extractLocation env r
     = (''Tower A'', Some (roundDouble (2486 / 100)), Some (roundDouble (6701 / 100)))"
  using assms
  by (simp add: extractLocation_def orElse_def toStr_def split_TowerA trim_Towers coordinate_examples)

lemma extractLocation_TowerB:
  assumes "getCell r ''SiteLocation'' = Some (CStr ''Tower B'')"
    and "\<not> truthy (getCell r ''Latitude'')" and "\<not> truthy (getCell r ''Longitude'')"
  shows "extractLocation env r = (''Tower B'', Some (Fin 0), Some (Fin 0))"
  using assms
  by (simp add: extractLocation_def orElse_def toStr_def split_TowerB trim_Towers isNaN_def
      parseFloat_zero Let_def)

text \<open>The record of a row holds what \<open>extractLocation\<close> gives for the row.\<close>

lemma cdrOfRow_place:
  "cdrOfRow env uid w r = Inr (x, w')
   \<Longrightarrow> placeOf x = (case extractLocation env r of (l, a, b) \<Rightarrow> (Some l, a, b))"
  by (auto simp: cdrOfRow_def placeOf_def split: sum.splits prod.splits)

lemma mapRows_places:
  "mapRows env uid w rows = Inr (recs, w')
   \<Longrightarrow> map placeOf (filter (\<lambda>x. cdr.callerNumber x \<noteq> []) recs)
       = map (\<lambda>r. case extractLocation env r of (l, a, b) \<Rightarrow> (Some l, a, b))
           (filter (\<lambda>r. trimmedField env r ''A-Party'' \<noteq> []) rows)"
proof (induction rows arbitrary: w recs)
  case Nil
  then show ?case by simp
next
  case (Cons r rows)
  from Cons.prems obtain x w1 xs where x: "cdrOfRow env uid w r = Inr (x, w1)"
    and xs: "mapRows env uid w1 rows = Inr (xs, w')" and recs: "recs = x # xs"
    by (auto split: sum.splits prod.splits)
  show ?case
    using Cons.IH[OF xs] cdrOfRow_place[OF x] cdrOfRow_caller[OF x] by (simp add: recs)
qed

lemma parse_places:
  assumes "parseExcelToCDR env w data uid = Inr rs"
  shows "map placeOf rs
     = map (\<lambda>r. case extractLocation env r of (l, a, b) \<Rightarrow> (Some l, a, b))
         (filter (\<lambda>r. trimmedField env r ''A-Party'' \<noteq> []) (normalizeColumnNames env data))"
proof -
  from assms obtain recs w' where
    m: "mapRows env uid w (normalizeColumnNames env data) = Inr (recs, w')"
    and rs: "rs = filter (\<lambda>x. cdr.callerNumber x \<noteq> []) recs"
    by (auto simp: parse_normalized split: sum.splits prod.splits)
  from mapRows_places[OF m] show ?thesis by (simp only: rs)
qed

text \<open>
  Claim C1, as the code has it. The records that the parser returns are those of the
  rows, after normalization, whose caller text is not empty, and the record of a row
  has the location, latitude and longitude that follow. The location is the first
  part of SiteLocation, trimmed, when the field has at least three parts between bars,
  else the whole text, trimmed (empty for a falsy field). When the second and the
  third part both read as numbers, they are the latitude and the longitude. When
  SiteLocation gives no complete pair of coordinates, the fallback reads the Latitude
  and Longitude fields, a falsy or absent field as "0", and sets both coordinates
  whenever both values are numeric; otherwise the coordinates stay as SiteLocation
  left them, each the number read from its part, or null. So a row whose SiteLocation
  is "Tower A|24.86|67.01" yields location "Tower A", latitude 24.86 and longitude
  67.01 (the binary64 values), and a row whose SiteLocation is "Tower B" and that has
  no Latitude and no Longitude field yields location "Tower B" with latitude 0 and
  longitude 0, not null.
\<close>

theorem location_decomposition:
  "(parseExcelToCDR env w data uid = Inr rs \<longrightarrow>
      map placeOf rs
      = map (\<lambda>r. case extractLocation env r of (l, a, b) \<Rightarrow> (Some l, a, b))
          (filter (\<lambda>r. trimmedField env r ''A-Party'' \<noteq> []) (normalizeColumnNames env data)))
   \<and> fst (extractLocation env r)
      = (if truthy (getCell r ''SiteLocation'') then
           (if 3 \<le> length (siteParts env r) then trim (siteParts env r ! 0)
            else trim (siteText env r))
         else [])
   \<and> (siteCoordinate env r 1 \<noteq> None \<and> siteCoordinate env r 2 \<noteq> None \<longrightarrow>
      snd (extractLocation env r) = (siteCoordinate env r 1, siteCoordinate env r 2))
   \<and> ((siteCoordinate env r 1 = None \<or> siteCoordinate env r 2 = None)
      \<and> fieldCoordinate env r ''Latitude'' \<noteq> NaN \<and> fieldCoordinate env r ''Longitude'' \<noteq> NaN \<longrightarrow>
      snd (extractLocation env r)
      = (Some (fieldCoordinate env r ''Latitude''), Some (fieldCoordinate env r ''Longitude'')))
   \<and> ((siteCoordinate env r 1 = None \<or> siteCoordinate env r 2 = None)
      \<and> (fieldCoordinate env r ''Latitude'' = NaN \<or> fieldCoordinate env r ''Longitude'' = NaN) \<longrightarrow>
      snd (extractLocation env r) = (siteCoordinate env r 1, siteCoordinate env r 2))
   \<and> (\<not> truthy (getCell r k) \<longrightarrow> fieldCoordinate env r k = Fin 0)
   \<and> (getCell r ''SiteLocation'' = Some (CStr ''Tower A|24.86|67.01'') \<longrightarrow>
      extractLocation env r
      = (''Tower A'', Some (roundDouble (2486 / 100)), Some (roundDouble (6701 / 100))))
   \<and> (getCell r ''SiteLocation'' = Some (CStr ''Tower B'')
      \<and> \<not> truthy (getCell r ''Latitude'') \<and> \<not> truthy (getCell r ''Longitude'') \<longrightarrow>
      extractLocation env r = (''Tower B'', Some (Fin 0), Some (Fin 0)))"
  using parse_places[of env w data uid rs] extractLocation_name[of env r]
    extractLocation_site[of env r] extractLocation_fields[of env r]
    extractLocation_neither[of env r] fieldCoordinate_falsy[of r k env]
    extractLocation_TowerA[of r env] extractLocation_TowerB[of r env]
  by (intro conjI impI) simp_all

lemma normalize_towerSheet: "normalizeColumnNames sampleRuntime towerSheet = towerSheet"
proof -
  have keys: "fst ` set (hd towerSheet) = {''A-Party'', ''SiteLocation''}"
    by (auto simp: towerSheet_def)
  have a: "normalizedKey sampleRuntime (columnTypesOf sampleRuntime towerSheet) ''A-Party''
      = ''A-Party''"
    using normalizedKey_exact[of "''A-Party''" towerSheet "''A-Party''" sampleRuntime]
    by (simp add: keys exactMapping_def)
  have b: "normalizedKey sampleRuntime (columnTypesOf sampleRuntime towerSheet) ''SiteLocation''
      = ''SiteLocation''"
    using normalizedKey_exact[of "''SiteLocation''" towerSheet "''SiteLocation''" sampleRuntime]
    by (simp add: keys exactMapping_def)
  have c: "normalizedKey sampleRuntime (columnTypesOf sampleRuntime towerSheet) ''Latitude''
      = ''Latitude''"
    using normalizedKey_absent[of "''Latitude''" towerSheet sampleRuntime]
    by (simp add: keys sampleRuntime_def nodeProtoMember_def)
  have "normalizeColumnNames sampleRuntime towerSheet
      = map (normalizeRow sampleRuntime (columnTypesOf sampleRuntime towerSheet))
          [[(''A-Party'', CStr ''1''), (''SiteLocation'', CStr ''Tower A|24.86|67.01'')],
           [(''A-Party'', CStr ''2''), (''SiteLocation'', CStr ''Tower B'')],
           [(''A-Party'', CStr ''3''), (''SiteLocation'', CStr ''A|abc|67.01'')],
           [(''A-Party'', CStr ''4''), (''SiteLocation'', CStr ''A|abc|67.01''),
            (''Latitude'', CStr ''x'')]]"
    by (simp add: normalizeColumnNames_def towerSheet_def)
  then show ?thesis
    by (simp add: normalizeRow_def a b c) (simp add: towerSheet_def)
qed

lemma normalize_towerBSheet: "normalizeColumnNames sampleRuntime towerBSheet = towerBSheet"
proof -
  have keys: "fst ` set (hd towerBSheet) = {''A-Party'', ''SiteLocation''}"
    by (auto simp: towerBSheet_def)
  have a: "normalizedKey sampleRuntime (columnTypesOf sampleRuntime towerBSheet) ''A-Party''
      = ''A-Party''"
    using normalizedKey_exact[of "''A-Party''" towerBSheet "''A-Party''" sampleRuntime]
    by (simp add: keys exactMapping_def)
  have b: "normalizedKey sampleRuntime (columnTypesOf sampleRuntime towerBSheet) ''SiteLocation''
      = ''SiteLocation''"
    using normalizedKey_exact[of "''SiteLocation''" towerBSheet "''SiteLocation''" sampleRuntime]
    by (simp add: keys exactMapping_def)
  have "normalizeColumnNames sampleRuntime towerBSheet
      = map (normalizeRow sampleRuntime (columnTypesOf sampleRuntime towerBSheet))
          [[(''A-Party'', CStr ''2''), (''SiteLocation'', CStr ''Tower B'')]]"
    by (simp add: normalizeColumnNames_def towerBSheet_def)
  then show ?thesis
    by (simp add: normalizeRow_def a b) (simp add: towerBSheet_def)
qed

lemma parse_returns:
  assumes "\<forall>r \<in> set (normalizeColumnNames env data). getCell r ''Date'' = None"
  shows "\<exists>rs. parseExcelToCDR env w data uid = Inr rs"
proof -
  from assms have "\<forall>r \<in> set (normalizeColumnNames env data). \<not> dateOverflow r"
    by (simp add: no_overflow_without_date)
  from drop_rule_core[OF this] show ?thesis by blast
qed

lemma trim_digits: "trim ''1'' = ''1''" "trim ''2'' = ''2''" "trim ''3'' = ''3''" "trim ''4'' = ''4''"
  by (simp_all add: trim_def isWhiteSpace_def)

lemma siteCoordinate_abc:
  assumes "getCell r ''SiteLocation'' = Some (CStr ''A|abc|67.01'')"
  shows "siteCoordinate env r 1 = None"
    and "siteCoordinate env r 2 = Some (roundDouble (6701 / 100))"
    and "fst (extractLocation env r) = ''A''"
  using assms
  by (simp_all add: extractLocation_name siteCoordinate_def siteParts_def siteText_def orElse_def
      toStr_def split_abc coordinate_examples trim_Towers)

lemma fieldCoordinate_x:
  "getCell r k = Some (CStr ''x'') \<Longrightarrow> fieldCoordinate env r k = NaN"
  by (simp add: fieldCoordinate_def orElse_def toStr_def parseFloat_eval)

theorem location_decomposition_witness:
  "map_sum id (map placeOf) (parseExcelToCDR sampleRuntime (constWorld 0 0) towerSheet ''u'')
     = Inr [(Some ''Tower A'', Some (roundDouble (2486 / 100)), Some (roundDouble (6701 / 100))),
            (Some ''Tower B'', Some (Fin 0), Some (Fin 0)),
            (Some ''A'', Some (Fin 0), Some (Fin 0)),
            (Some ''A'', None, Some (roundDouble (6701 / 100)))]
   \<and> roundDouble (2486 / 100) = Fin (1749366980256727 / 70368744177664)
   \<and> roundDouble (6701 / 100) = Fin (4715409547345265 / 70368744177664)"
proof (intro conjI)
  obtain rs where p: "parseExcelToCDR sampleRuntime (constWorld 0 0) towerSheet ''u'' = Inr rs"
    using parse_returns[of sampleRuntime towerSheet "constWorld 0 0" "''u''"]
    by (simp only: normalize_towerSheet) (auto simp: towerSheet_def getCell_def)
  define r1 where "r1 = [(''A-Party'', CStr ''1''), (''SiteLocation'', CStr ''Tower A|24.86|67.01'')]"
  define r2 where "r2 = [(''A-Party'', CStr ''2''), (''SiteLocation'', CStr ''Tower B'')]"
  define r3 where "r3 = [(''A-Party'', CStr ''3''), (''SiteLocation'', CStr ''A|abc|67.01'')]"
  define r4 where "r4 = [(''A-Party'', CStr ''4''), (''SiteLocation'', CStr ''A|abc|67.01''),
       (''Latitude'', CStr ''x'')]"
  have sheet: "towerSheet = [r1, r2, r3, r4]"
    by (simp add: towerSheet_def r1_def r2_def r3_def r4_def)
  have callers: "filter (\<lambda>r. trimmedField sampleRuntime r ''A-Party'' \<noteq> []) [r1, r2, r3, r4]
      = [r1, r2, r3, r4]"
    by (simp add: r1_def r2_def r3_def r4_def trimmedField_def getCell_def orElse_def toStr_def
        trim_digits)
  have e1: "extractLocation sampleRuntime r1
      = (''Tower A'', Some (roundDouble (2486 / 100)), Some (roundDouble (6701 / 100)))"
    using location_decomposition[where r = r1 and env = sampleRuntime]
    by (simp add: r1_def getCell_def)
  have e2: "extractLocation sampleRuntime r2 = (''Tower B'', Some (Fin 0), Some (Fin 0))"
    using location_decomposition[where r = r2 and env = sampleRuntime]
    by (simp add: r2_def getCell_def)
  have g3: "getCell r3 ''SiteLocation'' = Some (CStr ''A|abc|67.01'')"
    "\<not> truthy (getCell r3 ''Latitude'')" "\<not> truthy (getCell r3 ''Longitude'')"
    by (simp_all add: r3_def getCell_def)
  have f3: "fieldCoordinate sampleRuntime r3 ''Latitude'' = Fin 0"
    "fieldCoordinate sampleRuntime r3 ''Longitude'' = Fin 0"
    using location_decomposition[where r = r3 and env = sampleRuntime and k = "''Latitude''"]
      location_decomposition[where r = r3 and env = sampleRuntime and k = "''Longitude''"] g3
    by simp_all
  have s3: "siteCoordinate sampleRuntime r3 1 = None"
    by (rule siteCoordinate_abc(1)[OF g3(1)])
  have n3: "fieldCoordinate sampleRuntime r3 ''Latitude'' \<noteq> NaN"
    "fieldCoordinate sampleRuntime r3 ''Longitude'' \<noteq> NaN"
    by (simp_all add: f3)
  have "snd (extractLocation sampleRuntime r3)
      = (Some (fieldCoordinate sampleRuntime r3 ''Latitude''),
         Some (fieldCoordinate sampleRuntime r3 ''Longitude''))"
    using location_decomposition[where r = r3 and env = sampleRuntime] s3 n3 by blast
  then have e3: "extractLocation sampleRuntime r3 = (''A'', Some (Fin 0), Some (Fin 0))"
    using siteCoordinate_abc(3)[OF g3(1), of sampleRuntime] by (simp add: prod_eq_iff f3)
  have g4: "getCell r4 ''SiteLocation'' = Some (CStr ''A|abc|67.01'')"
    "getCell r4 ''Latitude'' = Some (CStr ''x'')"
    by (simp_all add: r4_def getCell_def)
  have s4: "siteCoordinate sampleRuntime r4 1 = None"
    by (rule siteCoordinate_abc(1)[OF g4(1)])
  have n4: "fieldCoordinate sampleRuntime r4 ''Latitude'' = NaN"
    by (rule fieldCoordinate_x[OF g4(2)])
  have "snd (extractLocation sampleRuntime r4)
      = (siteCoordinate sampleRuntime r4 1, siteCoordinate sampleRuntime r4 2)"
    using location_decomposition[where r = r4 and env = sampleRuntime] s4 n4 by blast
  then have "snd (extractLocation sampleRuntime r4) = (None, Some (roundDouble (6701 / 100)))"
    by (simp only: s4 siteCoordinate_abc(2)[OF g4(1)])
  then have e4: "extractLocation sampleRuntime r4 = (''A'', None, Some (roundDouble (6701 / 100)))"
    using siteCoordinate_abc(3)[OF g4(1), of sampleRuntime] by (simp add: prod_eq_iff)
  have "map placeOf rs
      = map (\<lambda>r. case extractLocation sampleRuntime r of (l, a, b) \<Rightarrow> (Some l, a, b))
          (filter (\<lambda>r. trimmedField sampleRuntime r ''A-Party'' \<noteq> [])
             (normalizeColumnNames sampleRuntime towerSheet))"
    using location_decomposition[where env = sampleRuntime and w = "constWorld 0 0"
        and data = towerSheet and uid = "''u''" and rs = rs] p
    by blast
  then have "map placeOf rs
      = map (\<lambda>r. case extractLocation sampleRuntime r of (l, a, b) \<Rightarrow> (Some l, a, b))
          (filter (\<lambda>r. trimmedField sampleRuntime r ''A-Party'' \<noteq> []) towerSheet)"
    by (simp only: normalize_towerSheet)
  then have "map placeOf rs
      = map (\<lambda>r. case extractLocation sampleRuntime r of (l, a, b) \<Rightarrow> (Some l, a, b))
          (filter (\<lambda>r. trimmedField sampleRuntime r ''A-Party'' \<noteq> []) [r1, r2, r3, r4])"
    by (simp only: sheet)
  then have "map placeOf rs
      = map (\<lambda>r. case extractLocation sampleRuntime r of (l, a, b) \<Rightarrow> (Some l, a, b))
          [r1, r2, r3, r4]"
    by (simp only: callers)
  then show "map_sum id (map placeOf) (parseExcelToCDR sampleRuntime (constWorld 0 0) towerSheet ''u'')
     = Inr [(Some ''Tower A'', Some (roundDouble (2486 / 100)), Some (roundDouble (6701 / 100))),
            (Some ''Tower B'', Some (Fin 0), Some (Fin 0)),
            (Some ''A'', Some (Fin 0), Some (Fin 0)),
            (Some ''A'', None, Some (roundDouble (6701 / 100)))]"
    by (simp add: p e1 e2 e3 e4)
next
  show "roundDouble (2486 / 100) = Fin (1749366980256727 / 70368744177664)"
    by (simp add: double_eval)
next
  show "roundDouble (6701 / 100) = Fin (4715409547345265 / 70368744177664)"
    by (simp add: double_eval)
qed

text \<open>The row of the claim: SiteLocation "Tower B" and no coordinate fields. The record
  has the latitude 0 and the longitude 0 where the claim expects null and null.\<close>

theorem location_null_counterexample:
  "map_sum id (map placeOf) (parseExcelToCDR sampleRuntime (constWorld 0 0) towerBSheet ''u'')
     = Inr [(Some ''Tower B'', Some (Fin 0), Some (Fin 0))]
   \<and> map_sum id (map placeOf) (parseExcelToCDR sampleRuntime (constWorld 0 0) towerBSheet ''u'')
     \<noteq> Inr [(Some ''Tower B'', None, None)]"
proof -
  obtain rs where p: "parseExcelToCDR sampleRuntime (constWorld 0 0) towerBSheet ''u'' = Inr rs"
    using parse_returns[of sampleRuntime towerBSheet "constWorld 0 0" "''u''"]
    by (simp only: normalize_towerBSheet) (auto simp: towerBSheet_def getCell_def)
  have "map placeOf rs
      = map (\<lambda>r. case extractLocation sampleRuntime r of (l, a, b) \<Rightarrow> (Some l, a, b))
          (filter (\<lambda>r. trimmedField sampleRuntime r ''A-Party'' \<noteq> []) towerBSheet)"
    using parse_places[OF p] by (simp only: normalize_towerBSheet)
  then have "map placeOf rs = [(Some ''Tower B'', Some (Fin 0), Some (Fin 0))]"
    by (simp add: towerBSheet_def trimmedField_def getCell_def orElse_def toStr_def trim_digits
        extractLocation_TowerB)
  then show ?thesis by (simp add: p)
qed

subsection \<open>A known header that first appears after the first row\<close>

lemma cdrOfRow_called:
  "cdrOfRow env uid w r = Inr (x, w')
   \<Longrightarrow> cdr.calledNumber x = Some (trimmedField env r ''B-Party'')"
  by (auto simp: cdrOfRow_def split: sum.splits prod.splits)

lemma mapRows_parties:
  "mapRows env uid w rows = Inr (recs, w')
   \<Longrightarrow> map (\<lambda>x. (cdr.callerNumber x, cdr.calledNumber x))
         (filter (\<lambda>x. cdr.callerNumber x \<noteq> []) recs)
       = map (\<lambda>r. (trimmedField env r ''A-Party'', Some (trimmedField env r ''B-Party'')))
           (filter (\<lambda>r. trimmedField env r ''A-Party'' \<noteq> []) rows)"
proof (induction rows arbitrary: w recs)
  case Nil
  then show ?case by simp
next
  case (Cons r rows)
  from Cons.prems obtain x w1 xs where x: "cdrOfRow env uid w r = Inr (x, w1)"
    and xs: "mapRows env uid w1 rows = Inr (xs, w')" and recs: "recs = x # xs"
    by (auto split: sum.splits prod.splits)
  show ?case
    using Cons.IH[OF xs] cdrOfRow_called[OF x] cdrOfRow_caller[OF x] by (simp add: recs)
qed

lemma parse_parties:
  assumes "parseExcelToCDR env w data uid = Inr rs"
  shows "map (\<lambda>x. (cdr.callerNumber x, cdr.calledNumber x)) rs
     = map (\<lambda>r. (trimmedField env r ''A-Party'', Some (trimmedField env r ''B-Party'')))
         (filter (\<lambda>r. trimmedField env r ''A-Party'' \<noteq> []) (normalizeColumnNames env data))"
proof -
  from assms obtain recs w' where
    m: "mapRows env uid w (normalizeColumnNames env data) = Inr (recs, w')"
    and rs: "rs = filter (\<lambda>x. cdr.callerNumber x \<noteq> []) recs"
    by (auto simp: parse_normalized split: sum.splits prod.splits)
  from mapRows_parties[OF m] show ?thesis by (simp only: rs)
qed

lemma normalize_lateColumnSheet:
  "normalizeColumnNames sampleRuntime lateColumnSheet
     = [[(''A-Party'', CStr ''1''), (''Remark'', CStr ''x'')],
        [(''A-Party'', CStr ''2''), (''Msisdn'', CStr ''3'')]]"
proof -
  have keys: "fst ` set (hd lateColumnSheet) = {''Aparty'', ''Remark''}"
    by (simp add: lateColumnSheet_def)
  have a: "normalizedKey sampleRuntime (columnTypesOf sampleRuntime lateColumnSheet) ''Aparty'' = ''A-Party''"
    using normalizedKey_exact[of "''Aparty''" lateColumnSheet "''A-Party''" sampleRuntime]
    by (simp add: keys exactMapping_examples)
  have r: "normalizedKey sampleRuntime (columnTypesOf sampleRuntime lateColumnSheet) ''Remark'' = ''Remark''"
    using normalizedKey_detect[of "''Remark''" lateColumnSheet sampleRuntime]
    by (simp add: keys exactMapping_examples protoMember_examples detect_Remark)
  have m: "normalizedKey sampleRuntime (columnTypesOf sampleRuntime lateColumnSheet) ''Msisdn'' = ''Msisdn''"
    using normalizedKey_absent[of "''Msisdn''" lateColumnSheet sampleRuntime]
    by (simp add: keys protoMember_examples)
  have "normalizeColumnNames sampleRuntime lateColumnSheet
      = map (normalizeRow sampleRuntime (columnTypesOf sampleRuntime lateColumnSheet))
          [[(''Aparty'', CStr ''1''), (''Remark'', CStr ''x'')],
           [(''Aparty'', CStr ''2''), (''Msisdn'', CStr ''3'')]]"
    by (simp add: normalizeColumnNames_def lateColumnSheet_def)
  then show ?thesis
    by (simp add: normalizeRow_def a r m)
qed

text \<open>
  Claim C9. A column whose header is in the exact-name table is to get the table's
  canonical name. "Msisdn" is in the table, with the canonical name "B-Party". In this
  sheet of two rows the first row has no cell in that column, as happens when the cell
  is empty in the sheet. Both passes look at the keys of the first row only, so the
  second row keeps the column under the name "Msisdn", and the parser, which reads
  "B-Party", finds no called number for it: the number 3 is lost.
\<close>

theorem late_column_not_mapped:
  "map_of exactMapping ''Msisdn'' = Some ''B-Party''
   \<and> normalizeColumnNames sampleRuntime lateColumnSheet
       = [[(''A-Party'', CStr ''1''), (''Remark'', CStr ''x'')],
          [(''A-Party'', CStr ''2''), (''Msisdn'', CStr ''3'')]]
   \<and> map_sum id (map (\<lambda>x. (cdr.callerNumber x, cdr.calledNumber x)))
        (parseExcelToCDR sampleRuntime (constWorld 0 0) lateColumnSheet ''u'')
       = Inr [(''1'', Some []), (''2'', Some [])]"
proof -
  let ?rows = "[[(''A-Party'', CStr ''1''), (''Remark'', CStr ''x'')],
                [(''A-Party'', CStr ''2''), (''Msisdn'', CStr ''3'')]]"
  have "\<forall>r \<in> set (normalizeColumnNames sampleRuntime lateColumnSheet). getCell r ''Date'' = None"
    by (simp only: normalize_lateColumnSheet) (simp add: getCell_def)
  from parse_returns[OF this, of "constWorld 0 0" "''u''"]
  obtain rs where p: "parseExcelToCDR sampleRuntime (constWorld 0 0) lateColumnSheet ''u'' = Inr rs"
    by blast
  have "map (\<lambda>x. (cdr.callerNumber x, cdr.calledNumber x)) rs
      = map (\<lambda>r. (trimmedField sampleRuntime r ''A-Party'',
                    Some (trimmedField sampleRuntime r ''B-Party'')))
          (filter (\<lambda>r. trimmedField sampleRuntime r ''A-Party'' \<noteq> []) ?rows)"
    using parse_parties[OF p] by (simp only: normalize_lateColumnSheet)
  then have "map (\<lambda>x. (cdr.callerNumber x, cdr.calledNumber x)) rs
      = [(''1'', Some []), (''2'', Some [])]"
    by (simp add: trimmedField_def getCell_def orElse_def toStr_def trim_digits trim_Nil)
  then show ?thesis
    by (simp add: p exactMapping_examples normalize_lateColumnSheet)
qed

subsection \<open>Rankings\<close>

lemma keys_modifyAt: "map fst (modifyAt k f m) = map fst m"
  by (induction m) auto

lemma keys_ensureKey:
  "map fst (ensureKey k i m) = (if k \<in> set (map fst m) then map fst m else map fst m @ [k])"
  by (auto simp: ensureKey_def map_of_eq_None_iff)

text \<open>The keys of a map built by a tally are the keys met, in the order of first
  meeting.\<close>

lemma keys_tally:
  "map fst (fold (\<lambda>r m. if skip r then m
                          else modifyAt (key r) (upd r) (ensureKey (key r) (init r) m)) rs m0)
   = fold setAdd (map key (filter (\<lambda>r. \<not> skip r) rs)) (map fst m0)"
  by (induction rs arbitrary: m0) (auto simp: keys_modifyAt keys_ensureKey setAdd_def)

lemma firstIndex_append_in: "k \<in> set pre \<Longrightarrow> firstIndex (pre @ ks) k = firstIndex pre k"
  by (simp add: firstIndex_def)

lemma firstIndex_less: "k \<in> set pre \<Longrightarrow> firstIndex pre k < length pre"
proof -
  assume k: "k \<in> set pre"
  have "takeWhile (\<lambda>x. x \<noteq> k) pre \<noteq> pre"
    using k by (simp add: takeWhile_eq_all_conv)
  then have "length (takeWhile (\<lambda>x. x \<noteq> k) pre) \<noteq> length pre"
    by (metis takeWhile_eq_take take_all_iff dual_order.refl)
  moreover have "length (takeWhile (\<lambda>x. x \<noteq> k) pre) \<le> length pre"
    by (rule length_takeWhile_le)
  ultimately show ?thesis by (simp add: firstIndex_def)
qed

lemma firstIndex_new: "k \<notin> set pre \<Longrightarrow> firstIndex (pre @ k # ks) k = length pre"
proof -
  assume k: "k \<notin> set pre"
  have "takeWhile (\<lambda>x. x \<noteq> k) (pre @ k # ks) = pre @ takeWhile (\<lambda>x. x \<noteq> k) (k # ks)"
    by (rule takeWhile_append2) (use k in auto)
  then show ?thesis by (simp add: firstIndex_def)
qed

lemma fold_setAdd_order:
  assumes "distinct acc" and "set acc = set pre"
    and "sorted_wrt (\<lambda>a b. firstIndex pre a < firstIndex pre b) acc"
  shows "distinct (fold setAdd ks acc)
    \<and> set (fold setAdd ks acc) = set (pre @ ks)
    \<and> sorted_wrt (\<lambda>a b. firstIndex (pre @ ks) a < firstIndex (pre @ ks) b) (fold setAdd ks acc)"
  using assms
proof (induction ks arbitrary: acc pre)
  case Nil
  then show ?case by simp
next
  case (Cons k ks)
  have step: "distinct (setAdd k acc) \<and> set (setAdd k acc) = set (pre @ [k])
      \<and> sorted_wrt (\<lambda>a b. firstIndex (pre @ [k]) a < firstIndex (pre @ [k]) b) (setAdd k acc)"
  proof (cases "k \<in> set acc")
    case True
    have "sorted_wrt (\<lambda>a b. firstIndex (pre @ [k]) a < firstIndex (pre @ [k]) b) acc"
      using Cons.prems(3)
      by (rule sorted_wrt_mono_rel[rotated]) (simp add: Cons.prems(2) firstIndex_append_in)
    with True Cons.prems show ?thesis by (auto simp: setAdd_def)
  next
    case False
    then have kp: "k \<notin> set pre" using Cons.prems(2) by simp
    have old: "sorted_wrt (\<lambda>a b. firstIndex (pre @ [k]) a < firstIndex (pre @ [k]) b) acc"
      using Cons.prems(3)
      by (rule sorted_wrt_mono_rel[rotated]) (simp add: Cons.prems(2) firstIndex_append_in)
    have "\<forall>a \<in> set acc. firstIndex (pre @ [k]) a < firstIndex (pre @ [k]) k"
      using firstIndex_new[OF kp, of "[]"] firstIndex_less
      by (simp add: Cons.prems(2) firstIndex_append_in)
    with old False Cons.prems show ?thesis
      by (auto simp: setAdd_def sorted_wrt_append)
  qed
  from Cons.IH[of "setAdd k acc" "pre @ [k]"] step show ?case by simp
qed

lemma first_met_order:
  "distinct (fold setAdd ks [])
   \<and> set (fold setAdd ks []) = set ks
   \<and> sorted_wrt (\<lambda>a b. firstIndex ks a < firstIndex ks b) (fold setAdd ks [])"
  using fold_setAdd_order[of "[]" "[]" ks] by simp

lemma set_insertBy: "set (insertBy cmp x ys) = insert x (set ys)"
  by (induction ys) auto

lemma set_sortBy: "set (sortBy cmp xs) = set xs"
  by (induction xs) (auto simp: sortBy_def set_insertBy)

lemma length_insertBy: "length (insertBy cmp x ys) = Suc (length ys)"
  by (induction ys) auto

lemma length_sortBy: "length (sortBy cmp xs) = length xs"
  by (induction xs) (auto simp: sortBy_def length_insertBy)

lemma insertBy_ahead:
  assumes "sorted_wrt (ahead ks) ys"
    and "\<forall>y \<in> set ys. firstIndex ks (scored.number x) < firstIndex ks (scored.number y)"
  shows "sorted_wrt (ahead ks) (insertBy byValueDesc x ys)"
  using assms
proof (induction ys)
  case Nil
  then show ?case by simp
next
  case (Cons y ys)
  show ?case
  proof (cases "byValueDesc x y \<le> 0")
    case True
    then have xy: "scored.value y \<le> scored.value x" by (simp add: byValueDesc_def)
    have "\<forall>z \<in> set (y # ys). ahead ks x z"
    proof
      fix z assume z: "z \<in> set (y # ys)"
      have "scored.value z \<le> scored.value y"
        using z Cons.prems(1) by (auto simp: ahead_def)
      with xy z Cons.prems(2) show "ahead ks x z" by (auto simp: ahead_def)
    qed
    with True Cons.prems(1) show ?thesis by simp
  next
    case False
    then have yx: "scored.value x < scored.value y" by (simp add: byValueDesc_def)
    have "sorted_wrt (ahead ks) (insertBy byValueDesc x ys)"
      using Cons.IH Cons.prems by simp
    moreover have "\<forall>z \<in> set (insertBy byValueDesc x ys). ahead ks y z"
      using Cons.prems(1) yx by (auto simp: set_insertBy ahead_def)
    ultimately show ?thesis using False by simp
  qed
qed

lemma sortBy_ahead:
  assumes "sorted_wrt (\<lambda>a b. firstIndex ks (scored.number a) < firstIndex ks (scored.number b)) xs"
  shows "sorted_wrt (ahead ks) (sortBy byValueDesc xs)"
  using assms
proof (induction xs)
  case Nil
  then show ?case by (simp add: sortBy_def)
next
  case (Cons x xs)
  have "sorted_wrt (ahead ks) (sortBy byValueDesc xs)" using Cons by simp
  moreover have "\<forall>y \<in> set (sortBy byValueDesc xs).
      firstIndex ks (scored.number x) < firstIndex ks (scored.number y)"
    using Cons.prems by (simp add: set_sortBy)
  ultimately have "sorted_wrt (ahead ks) (insertBy byValueDesc x (sortBy byValueDesc xs))"
    by (rule insertBy_ahead)
  then show ?case by (simp add: sortBy_def)
qed

lemma length_withRank: "length (withRank xs) = length xs"
  by (simp add: withRank_def)

lemma nth_withRank:
  "i < length xs \<Longrightarrow>
     rank (withRank xs ! i) = int i + 1
     \<and> scored.value (withRank xs ! i) = scored.value (xs ! i)
     \<and> scored.number (withRank xs ! i) = scored.number (xs ! i)
     \<and> scored.displayValue (withRank xs ! i) = scored.displayValue (xs ! i)"
  by (simp add: withRank_def nth_enumerate_eq scored.defs)

lemma rankedBy_withRank:
  assumes "sorted_wrt (ahead ks) xs"
  shows "rankedBy ks (withRank xs)"
  unfolding rankedBy_def
proof (intro conjI allI impI)
  fix i j assume ij: "i < j \<and> j < length (withRank xs)"
  then have "ahead ks (xs ! i) (xs ! j)"
    using assms by (simp add: sorted_wrt_iff_nth_less length_withRank)
  with ij show "scored.value (withRank xs ! j) \<le> scored.value (withRank xs ! i)"
    by (simp add: nth_withRank length_withRank ahead_def)
next
  fix i j assume ij: "i < j \<and> j < length (withRank xs)"
    and eq: "scored.value (withRank xs ! i) = scored.value (withRank xs ! j)"
  then have "ahead ks (xs ! i) (xs ! j)"
    using assms by (simp add: sorted_wrt_iff_nth_less length_withRank)
  with ij eq show "firstIndex ks (scored.number (withRank xs ! i))
      < firstIndex ks (scored.number (withRank xs ! j))"
    by (simp add: nth_withRank length_withRank ahead_def)
next
  fix i assume "i < length (withRank xs)"
  then show "rank (withRank xs ! i) = int i + 1"
    by (simp add: nth_withRank length_withRank)
qed

text \<open>A ranking made from a tally: score the entries, sort, cut, rank.\<close>

lemma ranked_tally:
  assumes keys: "map fst m = fold setAdd ks []"
    and num: "\<forall>e \<in> set m. scored.number (sc e) = fst e"
  shows "rankedBy ks (withRank (take n (sortBy byValueDesc (map sc m))))"
proof -
  have "sorted_wrt (\<lambda>a b. firstIndex ks a < firstIndex ks b) (map fst m)"
    using first_met_order[of ks] keys by simp
  then have "sorted_wrt (\<lambda>a b. firstIndex ks (fst a) < firstIndex ks (fst b)) m"
    by (simp add: sorted_wrt_map)
  then have "sorted_wrt (\<lambda>a b. firstIndex ks (scored.number (sc a))
      < firstIndex ks (scored.number (sc b))) m"
    by (rule sorted_wrt_mono_rel[rotated]) (simp add: num)
  then have "sorted_wrt (\<lambda>a b. firstIndex ks (scored.number a) < firstIndex ks (scored.number b))
      (map sc m)"
    by (simp add: sorted_wrt_map)
  then have "sorted_wrt (ahead ks) (sortBy byValueDesc (map sc m))"
    by (rule sortBy_ahead)
  then have "sorted_wrt (ahead ks) (take n (sortBy byValueDesc (map sc m)))"
    by (rule sorted_wrt_take)
  then show ?thesis by (rule rankedBy_withRank)
qed

lemma keys_outgoing_style:
  "map fst (fold (\<lambda>record numberStats.
                    if cdr.callType record \<noteq> ty \<or> \<not> strTruthy (cdr.calledNumber record)
                    then numberStats
                    else modifyAt (the (cdr.calledNumber record)) (upd record)
                           (ensureKey (the (cdr.calledNumber record)) z numberStats)) rs [])
   = fold setAdd (calledKeys ty rs) []"
proof -
  have "filter (\<lambda>r. \<not> (cdr.callType r \<noteq> ty \<or> \<not> strTruthy (cdr.calledNumber r))) rs
      = filter (\<lambda>r. cdr.callType r = ty \<and> strTruthy (cdr.calledNumber r)) rs"
    by (rule filter_cong) auto
  then show ?thesis
    using keys_tally[of "\<lambda>r. cdr.callType r \<noteq> ty \<or> \<not> strTruthy (cdr.calledNumber r)"
        "\<lambda>r. the (cdr.calledNumber r)" upd "\<lambda>r. z" rs "[]"]
    by (simp add: calledKeys_def)
qed

lemma take_length_sortBy: "take (length m) (sortBy cmp (map sc m)) = sortBy cmp (map sc m)"
  by (simp add: length_sortBy)

lemma ranked_outgoing_calls: "rankedBy (calledKeys ''call_outgoing'' rs) (analyzeOutgoingCalls rs)"
  unfolding analyzeOutgoingCalls_def Let_def
  by (subst take_length_sortBy[symmetric], rule ranked_tally, rule keys_outgoing_style) auto

lemma ranked_incoming_calls: "rankedBy (calledKeys ''call_incoming'' rs) (analyzeIncomingCalls rs)"
  unfolding analyzeIncomingCalls_def Let_def
  by (subst take_length_sortBy[symmetric], rule ranked_tally, rule keys_outgoing_style) auto

lemma ranked_outgoing_sms: "rankedBy (calledKeys ''sms_sent'' rs) (analyzeOutgoingSMS rs)"
  unfolding analyzeOutgoingSMS_def Let_def
  by (subst take_length_sortBy[symmetric], rule ranked_tally, rule keys_outgoing_style) auto

lemma ranked_incoming_sms: "rankedBy (calledKeys ''sms_received'' rs) (analyzeIncomingSMS rs)"
  unfolding analyzeIncomingSMS_def Let_def
  by (subst take_length_sortBy[symmetric], rule ranked_tally, rule keys_outgoing_style) auto

lemma tallyTop_general:
  "tallyTop = (\<lambda>r m. if calledOrCaller r = [] then m
                      else modifyAt (calledOrCaller r) (countTop r)
                             (ensureKey (calledOrCaller r) zeroTop m))"
  by (intro ext) (simp add: tallyTop_def Let_def)

lemma keys_top: "map fst (fold tallyTop rs []) = fold setAdd (targetKeys rs) []"
proof -
  have "map calledOrCaller (filter (\<lambda>r. calledOrCaller r \<noteq> []) rs) = targetKeys rs"
    by (simp add: targetKeys_def filter_map comp_def)
  then show ?thesis
    using keys_tally[of "\<lambda>r. calledOrCaller r = []" calledOrCaller countTop "\<lambda>r. zeroTop" rs "[]"]
    by (simp add: tallyTop_general)
qed

lemma number_scoreTop: "scored.number (scoreTop ty e) = fst e"
  by (cases e; cases ty) (simp_all add: scoreTop_def)

lemma ranked_top: "rankedBy (targetKeys rs) (analyzeTopNumbers rs ty)"
  unfolding analyzeTopNumbers_def Let_def
  by (rule ranked_tally, rule keys_top) (simp add: number_scoreTop)

lemma length_top: "length (analyzeTopNumbers rs ty) \<le> 200"
  by (simp add: analyzeTopNumbers_def Let_def length_withRank)

text \<open>
  Claim C5. For every record list, each of the four per-type rankings and the combined
  view, for each of its four types, is in order: for all positions i < j of the result
  the value at i is at least the value at j, equal values stand in the order in which
  their numbers were first met in the records, and the rank at position i is i + 1. The
  combined view has at most 200 entries.
\<close>

theorem ranking_ordering:
  "rankedBy (calledKeys ''call_outgoing'' rs) (analyzeOutgoingCalls rs)
   \<and> rankedBy (calledKeys ''call_incoming'' rs) (analyzeIncomingCalls rs)
   \<and> rankedBy (calledKeys ''sms_sent'' rs) (analyzeOutgoingSMS rs)
   \<and> rankedBy (calledKeys ''sms_received'' rs) (analyzeIncomingSMS rs)
   \<and> rankedBy (targetKeys rs) (analyzeTopNumbers rs ty)
   \<and> length (analyzeTopNumbers rs ty) \<le> 200"
  using ranked_outgoing_calls ranked_incoming_calls ranked_outgoing_sms ranked_incoming_sms
    ranked_top length_top by blast

lemma outgoing_sample:
  "map (\<lambda>e. (scored.number e, scored.value e, rank e)) (analyzeOutgoingCalls sampleCalls)
   = [(''Y'', 2, 1), (''X'', 1, 2), (''Z'', 1, 3)]"
  by (simp add: analyzeOutgoingCalls_def sampleCalls_def sampleRecord_def strTruthy_def
      ensureKey_def byValueDesc_def sortBy_def withRank_def durationOr0_def scored.defs Let_def)

theorem ranking_ordering_witness:
  "length (analyzeOutgoingCalls sampleCalls) = 3
   \<and> scored.value (analyzeOutgoingCalls sampleCalls ! 0)
       \<ge> scored.value (analyzeOutgoingCalls sampleCalls ! 1)
   \<and> scored.value (analyzeOutgoingCalls sampleCalls ! 1)
       = scored.value (analyzeOutgoingCalls sampleCalls ! 2)
   \<and> firstIndex (calledKeys ''call_outgoing'' sampleCalls)
         (scored.number (analyzeOutgoingCalls sampleCalls ! 1))
       < firstIndex (calledKeys ''call_outgoing'' sampleCalls)
           (scored.number (analyzeOutgoingCalls sampleCalls ! 2))
   \<and> rank (analyzeOutgoingCalls sampleCalls ! 2) = 3"
proof -
  define res where "res = analyzeOutgoingCalls sampleCalls"
  have m: "map (\<lambda>e. (scored.number e, scored.value e, rank e)) res
      = [(''Y'', 2, 1), (''X'', 1, 2), (''Z'', 1, 3)]"
    by (simp add: res_def outgoing_sample)
  have l: "length res = 3"
    using arg_cong[OF m, of length] by simp
  have v: "scored.value (res ! 1) = scored.value (res ! 2)"
    using arg_cong[OF m, of "\<lambda>xs. fst (snd (xs ! 1)) = fst (snd (xs ! 2))"] l by simp
  have r: "rankedBy (calledKeys ''call_outgoing'' sampleCalls) res"
    using ranking_ordering[of sampleCalls Calls] by (simp add: res_def)
  have a: "scored.value (res ! 0) \<ge> scored.value (res ! 1)"
    using r l unfolding rankedBy_def by (metis zero_less_one one_less_numeral_iff semiring_norm(77))
  have b: "firstIndex (calledKeys ''call_outgoing'' sampleCalls) (scored.number (res ! 1))
      < firstIndex (calledKeys ''call_outgoing'' sampleCalls) (scored.number (res ! 2))"
    using r l v unfolding rankedBy_def
    by (metis lessI numeral_2_eq_2 numeral_3_eq_3 One_nat_def)
  have c: "rank (res ! 2) = 3"
    using r l unfolding rankedBy_def by (metis int_ops(3) lessI numeral_3_eq_3 numeral_2_eq_2 of_nat_Suc add.commute one_add_one)
  from l v a b c show ?thesis by (simp add: res_def)
qed

subsection \<open>SMS attribution in the combined view\<close>

lemma map_of_modifyAt:
  "map_of (modifyAt k f m) x = (if x = k then map_option f (map_of m k) else map_of m x)"
  by (induction m) auto

lemma map_of_ensureKey:
  "map_of (ensureKey k i m) x = (if x = k \<and> map_of m k = None then Some i else map_of m x)"
  by (auto simp: ensureKey_def map_add_def split: option.splits)

text \<open>What a tally holds for a key: the changes of the records with that key, applied
  in order to the initial value.\<close>

lemma tally_value:
  "map_of (fold (\<lambda>r m. if skip r then m
                         else modifyAt (key r) (upd r) (ensureKey (key r) z m)) rs m0) n
   = (if filter (\<lambda>r. \<not> skip r \<and> key r = n) rs = [] then map_of m0 n
      else Some (fold upd (filter (\<lambda>r. \<not> skip r \<and> key r = n) rs)
                   (case map_of m0 n of Some s \<Rightarrow> s | None \<Rightarrow> z)))"
proof (induction rs arbitrary: m0)
  case Nil
  then show ?case by simp
next
  case (Cons r rs)
  show ?case
    by (simp add: Cons.IH map_of_modifyAt map_of_ensureKey split: option.splits)
qed

lemma smsReceived_fold:
  "topStats.smsReceived (fold countTop rs s)
   = topStats.smsReceived s + int (length (filter (\<lambda>r. cdr.callType r = ''sms_sent'') rs))"
  by (induction rs arbitrary: s) (auto simp: countTop_def)

lemma smsSent_fold:
  "topStats.smsSent (fold countTop rs s)
   = topStats.smsSent s + int (length (filter (\<lambda>r. cdr.callType r = ''sms_received'') rs))"
  by (induction rs arbitrary: s) (auto simp: countTop_def)

lemma top_entry:
  assumes "(n, st) \<in> set (fold tallyTop rs [])"
  shows "n \<noteq> []
    \<and> st = fold countTop (filter (\<lambda>r. calledOrCaller r = n) rs) zeroTop"
proof -
  have d: "distinct (map fst (fold tallyTop rs []))"
    using first_met_order[of "targetKeys rs"] by (simp add: keys_top)
  have "n \<in> set (map fst (fold tallyTop rs []))"
    using assms by force
  then have "n \<in> set (targetKeys rs)"
    using first_met_order[of "targetKeys rs"] by (simp add: keys_top)
  then have n: "n \<noteq> []" by (simp add: targetKeys_def)
  have f: "filter (\<lambda>r. calledOrCaller r \<noteq> [] \<and> calledOrCaller r = n) rs
      = filter (\<lambda>r. calledOrCaller r = n) rs"
    by (rule filter_cong) (use n in auto)
  have "map_of (fold tallyTop rs []) n = Some st"
    using assms d by simp
  then show ?thesis
    using tally_value[of "\<lambda>r. calledOrCaller r = []" calledOrCaller countTop zeroTop rs "[]" n] n
    by (simp add: tallyTop_general f split: if_splits)
qed

lemma in_withRank:
  assumes "e \<in> set (withRank xs)"
  shows "\<exists>x \<in> set xs. scored.number e = scored.number x \<and> scored.value e = scored.value x"
proof -
  from assms obtain i where i: "i < length xs" "withRank xs ! i = e"
    by (auto simp: in_set_conv_nth length_withRank)
  then show ?thesis using nth_withRank[of i xs] by auto
qed

lemma top_result_entry:
  assumes "e \<in> set (analyzeTopNumbers rs ty)"
  shows "\<exists>st. scored.number e \<noteq> []
      \<and> st = fold countTop (filter (\<lambda>r. calledOrCaller r = scored.number e) rs) zeroTop
      \<and> scored.value e = scored.value (scoreTop ty (scored.number e, st))"
proof -
  from in_withRank[OF assms[unfolded analyzeTopNumbers_def Let_def]]
  obtain x where x: "x \<in> set (take 200 (sortBy byValueDesc (map (scoreTop ty) (fold tallyTop rs []))))"
    "scored.number e = scored.number x" "scored.value e = scored.value x"
    by blast
  have "set (take 200 (sortBy byValueDesc (map (scoreTop ty) (fold tallyTop rs []))))
      \<subseteq> set (sortBy byValueDesc (map (scoreTop ty) (fold tallyTop rs [])))"
    by (rule set_take_subset)
  with x(1) have "x \<in> set (sortBy byValueDesc (map (scoreTop ty) (fold tallyTop rs [])))"
    by (rule rev_subsetD)
  then have "x \<in> scoreTop ty ` set (fold tallyTop rs [])"
    by (simp only: set_sortBy set_map)
  then obtain p where p: "p \<in> set (fold tallyTop rs [])" "x = scoreTop ty p"
    by (rule imageE)
  obtain n st where ns: "p = (n, st)" by (cases p)
  have nx: "scored.number x = n" by (simp only: p(2) ns number_scoreTop fst_conv)
  have ne: "scored.number e = n" by (simp only: x(2) nx)
  from p(1) have "(n, st) \<in> set (fold tallyTop rs [])" by (simp only: ns)
  from top_entry[OF this]
  have "n \<noteq> []" and "st = fold countTop (filter (\<lambda>r. calledOrCaller r = n) rs) zeroTop"
    by simp_all
  moreover have "scored.value e = scored.value (scoreTop ty (n, st))"
    by (simp only: x(3) p(2) ns)
  ultimately show ?thesis by (simp only: ne) simp
qed

lemma value_scoreTop:
  "scored.value (scoreTop SmsReceived (n, st)) = topStats.smsReceived st"
  "scored.value (scoreTop SmsSent (n, st)) = topStats.smsSent st"
  by (simp_all add: scoreTop_def)

lemma filter_filter_conj: "filter P (filter Q xs) = filter (\<lambda>x. Q x \<and> P x) xs"
  by (induction xs) auto

lemma numbers_of_top:
  assumes "length (remdups (targetKeys rs)) \<le> 200"
  shows "scored.number ` set (analyzeTopNumbers rs ty) = set (targetKeys rs)"
proof -
  define m where "m = fold tallyTop rs []"
  have k: "map fst m = fold setAdd (targetKeys rs) []" by (simp add: m_def keys_top)
  have d: "distinct (map fst m)" and s: "fst ` set m = set (targetKeys rs)"
    using first_met_order[of "targetKeys rs"] k by (simp_all flip: set_map)
  have "card (set (map fst m)) = length (map fst m)"
    using d by (rule distinct_card)
  then have "length m = card (set (targetKeys rs))"
    using s by simp
  also have "\<dots> = length (remdups (targetKeys rs))" by (simp add: length_remdups_card_conv)
  finally have l: "length m \<le> 200" using assms by simp
  have t: "take 200 (sortBy byValueDesc (map (scoreTop ty) m)) = sortBy byValueDesc (map (scoreTop ty) m)"
    using l by (simp add: length_sortBy)
  have "scored.number ` set (withRank xs) = scored.number ` set xs" for xs
  proof -
    have "map scored.number (withRank xs) = map scored.number xs"
      by (rule nth_equalityI) (simp_all add: length_withRank nth_withRank)
    then show ?thesis by (metis set_map)
  qed
  then have "scored.number ` set (analyzeTopNumbers rs ty)
      = scored.number ` set (map (scoreTop ty) m)"
    by (simp add: analyzeTopNumbers_def Let_def m_def[symmetric] t set_sortBy)
  also have "\<dots> = fst ` set m"
    by (simp add: image_image number_scoreTop)
  finally show ?thesis by (simp only: s)
qed

text \<open>
  Claim C10. In the combined view the counterpart of a record is its called number when
  that is present and not empty, else its caller number. For every record list, the
  value of an entry of the ranking of type \<open>sms_received\<close> is the number of records of
  call type \<open>sms_sent\<close> whose counterpart is the entry's number, and the value of an entry
  of the ranking of type \<open>sms_sent\<close> is the number of records of call type \<open>sms_received\<close>
  with that counterpart. With at most 200 distinct counterparts, the entries are exactly
  the counterparts that are not empty.
\<close>

theorem sms_attribution_inverted:
  "(\<forall>e \<in> set (analyzeTopNumbers rs SmsReceived).
      scored.value e
      = int (length (filter (\<lambda>r. calledOrCaller r = scored.number e
                                  \<and> cdr.callType r = ''sms_sent'') rs)))
   \<and> (\<forall>e \<in> set (analyzeTopNumbers rs SmsSent).
      scored.value e
      = int (length (filter (\<lambda>r. calledOrCaller r = scored.number e
                                  \<and> cdr.callType r = ''sms_received'') rs)))
   \<and> (length (remdups (targetKeys rs)) \<le> 200 \<longrightarrow>
        scored.number ` set (analyzeTopNumbers rs ty) = set (targetKeys rs))
   \<and> calledOrCaller r
      = (case cdr.calledNumber r of
           Some c \<Rightarrow> if c \<noteq> [] then c else cdr.callerNumber r
         | None \<Rightarrow> cdr.callerNumber r)"
proof (intro conjI ballI impI)
  fix e assume "e \<in> set (analyzeTopNumbers rs SmsReceived)"
  from top_result_entry[OF this]
  show "scored.value e
      = int (length (filter (\<lambda>r. calledOrCaller r = scored.number e
                                  \<and> cdr.callType r = ''sms_sent'') rs))"
    by (simp add: value_scoreTop smsReceived_fold zeroTop_def filter_filter_conj)
next
  fix e assume "e \<in> set (analyzeTopNumbers rs SmsSent)"
  from top_result_entry[OF this]
  show "scored.value e
      = int (length (filter (\<lambda>r. calledOrCaller r = scored.number e
                                  \<and> cdr.callType r = ''sms_received'') rs))"
    by (simp add: value_scoreTop smsSent_fold zeroTop_def filter_filter_conj)
next
  assume "length (remdups (targetKeys rs)) \<le> 200"
  then show "scored.number ` set (analyzeTopNumbers rs ty) = set (targetKeys rs)"
    by (rule numbers_of_top)
next
  show "calledOrCaller r
      = (case cdr.calledNumber r of
           Some c \<Rightarrow> if c \<noteq> [] then c else cdr.callerNumber r
         | None \<Rightarrow> cdr.callerNumber r)"
    by (simp add: calledOrCaller_def strTruthy_def split: option.splits)
qed

lemma sms_sample:
  "map (\<lambda>e. (scored.number e, scored.value e)) (analyzeTopNumbers sampleSms SmsReceived)
     = [(''X'', 1), (''S'', 0)]"
  "map (\<lambda>e. (scored.number e, scored.value e)) (analyzeTopNumbers sampleSms SmsSent)
     = [(''S'', 1), (''X'', 0)]"
  by (simp_all add: analyzeTopNumbers_def sampleSms_def sampleRecord_def tallyTop_def countTop_def
      zeroTop_def calledOrCaller_def strTruthy_def ensureKey_def byValueDesc_def sortBy_def
      withRank_def scoreTop_def scored.defs Let_def)

theorem sms_attribution_inverted_witness:
  "analyzeTopNumbers sampleSms SmsReceived \<noteq> []
   \<and> scored.number (hd (analyzeTopNumbers sampleSms SmsReceived)) = ''X''
   \<and> scored.value (hd (analyzeTopNumbers sampleSms SmsReceived))
      = int (length (filter (\<lambda>r. calledOrCaller r = ''X'' \<and> cdr.callType r = ''sms_sent'') sampleSms))
   \<and> analyzeTopNumbers sampleSms SmsSent \<noteq> []
   \<and> scored.number (hd (analyzeTopNumbers sampleSms SmsSent)) = ''S''
   \<and> scored.value (hd (analyzeTopNumbers sampleSms SmsSent))
      = int (length (filter (\<lambda>r. calledOrCaller r = ''S'' \<and> cdr.callType r = ''sms_received'')
                       sampleSms))"
proof -
  have a: "analyzeTopNumbers sampleSms SmsReceived \<noteq> []"
    and b: "analyzeTopNumbers sampleSms SmsSent \<noteq> []"
    using sms_sample by auto
  have na: "scored.number (hd (analyzeTopNumbers sampleSms SmsReceived)) = ''X''"
    using sms_sample(1) a by (cases "analyzeTopNumbers sampleSms SmsReceived") auto
  have nb: "scored.number (hd (analyzeTopNumbers sampleSms SmsSent)) = ''S''"
    using sms_sample(2) b by (cases "analyzeTopNumbers sampleSms SmsSent") auto
  have ha: "hd (analyzeTopNumbers sampleSms SmsReceived) \<in> set (analyzeTopNumbers sampleSms SmsReceived)"
    using a by (rule hd_in_set)
  have hb: "hd (analyzeTopNumbers sampleSms SmsSent) \<in> set (analyzeTopNumbers sampleSms SmsSent)"
    using b by (rule hd_in_set)
  note t = sms_attribution_inverted[of sampleSms Calls "hd sampleSms"]
  from t ha have va: "scored.value (hd (analyzeTopNumbers sampleSms SmsReceived))
      = int (length (filter (\<lambda>r. calledOrCaller r
             = scored.number (hd (analyzeTopNumbers sampleSms SmsReceived))
           \<and> cdr.callType r = ''sms_sent'') sampleSms))"
    by blast
  from t hb have vb: "scored.value (hd (analyzeTopNumbers sampleSms SmsSent))
      = int (length (filter (\<lambda>r. calledOrCaller r
             = scored.number (hd (analyzeTopNumbers sampleSms SmsSent))
           \<and> cdr.callType r = ''sms_received'') sampleSms))"
    by blast
  from va vb show ?thesis
    unfolding na nb using a b by (intro conjI) (rule refl | assumption)+
qed

subsection \<open>Mobility levels\<close>

lemma classifyNormalized_range:
  "classifyNormalized t \<in> {''call_incoming'', ''call_outgoing'', ''sms_sent'', ''sms_received''}"
  by (simp add: classifyNormalized_def)

lemma rowCallType_not_call: "rowCallType env r \<noteq> ''call''"
  using classifyNormalized_range[of "trim (toLowerCase (toStr env (orElse (getCell r ''Call Type'') ''call'')))"]
  by (auto simp: rowCallType_def classifyCallType_def)

lemma cdrOfRow_callType:
  "cdrOfRow env uid w r = Inr (x, w') \<Longrightarrow> cdr.callType x = rowCallType env r"
  by (auto simp: cdrOfRow_def split: sum.splits prod.splits)

lemma mapRows_callType:
  "mapRows env uid w rows = Inr (recs, w') \<Longrightarrow> \<forall>x \<in> set recs. cdr.callType x \<noteq> ''call''"
proof (induction rows arbitrary: w recs)
  case Nil
  then show ?case by simp
next
  case (Cons r rows)
  then show ?case
    by (auto simp: cdrOfRow_callType rowCallType_not_call split: sum.splits prod.splits)
qed

text \<open>The parser never gives a record the call type \<open>call\<close>.\<close>

lemma parsed_callType:
  assumes "parseExcelToCDR env w data uid = Inr rs"
  shows "\<forall>x \<in> set rs. cdr.callType x \<noteq> ''call''"
proof -
  from assms obtain recs w' where
    m: "mapRows env uid w (normalizeColumnNames env data) = Inr (recs, w')"
    and rs: "rs = filter (\<lambda>x. cdr.callerNumber x \<noteq> []) recs"
    by (auto simp: parse_normalized split: sum.splits prod.splits)
  from mapRows_callType[OF m] show ?thesis by (simp add: rs)
qed

text \<open>Without a record of call type \<open>call\<close> the movement analysis has nothing to group.\<close>

lemma movement_needs_call:
  assumes "\<forall>x \<in> set rs. cdr.callType x \<noteq> ''call''"
  shows "analyzeMovementPatterns env rs = []"
proof -
  have "filter (\<lambda>record. strTruthy (cdr.location record) \<and> cdr.callType record = ''call'') rs = []"
    using assms by (simp add: filter_empty_conv)
  then have "groupMovements rs = []" by (simp add: groupMovements_def)
  then show ?thesis by (simp add: analyzeMovementPatterns_def sortBy_def)
qed

text \<open>So on every record list that the parser returns, the movement analysis is empty.\<close>

lemma movement_empty_on_parsed:
  "parseExcelToCDR env w data uid = Inr rs \<Longrightarrow> analyzeMovementPatterns env rs = []"
  by (rule movement_needs_call, rule parsed_callType)

text \<open>What the analysis does with the records that pass its filter: an entry has at least
  one change, its level follows the thresholds, the entries are in descending order of
  their changes, and there are at most 50.\<close>

lemma movement_entries:
  assumes "e \<in> set (analyzeMovementPatterns env rs)"
  shows "locationMovementResult.totalChanges e = int (length (locationMovementResult.changes e)) \<and> locationMovementResult.totalChanges e \<ge> 1
    \<and> locationMovementResult.mobilityLevel e = (if locationMovementResult.totalChanges e > 15 then High
                          else if locationMovementResult.totalChanges e > 8 then Medium else Low)"
proof -
  from assms have "e \<in> set (take 50 (sortBy (\<lambda>a b. locationMovementResult.totalChanges b
          - locationMovementResult.totalChanges a)
        (concat (map (movementResult env) (groupMovements rs)))))"
    by (simp add: analyzeMovementPatterns_def Let_def)
  then have "e \<in> set (sortBy (\<lambda>a b. locationMovementResult.totalChanges b
          - locationMovementResult.totalChanges a)
        (concat (map (movementResult env) (groupMovements rs))))"
    by (rule in_set_takeD)
  then have "e \<in> set (concat (map (movementResult env) (groupMovements rs)))"
    by (simp only: set_sortBy)
  then obtain p where "e \<in> set (movementResult env p)" by auto
  then show ?thesis
    by (cases p) (auto simp: movementResult_def Let_def Suc_le_eq split: if_splits)
qed

lemma insertBy_descending:
  "sorted_wrt (\<lambda>a b. f b \<le> f a) ys
   \<Longrightarrow> sorted_wrt (\<lambda>a b. f b \<le> f a) (insertBy (\<lambda>a b. f b - f a) x ys)"
  for f :: "'a \<Rightarrow> int"
  by (induction ys) (auto simp: set_insertBy)

lemma sortBy_descending:
  "sorted_wrt (\<lambda>a b. f b \<le> f a) (sortBy (\<lambda>a b. f b - f a) xs)"
  for f :: "'a \<Rightarrow> int"
  by (induction xs) (simp_all add: sortBy_def insertBy_descending)

lemma movement_sorted:
  "sorted_wrt (\<lambda>a b. locationMovementResult.totalChanges b \<le> locationMovementResult.totalChanges a) (analyzeMovementPatterns env rs)"
  unfolding analyzeMovementPatterns_def Let_def
  by (rule sorted_wrt_take, rule sortBy_descending)

lemma movement_capped: "length (analyzeMovementPatterns env rs) \<le> 50"
  by (simp add: analyzeMovementPatterns_def Let_def)

lemma commuter_calls:
  "map (\<lambda>e. (locationMovementResult.number e, locationMovementResult.totalChanges e, locationMovementResult.mobilityLevel e))
       (analyzeMovementPatterns sampleRuntime (commuterRecords ''call''))
     = [(''0300'', 16, High)]"
  by (simp add: analyzeMovementPatterns_def commuterRecords_def sampleRecord_def groupMovements_def
      calledOrCaller_def strTruthy_def ensureKey_def durationOr0_def movementResult_def changesOf_def
      walkMovement_def byMovementTime_def sortBy_def sampleRuntime_def Let_def)

text \<open>
  Claim C4. A subscriber with exactly 16 location changes is to be reported with the
  level \<open>high\<close>. The seventeen records of the number 0300 alternate between two sites,
  which makes sixteen changes. With the call type \<open>call_outgoing\<close>, one of the four call
  types that the parser gives a record, the movement analysis reports nothing at all,
  because it keeps only records whose call type is \<open>call\<close>; with that call type, which
  no parsed record has, the same records are reported with 16 changes and the level
  \<open>high\<close>.
\<close>

theorem commuter_not_reported:
  "analyzeMovementPatterns sampleRuntime (commuterRecords ''call_outgoing'') = []
   \<and> map (\<lambda>e. (locationMovementResult.number e, locationMovementResult.totalChanges e, locationMovementResult.mobilityLevel e))
        (analyzeMovementPatterns sampleRuntime (commuterRecords ''call''))
       = [(''0300'', 16, High)]
   \<and> rowCallType sampleRuntime [(''Call Type'', CStr ''MO'')] = ''call_outgoing''"
proof (intro conjI)
  have "\<forall>x \<in> set (commuterRecords ''call_outgoing''). cdr.callType x \<noteq> ''call''"
    by (simp add: commuterRecords_def sampleRecord_def)
  then show "analyzeMovementPatterns sampleRuntime (commuterRecords ''call_outgoing'') = []"
    by (rule movement_needs_call)
next
  show "map (\<lambda>e. (locationMovementResult.number e, locationMovementResult.totalChanges e, locationMovementResult.mobilityLevel e))
        (analyzeMovementPatterns sampleRuntime (commuterRecords ''call''))
       = [(''0300'', 16, High)]"
    by (rule commuter_calls)
next
  show "rowCallType sampleRuntime [(''Call Type'', CStr ''MO'')] = ''call_outgoing''"
    by (simp add: rowCallType_text classify_six)
qed

subsection \<open>Empty input\<close>

lemma sortBy_Nil: "sortBy cmp [] = []"
  by (simp add: sortBy_def)

lemma withRank_Nil: "withRank [] = []"
  by (simp add: withRank_def)

lemma rankings_empty:
  "analyzeOutgoingCalls [] = []" "analyzeIncomingCalls [] = []"
  "analyzeOutgoingSMS [] = []" "analyzeIncomingSMS [] = []"
  "analyzeTopNumbers [] ty = []"
  by (simp_all add: analyzeOutgoingCalls_def analyzeIncomingCalls_def analyzeOutgoingSMS_def
      analyzeIncomingSMS_def analyzeTopNumbers_def sortBy_Nil withRank_Nil)

lemma lists_empty:
  "analyzeLocationPatterns env [] = []"
  "analyzeDetailedLocationTimeline env [] = []"
  "analyzeMovementPatterns env [] = []"
  "analyzeIMEIChanges env [] = []"
  "generateDailyBreakdown env [] = []"
  by (simp_all add: analyzeLocationPatterns_def analyzeDetailedLocationTimeline_def
      groupTimelines_def analyzeMovementPatterns_def groupMovements_def analyzeIMEIChanges_def
      groupIMEIs_def generateDailyBreakdown_def sortBy_Nil)

lemma showInt_0: "showInt 0 = ''0''"
  by (simp add: showInt_def showNat.simps[of 0] char_of_48)

lemma fileStats_empty:
  "generateFileStats env [] p
     = \<lparr> totalRecords = 0, uniqueNumbers = 0, dateRange = ''0 Days'',
         processingTime = toFixed1 env p @ ''s'', dailyBreakdown = [] \<rparr>"
  by (simp add: generateFileStats_def lists_empty showInt_0)

lemma activity_empty:
  "getTimeBasedActivity env []
     = \<lparr> peakHour = ''0:00'', peakDay = ''Sun'', hourlyDistribution = replicate 24 0,
         activityScore = 0 \<rparr>"
  by (simp add: getTimeBasedActivity_def Let_def indexOf_def showInt_0 dayNames_def)

lemma profile_absent:
  assumes "\<forall>r \<in> set rs. cdr.callerNumber r \<noteq> t \<and> cdr.calledNumber r \<noteq> Some t"
  shows "analyzeSpecificNumber env rs t = None"
proof -
  have "filter (\<lambda>record. cdr.callerNumber record = t \<or> cdr.calledNumber record = Some t) rs = []"
    using assms by (simp add: filter_empty_conv)
  then show ?thesis by (simp add: analyzeSpecificNumber_def)
qed

text \<open>
  Claim C8. Applied to the empty record list, every ranking and every list-valued
  analysis returns the empty list, the file statistics are zero records, zero numbers,
  a range of "0 Days" and an empty daily breakdown, the time-based activity is all
  zeros with the first hour and the first day as peaks, and the profile of any number
  is null. For every record list, the profile of a number that is neither the caller
  nor the called number of any record is null. The functions return these values: no
  step of them raises on the empty list.
\<close>

theorem empty_input_neutral:
  "analyzeOutgoingCalls [] = [] \<and> analyzeIncomingCalls [] = []
   \<and> analyzeOutgoingSMS [] = [] \<and> analyzeIncomingSMS [] = []
   \<and> analyzeTopNumbers [] ty = []
   \<and> analyzeLocationPatterns env [] = []
   \<and> analyzeDetailedLocationTimeline env [] = []
   \<and> analyzeMovementPatterns env [] = []
   \<and> analyzeIMEIChanges env [] = []
   \<and> generateDailyBreakdown env [] = []
   \<and> generateFileStats env [] p
       = \<lparr> totalRecords = 0, uniqueNumbers = 0, dateRange = ''0 Days'',
           processingTime = toFixed1 env p @ ''s'', dailyBreakdown = [] \<rparr>
   \<and> getTimeBasedActivity env []
       = \<lparr> peakHour = ''0:00'', peakDay = ''Sun'', hourlyDistribution = replicate 24 0,
           activityScore = 0 \<rparr>
   \<and> analyzeSpecificNumber env [] t = None
   \<and> ((\<forall>r \<in> set rs. cdr.callerNumber r \<noteq> t \<and> cdr.calledNumber r \<noteq> Some t)
        \<longrightarrow> analyzeSpecificNumber env rs t = None)"
  using rankings_empty lists_empty fileStats_empty activity_empty
    profile_absent[where rs = "[]"] profile_absent[where rs = rs and t = t]
  by (intro conjI impI) simp_all

theorem empty_input_neutral_witness:
  "analyzeSpecificNumber sampleRuntime sampleCalls ''Q'' = None
   \<and> analyzeSpecificNumber sampleRuntime [] ''S'' = None
   \<and> generateFileStats sampleRuntime [] 1500
       = \<lparr> totalRecords = 0, uniqueNumbers = 0, dateRange = ''0 Days'',
           processingTime = ''1.5s'', dailyBreakdown = [] \<rparr>"
proof -
  have a: "\<forall>r \<in> set sampleCalls. cdr.callerNumber r \<noteq> ''Q'' \<and> cdr.calledNumber r \<noteq> Some ''Q''"
    by (simp add: sampleCalls_def sampleRecord_def)
  have f: "toFixed1 sampleRuntime 1500 = ''1.5''"
    by (simp add: sampleRuntime_def showInt_def showNat.simps[of 1] showNat.simps[of 5])
      code_simp
  from empty_input_neutral[where env = sampleRuntime and p = 1500 and t = "''Q''"
      and rs = sampleCalls]
    empty_input_neutral[where env = sampleRuntime and p = 1500 and t = "''S''"] a
  show ?thesis by (simp add: f)
qed

end
